theory Spec2Isabelle
  imports Complex_Main
begin

section \<open>Numeric containers\<close>

text \<open>
  The program keeps every quantity in numpy arrays of floats. A vector is modelled as a
  list of reals and a matrix as the list of its rows. The reals idealise the floats: the
  model says which operations are applied to which operands, in which order, and it does
  not model rounding, overflow or NaN.

  An exception of the source is a value of type \<open>error\<close>:
  \<^item> \<open>IndexError\<close>: a subscript outside \<open>[-len, len)\<close>;
  \<^item> \<open>ValueError\<close>: numpy operands whose shapes do not match (the model does not follow
    numpy's broadcasting of size-one axes: every mismatch is \<open>ValueError\<close>);
  \<^item> \<open>DomainError\<close>: a one-hot index outside \<open>[0, size)\<close>;
  \<^item> \<open>ZeroDivisionError\<close>: a division or a remainder by zero;
  \<^item> \<open>UnboundLocalError\<close>: a local variable read before any assignment to it.
  A method that raises after it has updated part of \<open>self\<close> in place leaves that part
  updated; the model returns the exception alone.
\<close>

datatype error = IndexError | ValueError | DomainError | ZeroDivisionError | UnboundLocalError

type_synonym vec = "real list"
type_synonym mat = "real list list"

definition and_then :: "error + 'a \<Rightarrow> ('a \<Rightarrow> error + 'b) \<Rightarrow> error + 'b" where
  "and_then r f = (case r of Inl e \<Rightarrow> Inl e | Inr v \<Rightarrow> f v)"

text \<open>
  The subscription \<open>xs[i]\<close> of a Python list or of a numpy array along its first axis:
  an index in \<open>[-len, 0)\<close> reads position \<open>len + i\<close>.
\<close>

definition py_get :: "'a list \<Rightarrow> int \<Rightarrow> error + 'a" where
  "py_get xs i =
     (if 0 \<le> i \<and> i < int (length xs) then Inr (xs ! nat i)
      else if - int (length xs) \<le> i \<and> i < 0 then Inr (xs ! nat (int (length xs) + i))
      else Inl IndexError)"

text \<open>\<open>range(n)\<close> for an integer \<open>n\<close>: empty when \<open>n \<le> 0\<close>.\<close>

definition py_range :: "int \<Rightarrow> int list" where
  "py_range n = map int [0 ..< nat n]"

text \<open>A \<open>for\<close> loop over a list of indices whose body may raise: the first exception ends it.\<close>

fun for_loop :: "'i list \<Rightarrow> ('i \<Rightarrow> 'st \<Rightarrow> error + 'st) \<Rightarrow> 'st \<Rightarrow> error + 'st" where
  "for_loop [] body st = Inr st"
| "for_loop (i # is) body st =
     (case body i st of Inl e \<Rightarrow> Inl e | Inr st' \<Rightarrow> for_loop is body st')"

definition vec_add :: "vec \<Rightarrow> vec \<Rightarrow> error + vec" where
  "vec_add a b = (if length a = length b then Inr (map2 (+) a b) else Inl ValueError)"

definition vec_sub :: "vec \<Rightarrow> vec \<Rightarrow> error + vec" where
  "vec_sub a b = (if length a = length b then Inr (map2 (-) a b) else Inl ValueError)"

definition vec_mul :: "vec \<Rightarrow> vec \<Rightarrow> error + vec" where
  "vec_mul a b = (if length a = length b then Inr (map2 (*) a b) else Inl ValueError)"

definition dot :: "vec \<Rightarrow> vec \<Rightarrow> error + real" where
  "dot a b = (if length a = length b then Inr (sum_list (map2 (*) a b)) else Inl ValueError)"

text \<open>\<open>M @ v\<close> for a matrix \<open>M\<close> and a vector \<open>v\<close>.\<close>

definition matvec :: "mat \<Rightarrow> vec \<Rightarrow> error + vec" where
  "matvec M v =
     (if list_all (\<lambda>row. length row = length v) M
      then Inr (map (\<lambda>row. sum_list (map2 (*) row v)) M) else Inl ValueError)"

text \<open>
  \<open>np.dot(np.transpose(M), v)\<close> for a matrix \<open>M\<close> with \<open>c\<close> columns: entry \<open>j\<close> of the
  result is the sum over the rows \<open>i\<close> of \<open>M[i][j] * v[i]\<close>.
\<close>

definition dot_transpose :: "nat \<Rightarrow> mat \<Rightarrow> vec \<Rightarrow> error + vec" where
  "dot_transpose c M v =
     (if length M = length v \<and> list_all (\<lambda>row. length row = c) M
      then Inr (map (\<lambda>j. sum_list (map2 (\<lambda>row vi. row ! j * vi) M v)) [0 ..< c])
      else Inl ValueError)"

definition outer :: "vec \<Rightarrow> vec \<Rightarrow> mat" where
  "outer a b = map (\<lambda>ai. map (\<lambda>bj. ai * bj) b) a"

definition same_shape :: "mat \<Rightarrow> mat \<Rightarrow> bool" where
  "same_shape A B \<longleftrightarrow> length A = length B \<and> list_all2 (\<lambda>r r'. length r = length r') A B"

text \<open>The in-place \<open>A += B\<close> on matrices.\<close>

definition mat_add :: "mat \<Rightarrow> mat \<Rightarrow> error + mat" where
  "mat_add A B = (if same_shape A B then Inr (map2 (map2 (+)) A B) else Inl ValueError)"

text \<open>The row assignment \<open>A[t] = v\<close> for \<open>t\<close> in \<open>range(len(A))\<close>.\<close>

definition set_row :: "mat \<Rightarrow> int \<Rightarrow> vec \<Rightarrow> error + mat" where
  "set_row A t v =
     (if 0 \<le> t \<and> t < int (length A)
      then (if length v = length (A ! nat t) then Inr (A[nat t := v]) else Inl ValueError)
      else Inl IndexError)"

definition zeros :: "nat \<Rightarrow> vec" where
  "zeros n = replicate n 0"

definition zeros2 :: "nat \<Rightarrow> nat \<Rightarrow> mat" where
  "zeros2 r c = replicate r (zeros c)"

section \<open>Numeric primitives (module rnnmath)\<close>

text \<open>
  The module \<open>rnnmath\<close>, which defines \<open>make_onehot\<close>, \<open>sigmoid\<close>, \<open>softmax\<close> and
  \<open>grad\<close>, is not among the sources. The four definitions follow section 4.1 of the
  specification.
\<close>

text \<open>
  Modelled from the spec: \<open>make_onehot\<close> of the absent module \<open>rnnmath\<close>.
  \<open>oneHot(index, size)\<close> is the vector of length \<open>size\<close> with 1.0 at \<open>index\<close> and 0
  elsewhere; it fails with DomainError if \<open>index\<close> is out of \<open>[0, size)\<close>.
\<close>

definition make_onehot :: "int \<Rightarrow> nat \<Rightarrow> error + vec" where
  "make_onehot i n =
     (if 0 \<le> i \<and> i < int n then Inr ((zeros n)[nat i := 1]) else Inl DomainError)"

text \<open>
  Modelled from the spec: \<open>sigmoid\<close> of the absent module \<open>rnnmath\<close>, elementwise
  \<open>1/(1+exp(-v))\<close>.
\<close>

definition sigmoid :: "vec \<Rightarrow> vec" where
  "sigmoid v = map (\<lambda>a. 1 / (1 + exp (- a))) v"

text \<open>
  Modelled from the spec: \<open>softmax\<close> of the absent module \<open>rnnmath\<close>, elementwise
  \<open>exp(v_i)/\<Sigma>exp(v_j)\<close>.
\<close>

definition softmax :: "vec \<Rightarrow> vec" where
  "softmax v = map (\<lambda>a. exp a / sum_list (map exp v)) v"

text \<open>
  Modelled from the spec: \<open>grad\<close> of the absent module \<open>rnnmath\<close>
  (\<open>sigmoidGradientFromOutput\<close>), elementwise \<open>s*(1-s)\<close>.
\<close>

definition grad :: "vec \<Rightarrow> vec" where
  "grad s = map (\<lambda>a. a * (1 - a)) s"

section \<open>The RNN (rnn.py)\<close>

text \<open>
  The object \<open>self\<close>: the three sizes, the weight matrices \<open>U\<close> (hidden to hidden),
  \<open>V\<close> (input to hidden), \<open>W\<close> (hidden to output) and their accumulators.
\<close>

record rnn =
  vocab_size :: nat
  hidden_dims :: nat
  out_vocab_size :: nat
  U :: mat
  V :: mat
  W :: mat
  deltaU :: mat
  deltaV :: mat
  deltaW :: mat

subsection \<open>predict\<close>

text \<open>
  The body of \<open>for t in range(len(x))\<close>; the loop state is the pair of traces \<open>(y, s)\<close>.
  The row \<open>s[t-1]\<close> at \<open>t = 0\<close> is \<open>s[-1]\<close>, the last row of \<open>s\<close>.
\<close>

definition predict_body :: "rnn \<Rightarrow> int list \<Rightarrow> int \<Rightarrow> mat \<times> mat \<Rightarrow> error + mat \<times> mat" where
  "predict_body m x t ys =
     (case ys of (y, s) \<Rightarrow>
      and_then (py_get x t) (\<lambda>xt.
      and_then (make_onehot xt (vocab_size m)) (\<lambda>one_hot_x.
      and_then (matvec (V m) one_hot_x) (\<lambda>vx.
      and_then (py_get s (t - 1)) (\<lambda>s_prev.
      and_then (matvec (U m) s_prev) (\<lambda>us.
      and_then (vec_add vx us) (\<lambda>net_in.
      and_then (set_row s t (sigmoid net_in)) (\<lambda>s'.
      and_then (py_get s' t) (\<lambda>st.
      and_then (matvec (W m) st) (\<lambda>net_out.
      and_then (set_row y t (softmax net_out)) (\<lambda>y'.
      Inr (y', s'))))))))))))"

definition predict :: "rnn \<Rightarrow> int list \<Rightarrow> error + mat \<times> mat" where
  "predict m x =
     for_loop (py_range (int (length x))) (predict_body m x)
       (zeros2 (length x) (out_vocab_size m), zeros2 (length x + 1) (hidden_dims m))"

subsection \<open>acc\_deltas\<close>

text \<open>The body of \<open>for t in reversed(range(len(x)))\<close>; the loop state is \<open>self\<close>.\<close>

definition acc_deltas_body ::
  "int list \<Rightarrow> int list \<Rightarrow> mat \<Rightarrow> mat \<Rightarrow> int \<Rightarrow> rnn \<Rightarrow> error + rnn" where
  "acc_deltas_body x d y s t m =
     and_then (py_get d t) (\<lambda>dt.
     and_then (make_onehot dt (out_vocab_size m)) (\<lambda>one_hot_dt.
     and_then (py_get y t) (\<lambda>yt.
     and_then (vec_sub one_hot_dt yt) (\<lambda>delta_out.
     and_then (py_get s t) (\<lambda>st.
     and_then (mat_add (deltaW m) (outer delta_out st)) (\<lambda>dW.
     and_then (dot_transpose (hidden_dims m) (W m) delta_out) (\<lambda>wd.
     and_then (vec_mul wd (grad st)) (\<lambda>delta_in.
     and_then (py_get x t) (\<lambda>xt.
     and_then (make_onehot xt (vocab_size m)) (\<lambda>one_hot_xt.
     and_then (mat_add (deltaV m) (outer delta_in one_hot_xt)) (\<lambda>dV.
     and_then (py_get s (t - 1)) (\<lambda>s_prev.
     and_then (mat_add (deltaU m) (outer delta_in s_prev)) (\<lambda>dU.
     Inr (m\<lparr>deltaW := dW, deltaV := dV, deltaU := dU\<rparr>))))))))))))))"

definition acc_deltas :: "rnn \<Rightarrow> int list \<Rightarrow> int list \<Rightarrow> mat \<Rightarrow> mat \<Rightarrow> error + rnn" where
  "acc_deltas m x d y s = for_loop (rev (py_range (int (length x)))) (acc_deltas_body x d y s) m"

subsection \<open>acc\_deltas\_np\<close>

definition acc_deltas_np :: "rnn \<Rightarrow> int list \<Rightarrow> int list \<Rightarrow> mat \<Rightarrow> mat \<Rightarrow> error + rnn" where
  "acc_deltas_np m x d y s =
     (let t = int (length x) - 1 in
      and_then (py_get d 0) (\<lambda>d0.
      and_then (make_onehot d0 (out_vocab_size m)) (\<lambda>one_hot_dt.
      and_then (py_get y t) (\<lambda>yt.
      and_then (vec_sub one_hot_dt yt) (\<lambda>delta_out.
      and_then (py_get s t) (\<lambda>st.
      and_then (dot_transpose (hidden_dims m) (W m) delta_out) (\<lambda>wd.
      and_then (vec_mul wd (grad st)) (\<lambda>delta_in.
      and_then (py_get x t) (\<lambda>xt.
      and_then (make_onehot xt (vocab_size m)) (\<lambda>one_hot_xt.
      and_then (py_get s (t - 1)) (\<lambda>s_prev.
      Inr (m\<lparr>deltaW := outer delta_out st,
              deltaV := outer delta_in one_hot_xt,
              deltaU := outer delta_in s_prev\<rparr>))))))))))))"

subsection \<open>The unrolling loop of the two BPTT methods\<close>

text \<open>
  The body of \<open>for t_ in range(steps+1)\<close> in \<open>acc_deltas_bptt\<close> and of
  \<open>for t_ in range(min(steps+1, t))\<close> in \<open>acc_deltas_bptt_np\<close>: the two methods repeat
  the same statements. The loop state is \<open>self\<close> together with
  the local \<open>delta_in\<close>, which only the \<open>else\<close> branch reassigns. The loop variable
  \<open>t_\<close> is written \<open>t'\<close>.
\<close>

definition bptt_body ::
  "int list \<Rightarrow> mat \<Rightarrow> int \<Rightarrow> int \<Rightarrow> rnn \<times> vec \<Rightarrow> error + rnn \<times> vec" where
  "bptt_body x s t t' st =
     (case st of (m, delta_in) \<Rightarrow>
      and_then (py_get x (t - t')) (\<lambda>xt.
      and_then (make_onehot xt (vocab_size m)) (\<lambda>one_hot_xt.
      and_then (dot_transpose (hidden_dims m) (U m) delta_in) (\<lambda>ud.
      and_then (py_get s (t - t')) (\<lambda>s_cur.
      and_then (vec_mul ud (grad s_cur)) (\<lambda>delta_in_T.
      if t' = 0 then
        and_then (mat_add (deltaV m) (outer delta_in one_hot_xt)) (\<lambda>dV.
        and_then (py_get s (t - 1)) (\<lambda>s_prev.
        and_then (mat_add (deltaU m) (outer delta_in s_prev)) (\<lambda>dU.
        Inr (m\<lparr>deltaV := dV, deltaU := dU\<rparr>, delta_in))))
      else
        and_then (mat_add (deltaV m) (outer delta_in_T one_hot_xt)) (\<lambda>dV.
        and_then (py_get s (t - t' - 1)) (\<lambda>s_prev.
        and_then (mat_add (deltaU m) (outer delta_in_T s_prev)) (\<lambda>dU.
        Inr (m\<lparr>deltaV := dV, deltaU := dU\<rparr>, delta_in_T))))))))))"

subsection \<open>acc\_deltas\_bptt\<close>

text \<open>
  The body of \<open>for t in reversed(range(len(x)))\<close>. The inner loop runs over
  \<open>range(steps+1)\<close> at every \<open>t\<close>; \<open>delta_in\<close> is local to one outer iteration.
\<close>

definition acc_deltas_bptt_body ::
  "int list \<Rightarrow> int list \<Rightarrow> mat \<Rightarrow> mat \<Rightarrow> int \<Rightarrow> int \<Rightarrow> rnn \<Rightarrow> error + rnn" where
  "acc_deltas_bptt_body x d y s steps t m =
     and_then (py_get d t) (\<lambda>dt.
     and_then (make_onehot dt (out_vocab_size m)) (\<lambda>one_hot_dt.
     and_then (py_get y t) (\<lambda>yt.
     and_then (vec_sub one_hot_dt yt) (\<lambda>delta_out.
     and_then (py_get s t) (\<lambda>st.
     and_then (mat_add (deltaW m) (outer delta_out st)) (\<lambda>dW.
     and_then (dot_transpose (hidden_dims m) (W m) delta_out) (\<lambda>wd.
     and_then (vec_mul wd (grad st)) (\<lambda>delta_in.
     and_then (for_loop (py_range (steps + 1)) (bptt_body x s t)
                 (m\<lparr>deltaW := dW\<rparr>, delta_in)) (\<lambda>r.
     Inr (fst r))))))))))"

definition acc_deltas_bptt ::
  "rnn \<Rightarrow> int list \<Rightarrow> int list \<Rightarrow> mat \<Rightarrow> mat \<Rightarrow> int \<Rightarrow> error + rnn" where
  "acc_deltas_bptt m x d y s steps =
     for_loop (rev (py_range (int (length x)))) (acc_deltas_bptt_body x d y s steps) m"

subsection \<open>acc\_deltas\_bptt\_np\<close>

text \<open>The values of \<open>t_\<close> that the loop header of \<open>acc_deltas_bptt_np\<close> produces.\<close>

definition bptt_np_range :: "int list \<Rightarrow> int \<Rightarrow> int list" where
  "bptt_np_range x steps = py_range (min (steps + 1) (int (length x) - 1))"

definition acc_deltas_bptt_np ::
  "rnn \<Rightarrow> int list \<Rightarrow> int list \<Rightarrow> mat \<Rightarrow> mat \<Rightarrow> int \<Rightarrow> error + rnn" where
  "acc_deltas_bptt_np m x d y s steps =
     (let t = int (length x) - 1 in
      and_then (py_get d 0) (\<lambda>d0.
      and_then (make_onehot d0 (out_vocab_size m)) (\<lambda>one_hot_dt.
      and_then (py_get y t) (\<lambda>yt.
      and_then (vec_sub one_hot_dt yt) (\<lambda>delta_out.
      and_then (py_get s t) (\<lambda>st.
      and_then (dot_transpose (hidden_dims m) (W m) delta_out) (\<lambda>wd.
      and_then (vec_mul wd (grad st)) (\<lambda>delta_in.
      and_then (for_loop (bptt_np_range x steps) (bptt_body x s t)
                  (m\<lparr>deltaW := outer delta_out st\<rparr>, delta_in)) (\<lambda>r.
      Inr (fst r))))))))))"

section \<open>Standard backpropagation in the words of the specification\<close>

text \<open>
  Section 4.3 of the specification, without the exceptions. At timestep \<open>t\<close> the
  output-layer error is \<open>one-hot(desired[t]) - outputTrace[t]\<close>; the hidden-layer error
  is that error sent back through the hidden-to-output weights (the transpose of \<open>W\<close>)
  and multiplied by the sigmoid gradient at \<open>hiddenTrace[t]\<close>; \<open>hidden_before s t\<close> is
  \<open>hiddenTrace[t-1]\<close>, which at \<open>t = 0\<close> is the last row of the trace. The three gains
  of a timestep are the outer products that the accumulators receive, and
  \<open>acc_deltas_spec\<close> adds the gains of \<open>t = len(x)-1\<close> down to \<open>0\<close> to each accumulator.
\<close>

definition one_hot :: "int \<Rightarrow> nat \<Rightarrow> vec" where
  "one_hot i n = (zeros n)[nat i := 1]"

definition output_error :: "rnn \<Rightarrow> int list \<Rightarrow> mat \<Rightarrow> nat \<Rightarrow> vec" where
  "output_error m d y t = map2 (-) (one_hot (d ! t) (out_vocab_size m)) (y ! t)"

definition transpose_times :: "nat \<Rightarrow> mat \<Rightarrow> vec \<Rightarrow> vec" where
  "transpose_times c M v = map (\<lambda>j. sum_list (map2 (\<lambda>row vi. row ! j * vi) M v)) [0 ..< c]"

definition hidden_error :: "rnn \<Rightarrow> int list \<Rightarrow> mat \<Rightarrow> mat \<Rightarrow> nat \<Rightarrow> vec" where
  "hidden_error m d y s t =
     map2 (*) (transpose_times (hidden_dims m) (W m) (output_error m d y t)) (grad (s ! t))"

definition hidden_before :: "mat \<Rightarrow> nat \<Rightarrow> vec" where
  "hidden_before s t = (if t = 0 then s ! (length s - 1) else s ! (t - 1))"

definition mat_plus :: "mat \<Rightarrow> mat \<Rightarrow> mat" where
  "mat_plus A B = map2 (map2 (+)) A B"

definition gainW :: "rnn \<Rightarrow> int list \<Rightarrow> mat \<Rightarrow> mat \<Rightarrow> nat \<Rightarrow> mat" where
  "gainW m d y s t = outer (output_error m d y t) (s ! t)"

definition gainV :: "rnn \<Rightarrow> int list \<Rightarrow> int list \<Rightarrow> mat \<Rightarrow> mat \<Rightarrow> nat \<Rightarrow> mat" where
  "gainV m x d y s t = outer (hidden_error m d y s t) (one_hot (x ! t) (vocab_size m))"

definition gainU :: "rnn \<Rightarrow> int list \<Rightarrow> mat \<Rightarrow> mat \<Rightarrow> nat \<Rightarrow> mat" where
  "gainU m d y s t = outer (hidden_error m d y s t) (hidden_before s t)"

definition acc_deltas_spec :: "rnn \<Rightarrow> int list \<Rightarrow> int list \<Rightarrow> mat \<Rightarrow> mat \<Rightarrow> rnn" where
  "acc_deltas_spec m x d y s =
     m\<lparr>deltaW := foldl mat_plus (deltaW m) (map (gainW m d y s) (rev [0 ..< length x])),
       deltaV := foldl mat_plus (deltaV m) (map (gainV m x d y s) (rev [0 ..< length x])),
       deltaU := foldl mat_plus (deltaU m) (map (gainU m d y s) (rev [0 ..< length x]))\<rparr>"

section \<open>Truncated backpropagation for one label in the words of the specification\<close>

text \<open>
  Sections 4.4 and 4.5 of the specification, without the exceptions. The single-label
  method works at the final timestep \<open>t = len(x)-1\<close> with the one desired label
  \<open>d[0]\<close>. \<open>bptt_np_error m x d y s k\<close> is the hidden-layer error after \<open>k\<close> steps of
  unrolling: at \<open>k = 0\<close> the output error \<open>one-hot(d[0]) - outputTrace[t]\<close> sent back
  through the transpose of \<open>W\<close> and multiplied by the sigmoid gradient at
  \<open>hiddenTrace[t]\<close>; one step further, the previous error sent back through the
  transpose of \<open>U\<close> and multiplied by the sigmoid gradient at the hidden state one
  position earlier. Unrolled step \<open>k\<close> adds to the input-to-hidden accumulator the outer
  product of that error with the one-hot vector of the token \<open>x[t-k]\<close>, and to the
  hidden-to-hidden accumulator its outer product with \<open>hiddenTrace[t-k-1]\<close>.
  \<open>bptt_np_depth\<close> is the number of unrolled steps, \<open>min(steps+1, t)\<close> where that is
  not negative and 0 otherwise.
\<close>

fun bptt_np_error :: "rnn \<Rightarrow> int list \<Rightarrow> int list \<Rightarrow> mat \<Rightarrow> mat \<Rightarrow> nat \<Rightarrow> vec" where
  "bptt_np_error m x d y s 0 =
     map2 (*) (transpose_times (hidden_dims m) (W m)
                 (map2 (-) (one_hot (d ! 0) (out_vocab_size m)) (y ! (length x - 1))))
              (grad (s ! (length x - 1)))"
| "bptt_np_error m x d y s (Suc k) =
     map2 (*) (transpose_times (hidden_dims m) (U m) (bptt_np_error m x d y s k))
              (grad (s ! (length x - 1 - Suc k)))"

definition bptt_np_gainV :: "rnn \<Rightarrow> int list \<Rightarrow> int list \<Rightarrow> mat \<Rightarrow> mat \<Rightarrow> nat \<Rightarrow> mat" where
  "bptt_np_gainV m x d y s k =
     outer (bptt_np_error m x d y s k) (one_hot (x ! (length x - 1 - k)) (vocab_size m))"

definition bptt_np_gainU :: "rnn \<Rightarrow> int list \<Rightarrow> int list \<Rightarrow> mat \<Rightarrow> mat \<Rightarrow> nat \<Rightarrow> mat" where
  "bptt_np_gainU m x d y s k =
     outer (bptt_np_error m x d y s k) (s ! (length x - 1 - k - 1))"

definition bptt_np_depth :: "int list \<Rightarrow> int \<Rightarrow> nat" where
  "bptt_np_depth x steps = nat (min (steps + 1) (int (length x) - 1))"

section \<open>Well-formed networks\<close>

text \<open>
  The shapes that \<open>__init__\<close> gives to the matrices of a network built from three
  positive sizes, and the loop invariant of \<open>predict\<close>.
\<close>

definition is_mat :: "nat \<Rightarrow> nat \<Rightarrow> mat \<Rightarrow> bool" where
  "is_mat r c A \<longleftrightarrow> length A = r \<and> list_all (\<lambda>row. length row = c) A"

definition well_formed :: "rnn \<Rightarrow> bool" where
  "well_formed m \<longleftrightarrow>
     0 < vocab_size m \<and> 0 < hidden_dims m \<and> 0 < out_vocab_size m \<and>
     is_mat (hidden_dims m) (hidden_dims m) (U m) \<and>
     is_mat (hidden_dims m) (vocab_size m) (V m) \<and>
     is_mat (out_vocab_size m) (hidden_dims m) (W m) \<and>
     is_mat (hidden_dims m) (hidden_dims m) (deltaU m) \<and>
     is_mat (hidden_dims m) (vocab_size m) (deltaV m) \<and>
     is_mat (out_vocab_size m) (hidden_dims m) (deltaW m)"

definition is_distribution :: "vec \<Rightarrow> bool" where
  "is_distribution v \<longleftrightarrow> list_all (\<lambda>p. 0 \<le> p) v \<and> sum_list v = 1"

definition predict_inv :: "rnn \<Rightarrow> nat \<Rightarrow> nat \<Rightarrow> mat \<times> mat \<Rightarrow> bool" where
  "predict_inv m n k ys \<longleftrightarrow>
     (case ys of (y, s) \<Rightarrow>
        is_mat n (out_vocab_size m) y \<and> is_mat (n + 1) (hidden_dims m) s \<and>
        s ! n = zeros (hidden_dims m) \<and> (\<forall>t<k. is_distribution (y ! t)))"

section \<open>The training loop (runner.py)\<close>

text \<open>
  A \<open>Runner\<close> holds a \<open>Model\<close>, which is an \<open>RNN\<close> or a \<open>GRU\<close>, and reaches it through its
  methods only. The methods that a cell defines are the fields of \<open>model_ops\<close>; \<open>rnn_ops\<close>
  below fills them with the methods of rnn.py. The methods that the cells inherit from the
  base class \<open>Model\<close> (module \<open>model\<close>, not among the sources) are the fields of
  \<open>base_ops\<close> and stay parameters. \<open>predict\<close> returns the two traces and leaves the model
  as it is.
\<close>

record 'm model_ops =
  m_vocab_size :: "'m \<Rightarrow> nat"
  m_predict :: "'m \<Rightarrow> int list \<Rightarrow> error + mat \<times> mat"
  m_acc_deltas :: "'m \<Rightarrow> int list \<Rightarrow> int list \<Rightarrow> mat \<Rightarrow> mat \<Rightarrow> error + 'm"
  m_acc_deltas_np :: "'m \<Rightarrow> int list \<Rightarrow> int list \<Rightarrow> mat \<Rightarrow> mat \<Rightarrow> error + 'm"
  m_acc_deltas_bptt :: "'m \<Rightarrow> int list \<Rightarrow> int list \<Rightarrow> mat \<Rightarrow> mat \<Rightarrow> int \<Rightarrow> error + 'm"
  m_acc_deltas_bptt_np :: "'m \<Rightarrow> int list \<Rightarrow> int list \<Rightarrow> mat \<Rightarrow> mat \<Rightarrow> int \<Rightarrow> error + 'm"

record 'm base_ops =
  b_scale_gradients_for_batch :: "'m \<Rightarrow> int \<Rightarrow> error + 'm"
  b_apply_deltas :: "'m \<Rightarrow> real \<Rightarrow> error + 'm"
  b_save_params :: "'m \<Rightarrow> error + 'm"
  b_set_best_params :: "'m \<Rightarrow> error + 'm"

definition rnn_ops :: "rnn model_ops" where
  "rnn_ops = \<lparr>m_vocab_size = vocab_size, m_predict = predict,
     m_acc_deltas = acc_deltas, m_acc_deltas_np = acc_deltas_np,
     m_acc_deltas_bptt = acc_deltas_bptt, m_acc_deltas_bptt_np = acc_deltas_bptt_np\<rparr>"

subsection \<open>compute\_loss, compute\_loss\_np, compute\_acc\_np\<close>

text \<open>The body of \<open>for t in range(len(x))\<close> in \<open>compute_loss\<close>; the loop state is \<open>loss\<close>.\<close>

definition compute_loss_body ::
  "'m model_ops \<Rightarrow> 'm \<Rightarrow> int list \<Rightarrow> mat \<Rightarrow> int \<Rightarrow> real \<Rightarrow> error + real" where
  "compute_loss_body ops m d y t loss =
     and_then (py_get d t) (\<lambda>dt.
     and_then (make_onehot dt (m_vocab_size ops m)) (\<lambda>y_true.
     and_then (py_get y t) (\<lambda>yt.
     and_then (dot y_true (map ln yt)) (\<lambda>p.
     Inr (loss - p)))))"

definition compute_loss :: "'m model_ops \<Rightarrow> 'm \<Rightarrow> int list \<Rightarrow> int list \<Rightarrow> error + real" where
  "compute_loss ops m x d =
     and_then (m_predict ops m x) (\<lambda>ys.
     for_loop (py_range (int (length x))) (compute_loss_body ops m d (fst ys)) 0)"

definition compute_loss_np :: "'m model_ops \<Rightarrow> 'm \<Rightarrow> int list \<Rightarrow> int list \<Rightarrow> error + real" where
  "compute_loss_np ops m x d =
     and_then (m_predict ops m x) (\<lambda>ys.
     and_then (py_get (fst ys) (int (length x) - 1)) (\<lambda>yt.
     and_then (py_get d 0) (\<lambda>d0.
     and_then (make_onehot d0 (m_vocab_size ops m)) (\<lambda>one_hot_dt.
     and_then (dot one_hot_dt (map ln yt)) (\<lambda>p.
     Inr (0 - p))))))"

text \<open>\<open>np.argmax\<close>: the first position of the largest entry; it raises on an empty vector.\<close>

fun argmax_from :: "nat \<Rightarrow> real \<Rightarrow> nat \<Rightarrow> vec \<Rightarrow> nat" where
  "argmax_from best bv i [] = best"
| "argmax_from best bv i (a # as) =
     (if bv < a then argmax_from i a (Suc i) as else argmax_from best bv (Suc i) as)"

definition argmax :: "vec \<Rightarrow> error + nat" where
  "argmax v = (case v of [] \<Rightarrow> Inl ValueError | a # as \<Rightarrow> Inr (argmax_from 0 a 1 as))"

definition compute_acc_np :: "'m model_ops \<Rightarrow> 'm \<Rightarrow> int list \<Rightarrow> int list \<Rightarrow> error + int" where
  "compute_acc_np ops m x d =
     and_then (m_predict ops m x) (\<lambda>ys.
     and_then (py_get (fst ys) (int (length x) - 1)) (\<lambda>yt.
     and_then (argmax yt) (\<lambda>a.
     and_then (py_get d 0) (\<lambda>d0.
     Inr (if int a = d0 then 1 else 0)))))"

subsection \<open>train and train\_np\<close>

text \<open>
  The locals of \<open>train\<close> that live across epochs. \<open>best_acc\<close> exists in \<open>train_np\<close> only
  and is \<open>None\<close> until its first assignment. \<open>history\<close> has one entry
  \<open>(epoch, learning_rate, loss)\<close> for each epoch that ran to its end: the values that the
  source writes to stdout for that epoch (\<open>epoch %d, learning rate %.04f\<close> and
  \<open>new loss: {0}\<close>); the other output of \<open>train\<close> is not modelled.
\<close>

record 'm train_state =
  model :: 'm
  prev_loss :: real
  min_change_count :: int
  best_loss :: real
  best_epoch :: int
  best_acc :: "real option"
  history :: "(int \<times> real \<times> real) list"

text \<open>A \<open>for\<close> loop whose body may \<open>break\<close>: the body returns \<open>True\<close> with the state to leave.\<close>

fun for_loop_break ::
  "'i list \<Rightarrow> ('i \<Rightarrow> 'st \<Rightarrow> error + bool \<times> 'st) \<Rightarrow> 'st \<Rightarrow> error + 'st" where
  "for_loop_break [] body st = Inr st"
| "for_loop_break (i # is) body st =
     (case body i st of
        Inl e \<Rightarrow> Inl e
      | Inr (brk, st') \<Rightarrow> if brk then Inr st' else for_loop_break is body st')"

text \<open>
  The division \<open>a / b\<close> of the loss and accuracy averages. Python raises on a zero divisor;
  a numpy float divided by zero is \<open>inf\<close> or \<open>nan\<close> with a warning, which the reals do not
  have: the model raises for every zero divisor.
\<close>

definition py_div :: "real \<Rightarrow> real \<Rightarrow> error + real" where
  "py_div a b = (if b = 0 then Inl ZeroDivisionError else Inr (a / b))"

text \<open>\<open>sum([f(X_dev[i], D_dev[i]) for i in range(len(X_dev))])\<close>.\<close>

definition sum_over_dev ::
  "(int list \<Rightarrow> int list \<Rightarrow> error + real) \<Rightarrow> int list list \<Rightarrow> int list list \<Rightarrow> error + real" where
  "sum_over_dev f X_dev D_dev =
     for_loop (py_range (int (length X_dev)))
       (\<lambda>i total.
          and_then (py_get X_dev i) (\<lambda>x.
          and_then (py_get D_dev i) (\<lambda>d.
          and_then (f x d) (\<lambda>l. Inr (total + l))))) 0"

text \<open>Lines 187 to 191 of \<open>train\<close> and lines 327 to 331 of \<open>train_np\<close>.\<close>

definition train_instance ::
  "'m model_ops \<Rightarrow> 'm \<Rightarrow> int list \<Rightarrow> int list \<Rightarrow> int \<Rightarrow> error + 'm" where
  "train_instance ops m x_p d_p back_steps =
     and_then (m_predict ops m x_p) (\<lambda>ys.
     if back_steps = 0 then m_acc_deltas ops m x_p d_p (fst ys) (snd ys)
     else m_acc_deltas_bptt ops m x_p d_p (fst ys) (snd ys) back_steps)"

definition train_np_instance ::
  "'m model_ops \<Rightarrow> 'm \<Rightarrow> int list \<Rightarrow> int list \<Rightarrow> int \<Rightarrow> error + 'm" where
  "train_np_instance ops m x_p d_p back_steps =
     and_then (m_predict ops m x_p) (\<lambda>ys.
     if back_steps = 0 then m_acc_deltas_np ops m x_p d_p (fst ys) (snd ys)
     else m_acc_deltas_bptt_np ops m x_p d_p (fst ys) (snd ys) back_steps)"

text \<open>
  One pass over the training set: the loop \<open>for i in range(len(X))\<close> and the update for the
  last, incomplete batch. \<open>permutation\<close> is the value of \<open>np.random.permutation\<close> for
  this epoch; \<open>inst\<close> is \<open>train_instance\<close> or \<open>train_np_instance\<close>.
\<close>

definition train_pass ::
  "('m \<Rightarrow> int list \<Rightarrow> int list \<Rightarrow> int \<Rightarrow> error + 'm) \<Rightarrow> 'm base_ops \<Rightarrow> int list \<Rightarrow>
   int list list \<Rightarrow> int list list \<Rightarrow> real \<Rightarrow> int \<Rightarrow> int \<Rightarrow> 'm \<Rightarrow> error + 'm" where
  "train_pass inst base permutation X D learning_rate back_steps batch_size m =
     and_then
       (for_loop (py_range (int (length X)))
          (\<lambda>i m.
             and_then (py_get permutation i) (\<lambda>p.
             and_then (py_get X p) (\<lambda>x_p.
             and_then (py_get D p) (\<lambda>d_p.
             and_then (inst m x_p d_p back_steps) (\<lambda>m1.
             if batch_size = 0 then Inl ZeroDivisionError
             else if i mod batch_size = 0 then
               and_then (b_scale_gradients_for_batch base m1 batch_size) (\<lambda>m2.
               b_apply_deltas base m2 learning_rate)
             else Inr m1))))) m)
       (\<lambda>m'.
          if batch_size = 0 then Inl ZeroDivisionError
          else if int (length X) mod batch_size > 0 then
            and_then (b_scale_gradients_for_batch base m' (int (length X) mod batch_size)) (\<lambda>m2.
            b_apply_deltas base m2 learning_rate)
          else Inr m')"

text \<open>The learning rate of an epoch (lines 161 to 164 and 301 to 304).\<close>

definition epoch_learning_rate :: "real \<Rightarrow> real \<Rightarrow> int \<Rightarrow> real" where
  "epoch_learning_rate a0 anneal epoch =
     (if anneal > 0 then a0 / ((real_of_int epoch + 0 + anneal) / anneal) else a0)"

text \<open>The update of \<open>min_change_count\<close> (lines 215 to 218 and 358 to 361).\<close>

definition watch_min_change :: "real \<Rightarrow> real \<Rightarrow> real \<Rightarrow> int \<Rightarrow> int" where
  "watch_min_change prev loss min_change count =
     (if \<bar>prev - loss\<bar> < min_change then count + 1 else 0)"

text \<open>The body of \<open>for epoch in range(epochs)\<close> in \<open>train\<close>.\<close>

definition train_epoch ::
  "'m model_ops \<Rightarrow> 'm base_ops \<Rightarrow> (int \<Rightarrow> int list) \<Rightarrow> int list list \<Rightarrow> int list list \<Rightarrow>
   int list list \<Rightarrow> int list list \<Rightarrow> real \<Rightarrow> real \<Rightarrow> real \<Rightarrow> int \<Rightarrow> int \<Rightarrow> real \<Rightarrow>
   int \<Rightarrow> 'm train_state \<Rightarrow> error + bool \<times> 'm train_state" where
  "train_epoch ops base perm X D X_dev D_dev loss_sum a0 anneal back_steps batch_size
     min_change epoch st =
     (let learning_rate = epoch_learning_rate a0 anneal epoch in
      and_then (train_pass (train_instance ops) base (perm epoch) X D learning_rate
                  back_steps batch_size (model st)) (\<lambda>m1.
      and_then (sum_over_dev (compute_loss ops m1) X_dev D_dev) (\<lambda>total.
      and_then (py_div total loss_sum) (\<lambda>loss.
      and_then (if loss < best_loss st
                then and_then (b_save_params base m1) (\<lambda>m2.
                       Inr (st\<lparr>model := m2, best_loss := loss, best_epoch := epoch\<rparr>))
                else Inr (st\<lparr>model := m1\<rparr>)) (\<lambda>st1.
      let st2 = st1\<lparr>min_change_count :=
                       watch_min_change (prev_loss st) loss min_change (min_change_count st),
                    history := history st @ [(epoch, learning_rate, loss)]\<rparr>
      in if min_change_count st2 > 2 then Inr (True, st2)
         else Inr (False, st2\<lparr>prev_loss := loss\<rparr>))))))"

text \<open>
  \<open>train\<close>. \<open>perm epoch\<close> is the permutation drawn in that epoch. The result is the
  returned \<open>best_loss\<close> with the final locals, the model after \<open>set_best_params\<close>.
\<close>

definition train ::
  "'m model_ops \<Rightarrow> 'm base_ops \<Rightarrow> (int \<Rightarrow> int list) \<Rightarrow> 'm \<Rightarrow> int list list \<Rightarrow> int list list \<Rightarrow>
   int list list \<Rightarrow> int list list \<Rightarrow> int \<Rightarrow> real \<Rightarrow> real \<Rightarrow> int \<Rightarrow> int \<Rightarrow> real \<Rightarrow>
   error + real \<times> 'm train_state" where
  "train ops base perm m X D X_dev D_dev epochs learning_rate anneal back_steps batch_size
     min_change =
     (let loss_sum = real (sum_list (map length D_dev)) in
      and_then (sum_over_dev (compute_loss ops m) X_dev D_dev) (\<lambda>total.
      and_then (py_div total loss_sum) (\<lambda>initial_loss.
      and_then (b_save_params base m) (\<lambda>m0.
      and_then (for_loop_break (py_range epochs)
                  (train_epoch ops base perm X D X_dev D_dev loss_sum learning_rate anneal
                     back_steps batch_size min_change)
                  \<lparr>model = m0, prev_loss = initial_loss, min_change_count = - 1,
                   best_loss = initial_loss, best_epoch = 0, best_acc = None,
                   history = []\<rparr>) (\<lambda>st.
      and_then (b_set_best_params base (model st)) (\<lambda>m'.
      Inr (best_loss st, st\<lparr>model := m'\<rparr>)))))))"

text \<open>The body of \<open>for epoch in range(epochs)\<close> in \<open>train_np\<close>.\<close>

definition train_np_epoch ::
  "'m model_ops \<Rightarrow> 'm base_ops \<Rightarrow> (int \<Rightarrow> int list) \<Rightarrow> int list list \<Rightarrow> int list list \<Rightarrow>
   int list list \<Rightarrow> int list list \<Rightarrow> real \<Rightarrow> real \<Rightarrow> real \<Rightarrow> int \<Rightarrow> int \<Rightarrow> real \<Rightarrow>
   int \<Rightarrow> 'm train_state \<Rightarrow> error + bool \<times> 'm train_state" where
  "train_np_epoch ops base perm X D X_dev D_dev loss_sum a0 anneal back_steps batch_size
     min_change epoch st =
     (let learning_rate = epoch_learning_rate a0 anneal epoch in
      and_then (train_pass (train_np_instance ops) base (perm epoch) X D learning_rate
                  back_steps batch_size (model st)) (\<lambda>m1.
      and_then (sum_over_dev (compute_loss_np ops m1) X_dev D_dev) (\<lambda>total.
      and_then (py_div total loss_sum) (\<lambda>loss.
      and_then (sum_over_dev (\<lambda>x d. and_then (compute_acc_np ops m1 x d)
                                        (\<lambda>a. Inr (real_of_int a))) X_dev D_dev) (\<lambda>hits.
      and_then (py_div hits (real (length X_dev))) (\<lambda>acc.
      and_then (if loss < best_loss st
                then and_then (b_save_params base m1) (\<lambda>m2.
                       Inr (st\<lparr>model := m2, best_loss := loss, best_acc := Some acc,
                               best_epoch := epoch\<rparr>))
                else Inr (st\<lparr>model := m1\<rparr>)) (\<lambda>st1.
      let st2 = st1\<lparr>min_change_count :=
                       watch_min_change (prev_loss st) loss min_change (min_change_count st),
                    history := history st @ [(epoch, learning_rate, loss)]\<rparr>
      in if min_change_count st2 > 2 then Inr (True, st2)
         else Inr (False, st2\<lparr>prev_loss := loss\<rparr>))))))))"

text \<open>
  \<open>train_np\<close>. After the loop it prints \<open>best_acc\<close>, which no epoch has assigned when the
  loss never fell below the initial loss.
\<close>

definition train_np ::
  "'m model_ops \<Rightarrow> 'm base_ops \<Rightarrow> (int \<Rightarrow> int list) \<Rightarrow> 'm \<Rightarrow> int list list \<Rightarrow> int list list \<Rightarrow>
   int list list \<Rightarrow> int list list \<Rightarrow> int \<Rightarrow> real \<Rightarrow> real \<Rightarrow> int \<Rightarrow> int \<Rightarrow> real \<Rightarrow>
   error + real \<times> 'm train_state" where
  "train_np ops base perm m X D X_dev D_dev epochs learning_rate anneal back_steps batch_size
     min_change =
     (let loss_sum = real (length D_dev) in
      and_then (sum_over_dev (compute_loss_np ops m) X_dev D_dev) (\<lambda>total.
      and_then (py_div total loss_sum) (\<lambda>initial_loss.
      and_then (sum_over_dev (\<lambda>x d. and_then (compute_acc_np ops m x d)
                                        (\<lambda>a. Inr (real_of_int a))) X_dev D_dev) (\<lambda>hits.
      and_then (py_div hits (real (length X_dev))) (\<lambda>initial_acc.
      and_then (b_save_params base m) (\<lambda>m0.
      and_then (for_loop_break (py_range epochs)
                  (train_np_epoch ops base perm X D X_dev D_dev loss_sum learning_rate anneal
                     back_steps batch_size min_change)
                  \<lparr>model = m0, prev_loss = initial_loss, min_change_count = - 1,
                   best_loss = initial_loss, best_epoch = 0, best_acc = None,
                   history = []\<rparr>) (\<lambda>st.
      if best_acc st = None then Inl UnboundLocalError
      else and_then (b_set_best_params base (model st)) (\<lambda>m'.
           Inr (best_loss st, st\<lparr>model := m'\<rparr>)))))))))"

subsection \<open>The learning rates that reach apply\_deltas\<close>

text \<open>
  The runner reaches its model through the methods only, so \<open>train\<close> and \<open>train_np\<close>
  run on a model of any type. \<open>recording_ops ops\<close> and \<open>recording_base base\<close> are the
  methods of a model that pairs a model of \<open>ops\<close> and \<open>base\<close> with the list of the
  learning rates it has been updated with: every method does on the first component
  what the method of \<open>ops\<close> or \<open>base\<close> does and leaves the list as it is, except
  \<open>apply_deltas\<close>, which also appends its argument \<open>learning_rate\<close> to the list.
  \<open>pass_updates n batch_size\<close> is the number of calls of \<open>apply_deltas\<close> in one pass
  over \<open>n\<close> training instances: one for each \<open>i\<close> in \<open>range(n)\<close> with
  \<open>i % batch_size == 0\<close>, and one more when \<open>n % batch_size > 0\<close>. \<open>with_log rates st\<close>
  is the locals \<open>st\<close> of \<open>train\<close> with the list \<open>rates\<close> paired to the model, and
  \<open>applied_rates u h\<close> repeats the learning rate of each entry of the history \<open>h\<close>
  \<open>u\<close> times.
\<close>

definition recording_ops :: "'m model_ops \<Rightarrow> ('m \<times> real list) model_ops" where
  "recording_ops ops =
     \<lparr>m_vocab_size = (\<lambda>ml. m_vocab_size ops (fst ml)),
      m_predict = (\<lambda>ml. m_predict ops (fst ml)),
      m_acc_deltas = (\<lambda>ml x d y s.
        and_then (m_acc_deltas ops (fst ml) x d y s) (\<lambda>m'. Inr (m', snd ml))),
      m_acc_deltas_np = (\<lambda>ml x d y s.
        and_then (m_acc_deltas_np ops (fst ml) x d y s) (\<lambda>m'. Inr (m', snd ml))),
      m_acc_deltas_bptt = (\<lambda>ml x d y s steps.
        and_then (m_acc_deltas_bptt ops (fst ml) x d y s steps) (\<lambda>m'. Inr (m', snd ml))),
      m_acc_deltas_bptt_np = (\<lambda>ml x d y s steps.
        and_then (m_acc_deltas_bptt_np ops (fst ml) x d y s steps) (\<lambda>m'. Inr (m', snd ml)))\<rparr>"

definition recording_base :: "'m base_ops \<Rightarrow> ('m \<times> real list) base_ops" where
  "recording_base base =
     \<lparr>b_scale_gradients_for_batch = (\<lambda>ml n.
        and_then (b_scale_gradients_for_batch base (fst ml) n) (\<lambda>m'. Inr (m', snd ml))),
      b_apply_deltas = (\<lambda>ml lr.
        and_then (b_apply_deltas base (fst ml) lr) (\<lambda>m'. Inr (m', snd ml @ [lr]))),
      b_save_params = (\<lambda>ml.
        and_then (b_save_params base (fst ml)) (\<lambda>m'. Inr (m', snd ml))),
      b_set_best_params = (\<lambda>ml.
        and_then (b_set_best_params base (fst ml)) (\<lambda>m'. Inr (m', snd ml)))\<rparr>"

definition pass_updates :: "nat \<Rightarrow> int \<Rightarrow> nat" where
  "pass_updates n batch_size =
     length (filter (\<lambda>i. i mod batch_size = 0) (py_range (int n))) +
     (if int n mod batch_size > 0 then 1 else 0)"

definition with_log :: "real list \<Rightarrow> 'm train_state \<Rightarrow> ('m \<times> real list) train_state" where
  "with_log rates st =
     \<lparr>model = (model st, rates), prev_loss = prev_loss st,
      min_change_count = min_change_count st, best_loss = best_loss st,
      best_epoch = best_epoch st, best_acc = best_acc st, history = history st\<rparr>"

definition applied_rates :: "nat \<Rightarrow> (int \<times> real \<times> real) list \<Rightarrow> real list" where
  "applied_rates u h = concat (map (\<lambda>e. replicate u (fst (snd e))) h)"

subsection \<open>The stopping rule\<close>

text \<open>
  The stopping rule of \<open>train\<close> in the words of its description. \<open>epoch_losses\<close> is the
  dev-set loss of each epoch that ran, in order. The change between consecutive epochs is
  small at epoch \<open>e \<ge> 1\<close> when the losses of epochs \<open>e - 1\<close> and \<open>e\<close> differ by less than
  \<open>min_change\<close>; epoch 0 has no epoch before it. A plateau ends at epoch \<open>e\<close> when the
  change is small at \<open>e - 2\<close>, \<open>e - 1\<close> and \<open>e\<close>: more than 2 consecutive epochs.
  \<open>stops_as_specified\<close>: no more than \<open>epochs\<close> epochs ran, no epoch ran after the end
  of a plateau, and if fewer than \<open>epochs\<close> epochs ran then the last one ends a plateau.
\<close>

definition epoch_losses :: "'m train_state \<Rightarrow> real list" where
  "epoch_losses st = map (\<lambda>h. snd (snd h)) (history st)"

definition small_change :: "real \<Rightarrow> real list \<Rightarrow> nat \<Rightarrow> bool" where
  "small_change min_change ls e \<longleftrightarrow> 1 \<le> e \<and> \<bar>ls ! (e - 1) - ls ! e\<bar> < min_change"

definition plateau :: "real \<Rightarrow> real list \<Rightarrow> nat \<Rightarrow> bool" where
  "plateau min_change ls e \<longleftrightarrow>
     small_change min_change ls e \<and> small_change min_change ls (e - 1) \<and>
     small_change min_change ls (e - 2)"

definition stops_as_specified :: "int \<Rightarrow> real \<Rightarrow> real list \<Rightarrow> bool" where
  "stops_as_specified epochs min_change ls \<longleftrightarrow>
     int (length ls) \<le> max 0 epochs \<and>
     (\<forall>e<length ls. plateau min_change ls e \<longrightarrow> Suc e = length ls) \<and>
     (int (length ls) < epochs \<longrightarrow> 0 < length ls \<and> plateau min_change ls (length ls - 1))"

text \<open>
  The invariant of the epoch loop at the start of an epoch, and what holds when the loop
  leaves through \<open>break\<close>: \<open>min_change_count\<close> is the length of the run of small changes
  that ends at the last epoch, and it is at most 2 while the loop goes on.
\<close>

definition watch_inv :: "real \<Rightarrow> 'm train_state \<Rightarrow> bool" where
  "watch_inv mc st \<longleftrightarrow>
     (let ls = epoch_losses st; k = length ls in
      (k = 0 \<longrightarrow> min_change_count st = - 1) \<and>
      (0 < k \<longrightarrow> prev_loss st = ls ! (k - 1) \<and>
         (\<exists>c\<le>2. c < k \<and> min_change_count st = int c \<and>
            (\<forall>i. k - c \<le> i \<and> i < k \<longrightarrow> small_change mc ls i) \<and>
            (Suc c < k \<longrightarrow> \<not> small_change mc ls (k - 1 - c)))) \<and>
      (\<forall>e<k. \<not> plateau mc ls e))"

definition watch_post :: "real \<Rightarrow> 'm train_state \<Rightarrow> bool" where
  "watch_post mc st \<longleftrightarrow>
     (let ls = epoch_losses st; k = length ls in
      0 < k \<and> plateau mc ls (k - 1) \<and> (\<forall>e<k - 1. \<not> plateau mc ls e))"

section \<open>Example values\<close>

text \<open>
  A small network with two hidden units. Its \<open>V\<close> is zero and its \<open>U\<close> maps the vector
  \<open>[1/2, 1/2]\<close> to zero, so every hidden state that \<open>predict\<close> computes is
  \<open>[1/2, 1/2]\<close> and every output distribution is \<open>[1/2, 1/2]\<close>.
\<close>

definition ex_rnn :: rnn where
  "ex_rnn = \<lparr>vocab_size = 2, hidden_dims = 2, out_vocab_size = 2,
     U = [[1, - 1], [- 1, 1]], V = [[0, 0], [0, 0]], W = [[1, 0], [0, 1]],
     deltaU = [[5, 5], [5, 5]], deltaV = [[7, 7], [7, 7]], deltaW = [[9, 9], [9, 9]]\<rparr>"

text \<open>The same network with a third output class: its two vocabulary sizes differ.\<close>

definition ex_rnn3 :: rnn where
  "ex_rnn3 = ex_rnn\<lparr>out_vocab_size := 3, W := [[1, 0], [0, 1], [0, 0]],
                    deltaW := [[9, 9], [9, 9], [9, 9]]\<rparr>"

text \<open>
  A stub model for running the training loop. Its state counts the weight updates applied
  so far; it predicts the one-entry output \<open>[1/2]\<close> before the first update and \<open>[1]\<close>
  after it, so the loss falls once and then stays at 0.
\<close>

definition stub_ops :: "nat model_ops" where
  "stub_ops = \<lparr>m_vocab_size = (\<lambda>m. 1),
     m_predict = (\<lambda>m x. Inr (replicate (length x) [if m = 0 then 1/2 else 1],
                             replicate (length x + 1) [])),
     m_acc_deltas = (\<lambda>m x d y s. Inr m), m_acc_deltas_np = (\<lambda>m x d y s. Inr m),
     m_acc_deltas_bptt = (\<lambda>m x d y s steps. Inr m),
     m_acc_deltas_bptt_np = (\<lambda>m x d y s steps. Inr m)\<rparr>"

definition stub_base :: "nat base_ops" where
  "stub_base = \<lparr>b_scale_gradients_for_batch = (\<lambda>m n. Inr m),
     b_apply_deltas = (\<lambda>m lr. Inr (Suc m)),
     b_save_params = Inr, b_set_best_params = Inr\<rparr>"

section \<open>Basic facts\<close>

lemma and_then_Inl [simp]: "and_then (Inl e) f = Inl e"
  by (simp add: and_then_def)

lemma and_then_Inr [simp]: "and_then (Inr v) f = f v"
  by (simp add: and_then_def)

lemma and_then_eq_Inr: "and_then r f = Inr z \<longleftrightarrow> (\<exists>v. r = Inr v \<and> f v = Inr z)"
  by (cases r) simp_all

lemmas rnn_eval =
  py_get_def py_range_def make_onehot_def zeros_def zeros2_def vec_add_def vec_sub_def
  vec_mul_def dot_def matvec_def dot_transpose_def outer_def same_shape_def mat_add_def
  set_row_def grad_def eval_nat_numeral

section \<open>Runs of the example network\<close>

lemma softmax_pair: "softmax [a, a] = [1/2, 1/2]"
  by (simp add: softmax_def)

lemma sigmoid_zero2: "sigmoid [0, 0] = [1/2, 1/2]"
  by (simp add: sigmoid_def)

lemma predict_ex_rnn_1:
  "predict ex_rnn [0] = Inr ([[1/2, 1/2]], [[1/2, 1/2], [0, 0]])"
  by (simp add: predict_def predict_body_def ex_rnn_def rnn_eval softmax_pair sigmoid_zero2)

lemma predict_ex_rnn_2:
  "predict ex_rnn [0, 1] = Inr ([[1/2, 1/2], [1/2, 1/2]], [[1/2, 1/2], [1/2, 1/2], [0, 0]])"
  by (simp add: predict_def predict_body_def ex_rnn_def rnn_eval softmax_pair sigmoid_zero2)

lemma acc_deltas_bptt_ex:
  "acc_deltas_bptt ex_rnn [0, 1] [0, 0] [[1/2, 1/2], [1/2, 1/2]]
     [[1/2, 1/2], [1/2, 1/2], [0, 0]] 1
   = Inr (ex_rnn\<lparr>deltaU := [[81/16, 81/16], [79/16, 79/16]],
                  deltaV := [[115/16, 57/8], [109/16, 55/8]],
                  deltaW := [[19/2, 19/2], [17/2, 17/2]]\<rparr>)"
  by (simp add: acc_deltas_bptt_def acc_deltas_bptt_body_def bptt_body_def ex_rnn_def rnn_eval)

lemma acc_deltas_ex:
  "acc_deltas ex_rnn [0, 1] [0, 0] [[1/2, 1/2], [1/2, 1/2]]
     [[1/2, 1/2], [1/2, 1/2], [0, 0]]
   = Inr (ex_rnn\<lparr>deltaU := [[81/16, 81/16], [79/16, 79/16]],
                  deltaV := [[57/8, 57/8], [55/8, 55/8]],
                  deltaW := [[19/2, 19/2], [17/2, 17/2]]\<rparr>)"
  by (simp add: acc_deltas_def acc_deltas_body_def ex_rnn_def rnn_eval)

lemma acc_deltas_bptt_np_ex:
  "acc_deltas_bptt_np ex_rnn [0, 1] [0] [[1/2, 1/2], [1/2, 1/2]]
     [[1/2, 1/2], [1/2, 1/2], [0, 0]] 1
   = Inr (ex_rnn\<lparr>deltaU := [[81/16, 81/16], [79/16, 79/16]],
                  deltaV := [[7, 57/8], [7, 55/8]],
                  deltaW := [[1/4, 1/4], [-1/4, -1/4]]\<rparr>)"
  by (simp add: acc_deltas_bptt_np_def bptt_np_range_def bptt_body_def ex_rnn_def rnn_eval)

lemma acc_deltas_np_ex:
  "acc_deltas_np ex_rnn [0, 1] [0] [[1/2, 1/2], [1/2, 1/2]]
     [[1/2, 1/2], [1/2, 1/2], [0, 0]]
   = Inr (ex_rnn\<lparr>deltaU := [[1/16, 1/16], [-1/16, -1/16]],
                  deltaV := [[0, 1/8], [0, -1/8]],
                  deltaW := [[1/4, 1/4], [-1/4, -1/4]]\<rparr>)"
  by (simp add: acc_deltas_np_def ex_rnn_def rnn_eval)

section \<open>acc\_deltas\_bptt\_np on a sequence of length one\<close>

lemma bptt_np_range_length_one: "length x = 1 \<Longrightarrow> bptt_np_range x steps = []"
  by (simp add: bptt_np_range_def py_range_def)

text \<open>
  Claim C9. For an input sequence of length one (so \<open>t = 0\<close>) and any \<open>steps\<close>, a call of
  \<open>acc_deltas_bptt_np\<close> that returns has replaced \<open>deltaW\<close> by the outer product of
  \<open>one_hot(d[0]) - y[0]\<close> with \<open>s[0]\<close>, whatever \<open>deltaW\<close> held before, and has left
  \<open>deltaV\<close> and \<open>deltaU\<close> exactly as they were: the inner loop runs
  \<open>range(min(steps+1, 0))\<close>, which is empty.
\<close>

theorem acc_deltas_bptt_np_length_one:
  assumes "length x = 1" and "acc_deltas_bptt_np m x d y s steps = Inr m'"
  shows "deltaV m' = deltaV m \<and> deltaU m' = deltaU m \<and>
         (\<exists>d0 one_hot_dt y0 s0.
            py_get d 0 = Inr d0 \<and> make_onehot d0 (out_vocab_size m) = Inr one_hot_dt \<and>
            py_get y 0 = Inr y0 \<and> py_get s 0 = Inr s0 \<and>
            deltaW m' = outer (map2 (-) one_hot_dt y0) s0)"
  using assms
  by (auto simp: acc_deltas_bptt_np_def bptt_np_range_length_one and_then_eq_Inr vec_sub_def
           split: if_splits)

theorem acc_deltas_bptt_np_length_one_witness:
  "length [0::int] = 1 \<and>
   acc_deltas_bptt_np ex_rnn [0] [1] [[1/2, 1/2]] [[1/2, 1/2], [0, 0]] 3
     = Inr (ex_rnn\<lparr>deltaW := [[-1/4, -1/4], [1/4, 1/4]]\<rparr>) \<and>
   deltaV (ex_rnn\<lparr>deltaW := [[-1/4, -1/4], [1/4, 1/4]]\<rparr>) = [[7, 7], [7, 7]] \<and>
   deltaU (ex_rnn\<lparr>deltaW := [[-1/4, -1/4], [1/4, 1/4]]\<rparr>) = [[5, 5], [5, 5]]"
proof -
  have len: "length [0::int] = 1" by simp
  have run: "acc_deltas_bptt_np ex_rnn [0] [1] [[1/2, 1/2]] [[1/2, 1/2], [0, 0]] 3
               = Inr (ex_rnn\<lparr>deltaW := [[-1/4, -1/4], [1/4, 1/4]]\<rparr>)"
    by (simp add: acc_deltas_bptt_np_def ex_rnn_def bptt_np_range_def rnn_eval)
  from acc_deltas_bptt_np_length_one [OF len run]
  have "deltaV (ex_rnn\<lparr>deltaW := [[-1/4, -1/4], [1/4, 1/4]]\<rparr>) = deltaV ex_rnn \<and>
        deltaU (ex_rnn\<lparr>deltaW := [[-1/4, -1/4], [1/4, 1/4]]\<rparr>) = deltaU ex_rnn"
    by blast
  then show ?thesis using len run by (simp add: ex_rnn_def)
qed

section \<open>The rows of the hidden trace that acc\_deltas\_bptt\_np reads\<close>

lemma for_loop_cong:
  "(\<And>i st. i \<in> set js \<Longrightarrow> body i st = body' i st) \<Longrightarrow>
   for_loop js body st = for_loop js body' st"
  by (induction js arbitrary: st) (auto split: sum.splits)

lemma py_get_append_front:
  "0 \<le> i \<Longrightarrow> i < int (length rows) \<Longrightarrow> py_get (rows @ [z]) i = Inr (rows ! nat i)"
proof -
  assume i: "0 \<le> i" "i < int (length rows)"
  then have "nat i < length rows" by simp
  with i show ?thesis by (simp add: py_get_def nth_append)
qed

lemma bptt_body_front:
  assumes "0 \<le> t'" and "t' < t" and "t < int (length rows)" and "t < int (length x)"
  shows "bptt_body x (rows @ [z]) t t' st = bptt_body x (rows @ [z']) t t' st"
proof -
  from assms have a: "py_get (rows @ [z]) (t - t') = py_get (rows @ [z']) (t - t')"
    "py_get (rows @ [z]) (t - 1) = py_get (rows @ [z']) (t - 1)"
    "py_get (rows @ [z]) (t - t' - 1) = py_get (rows @ [z']) (t - t' - 1)"
    by (simp_all add: py_get_append_front)
  show ?thesis unfolding bptt_body_def a ..
qed

lemma bptt_np_range_set:
  "t' \<in> set (bptt_np_range x steps) \<Longrightarrow> 0 \<le> t' \<and> t' < int (length x) - 1"
  by (auto simp: bptt_np_range_def py_range_def)

section \<open>The unrolling depth of acc\_deltas\_bptt\<close>

text \<open>
  Claim C1 asks that the inner loop of \<open>acc_deltas_bptt\<close> stops before a position earlier
  than the start of the sequence. The loop runs over \<open>range(steps+1)\<close> at every \<open>t\<close>,
  without the bound that \<open>acc_deltas_bptt_np\<close> has. On the one-token sequence \<open>[0]\<close>
  with the traces that \<open>predict\<close> returns for it and \<open>steps = 2\<close>, the iteration
  \<open>t_ = 1\<close> reads \<open>x[-1]\<close>, and the iteration \<open>t_ = 2\<close> reads \<open>x[-2]\<close>, which raises
  IndexError.
\<close>

theorem acc_deltas_bptt_short_sequence_raises:
  "predict ex_rnn [0] = Inr ([[1/2, 1/2]], [[1/2, 1/2], [0, 0]]) \<and>
   acc_deltas_bptt ex_rnn [0] [0] [[1/2, 1/2]] [[1/2, 1/2], [0, 0]] 2 = Inl IndexError"
proof -
  have "acc_deltas_bptt ex_rnn [0] [0] [[1/2, 1/2]] [[1/2, 1/2], [0, 0]] 2 = Inl IndexError"
    by (simp add: acc_deltas_bptt_def acc_deltas_bptt_body_def bptt_body_def
        ex_rnn_def rnn_eval)
  then show ?thesis using predict_ex_rnn_1 by simp
qed

section \<open>Two calls of acc\_deltas\_bptt\_np\<close>

text \<open>
  \<open>acc_deltas_np\<close> assigns all three accumulators: what a returning call leaves in them
  does not depend on what they held before.
\<close>

lemma acc_deltas_np_overwrites:
  assumes "acc_deltas_np m x d y s = Inr m'"
    and "W m0 = W m" and "vocab_size m0 = vocab_size m" and "hidden_dims m0 = hidden_dims m"
    and "out_vocab_size m0 = out_vocab_size m"
  shows "\<exists>m0'. acc_deltas_np m0 x d y s = Inr m0' \<and> deltaW m0' = deltaW m' \<and>
           deltaV m0' = deltaV m' \<and> deltaU m0' = deltaU m'"
  using assms by (auto simp: acc_deltas_np_def Let_def and_then_eq_Inr)

text \<open>
  Claim C2 asks that two calls in a row of a single-label method leave the accumulators
  as one call with the second call's inputs does. \<open>acc_deltas_bptt_np\<close> assigns
  \<open>deltaW\<close> and adds to \<open>deltaV\<close> and \<open>deltaU\<close>: on the example network, the first call
  with the sequence \<open>[0, 1]\<close>, the label \<open>[0]\<close> and \<open>steps = 0\<close> turns \<open>deltaV\<close> from
  \<open>[[7, 7], [7, 7]]\<close> into \<open>[[7, 57/8], [7, 55/8]]\<close>, and the same call again adds the
  same amount once more.
\<close>

theorem acc_deltas_bptt_np_twice_accumulates:
  "acc_deltas_bptt_np ex_rnn [0, 1] [0] [[1/2, 1/2], [1/2, 1/2]]
     [[1/2, 1/2], [1/2, 1/2], [0, 0]] 0
   = Inr (ex_rnn\<lparr>deltaU := [[81/16, 81/16], [79/16, 79/16]],
                  deltaV := [[7, 57/8], [7, 55/8]],
                  deltaW := [[1/4, 1/4], [-1/4, -1/4]]\<rparr>) \<and>
   acc_deltas_bptt_np
     (ex_rnn\<lparr>deltaU := [[81/16, 81/16], [79/16, 79/16]],
              deltaV := [[7, 57/8], [7, 55/8]],
              deltaW := [[1/4, 1/4], [-1/4, -1/4]]\<rparr>)
     [0, 1] [0] [[1/2, 1/2], [1/2, 1/2]] [[1/2, 1/2], [1/2, 1/2], [0, 0]] 0
   = Inr (ex_rnn\<lparr>deltaU := [[41/8, 41/8], [39/8, 39/8]],
                  deltaV := [[7, 29/4], [7, 27/4]],
                  deltaW := [[1/4, 1/4], [-1/4, -1/4]]\<rparr>)"
  by (simp add: acc_deltas_bptt_np_def bptt_np_range_def bptt_body_def ex_rnn_def rnn_eval)

section \<open>The choice of the method in train and train\_np\<close>

text \<open>
  Claim C3 asks that every \<open>back_steps\<close> below 2 selects standard backpropagation. The
  test in \<open>train\<close> and \<open>train_np\<close> is \<open>back_steps == 0\<close>: with \<open>back_steps = 1\<close> a training
  instance goes to \<open>acc_deltas_bptt\<close> (to \<open>acc_deltas_bptt_np\<close> in \<open>train_np\<close>), and on
  the example network the accumulators that result differ from those of \<open>acc_deltas\<close>
  (of \<open>acc_deltas_np\<close>).
\<close>

theorem train_back_steps_one_uses_bptt:
  "train_instance rnn_ops ex_rnn [0, 1] [0, 0] 1
     = acc_deltas_bptt ex_rnn [0, 1] [0, 0] [[1/2, 1/2], [1/2, 1/2]]
         [[1/2, 1/2], [1/2, 1/2], [0, 0]] 1 \<and>
   train_instance rnn_ops ex_rnn [0, 1] [0, 0] 1
     \<noteq> acc_deltas ex_rnn [0, 1] [0, 0] [[1/2, 1/2], [1/2, 1/2]]
         [[1/2, 1/2], [1/2, 1/2], [0, 0]] \<and>
   train_np_instance rnn_ops ex_rnn [0, 1] [0] 1
     = acc_deltas_bptt_np ex_rnn [0, 1] [0] [[1/2, 1/2], [1/2, 1/2]]
         [[1/2, 1/2], [1/2, 1/2], [0, 0]] 1 \<and>
   train_np_instance rnn_ops ex_rnn [0, 1] [0] 1
     \<noteq> acc_deltas_np ex_rnn [0, 1] [0] [[1/2, 1/2], [1/2, 1/2]]
         [[1/2, 1/2], [1/2, 1/2], [0, 0]]"
proof -
  have a: "train_instance rnn_ops ex_rnn [0, 1] [0, 0] 1
     = acc_deltas_bptt ex_rnn [0, 1] [0, 0] [[1/2, 1/2], [1/2, 1/2]]
         [[1/2, 1/2], [1/2, 1/2], [0, 0]] 1"
    by (simp add: train_instance_def rnn_ops_def predict_ex_rnn_2)
  have b: "train_np_instance rnn_ops ex_rnn [0, 1] [0] 1
     = acc_deltas_bptt_np ex_rnn [0, 1] [0] [[1/2, 1/2], [1/2, 1/2]]
         [[1/2, 1/2], [1/2, 1/2], [0, 0]] 1"
    by (simp add: train_np_instance_def rnn_ops_def predict_ex_rnn_2)
  have c: "acc_deltas_bptt ex_rnn [0, 1] [0, 0] [[1/2, 1/2], [1/2, 1/2]]
         [[1/2, 1/2], [1/2, 1/2], [0, 0]] 1
     \<noteq> acc_deltas ex_rnn [0, 1] [0, 0] [[1/2, 1/2], [1/2, 1/2]]
         [[1/2, 1/2], [1/2, 1/2], [0, 0]]"
    unfolding acc_deltas_bptt_ex acc_deltas_ex by (simp add: ex_rnn_def)
  have d: "acc_deltas_bptt_np ex_rnn [0, 1] [0] [[1/2, 1/2], [1/2, 1/2]]
         [[1/2, 1/2], [1/2, 1/2], [0, 0]] 1
     \<noteq> acc_deltas_np ex_rnn [0, 1] [0] [[1/2, 1/2], [1/2, 1/2]]
         [[1/2, 1/2], [1/2, 1/2], [0, 0]]"
    unfolding acc_deltas_bptt_np_ex acc_deltas_np_ex by (simp add: ex_rnn_def)
  show ?thesis using a b c d by simp
qed

section \<open>The epoch loop of train and train\_np\<close>

lemma for_loop_break_rule:
  assumes "for_loop_break js body st0 = Inr st" and "P js st0"
    and "\<And>i js s b s'. P (i # js) s \<Longrightarrow> body i s = Inr (b, s') \<Longrightarrow> (if b then Q s' else P js s')"
  shows "P [] st \<or> Q st"
  using assms(1,2)
proof (induction js arbitrary: st0)
  case Nil
  then show ?case by simp
next
  case (Cons i js)
  from Cons.prems(1) obtain b s' where body: "body i st0 = Inr (b, s')"
    by (auto split: sum.splits)
  show ?case
  proof (cases b)
    case True
    with body Cons.prems(1) have "st = s'" by simp
    moreover from assms(3) [OF Cons.prems(2) body] True have "Q s'" by simp
    ultimately show ?thesis by simp
  next
    case False
    with body Cons.prems(1) have run: "for_loop_break js body s' = Inr st" by simp
    from assms(3) [OF Cons.prems(2) body] False have "P js s'" by simp
    from Cons.IH [OF run this] show ?thesis .
  qed
qed

lemma small_change_append:
  "i < length ls \<Longrightarrow> small_change mc (ls @ [l]) i = small_change mc ls i"
  by (auto simp: small_change_def nth_append)

lemma small_change_last:
  "0 < length ls \<Longrightarrow>
   small_change mc (ls @ [l]) (length ls) = (\<bar>ls ! (length ls - 1) - l\<bar> < mc)"
proof -
  assume "0 < length ls"
  then have "(ls @ [l]) ! (length ls - 1) = ls ! (length ls - 1)"
    by (simp add: nth_append)
  moreover from \<open>0 < length ls\<close> have "Suc 0 \<le> length ls" by (cases ls) simp_all
  ultimately show ?thesis
    by (simp add: small_change_def)
qed

lemma plateau_append:
  "e < length ls \<Longrightarrow> plateau mc (ls @ [l]) e = plateau mc ls e"
  by (simp add: plateau_def small_change_append)

lemma plateau_ge3: "plateau mc ls e \<Longrightarrow> 3 \<le> e"
  unfolding plateau_def small_change_def by linarith

lemma watch_step:
  assumes inv: "watch_inv mc st"
    and h: "history st' = history st @ [(epoch, lr, loss)]"
    and c: "min_change_count st' = watch_min_change (prev_loss st) loss mc (min_change_count st)"
    and p: "\<not> 2 < min_change_count st' \<Longrightarrow> prev_loss st' = loss"
  shows "if 2 < min_change_count st' then watch_post mc st' else watch_inv mc st'"
proof -
  define ls where "ls = epoch_losses st"
  define k where "k = length ls"
  have ls': "epoch_losses st' = ls @ [loss]"
    by (simp add: epoch_losses_def h ls_def)
  have nk: "(ls @ [loss]) ! k = loss"
    by (simp add: k_def)
  have noplat: "\<forall>e<k. \<not> plateau mc (ls @ [loss]) e"
    using inv by (simp add: watch_inv_def Let_def ls_def [symmetric] k_def plateau_append)
  show ?thesis
  proof (cases "k = 0")
    case True
    with inv have "min_change_count st = - 1"
      by (simp add: watch_inv_def Let_def ls_def [symmetric] k_def)
    with c have c0: "min_change_count st' = 0"
      by (simp add: watch_min_change_def)
    with p have pl: "prev_loss st' = loss" by simp
    have "watch_inv mc st'"
      unfolding watch_inv_def Let_def ls' using True c0 pl
      by (auto simp: k_def dest: plateau_ge3)
    with c0 show ?thesis by simp
  next
    case False
    with inv obtain cn where cn: "cn \<le> 2" "cn < k" "min_change_count st = int cn"
      and smalls: "\<forall>i. k - cn \<le> i \<and> i < k \<longrightarrow> small_change mc ls i"
      and maxi: "Suc cn < k \<longrightarrow> \<not> small_change mc ls (k - 1 - cn)"
      and prev: "prev_loss st = ls ! (k - 1)"
      by (auto simp: watch_inv_def Let_def ls_def [symmetric] k_def)
    have lastsmall: "small_change mc (ls @ [loss]) k = (\<bar>prev_loss st - loss\<bar> < mc)"
      using False small_change_last [of ls mc loss] prev by (simp add: k_def)
    have old: "\<And>i. i < k \<Longrightarrow> small_change mc (ls @ [loss]) i = small_change mc ls i"
      by (simp add: small_change_append k_def)
    show ?thesis
    proof (cases "\<bar>prev_loss st - loss\<bar> < mc")
      case True
      with c cn have c1: "min_change_count st' = int (Suc cn)"
        by (simp add: watch_min_change_def)
      show ?thesis
      proof (cases "cn = 2")
        case True
        with c1 have brk: "2 < min_change_count st'" by simp
        from True cn have k3: "3 \<le> k" by simp
        have "small_change mc (ls @ [loss]) k" using lastsmall \<open>\<bar>prev_loss st - loss\<bar> < mc\<close> by simp
        moreover have "small_change mc (ls @ [loss]) (k - 1)"
          using smalls True k3 old [of "k - 1"] by simp
        moreover have "small_change mc (ls @ [loss]) (k - 2)"
          using smalls True k3 old [of "k - 2"] by simp
        ultimately have "plateau mc (ls @ [loss]) k"
          by (simp add: plateau_def)
        then have "watch_post mc st'"
          unfolding watch_post_def Let_def ls' using noplat by (simp add: k_def)
        with brk show ?thesis by simp
      next
        case False
        with cn have cn1: "cn \<le> 1" by simp
        with c1 have nobrk: "\<not> 2 < min_change_count st'" by simp
        with p have pl: "prev_loss st' = loss" by simp
        have a: "\<forall>i. Suc k - Suc cn \<le> i \<and> i < Suc k \<longrightarrow> small_change mc (ls @ [loss]) i"
        proof (intro allI impI)
          fix i assume i: "Suc k - Suc cn \<le> i \<and> i < Suc k"
          show "small_change mc (ls @ [loss]) i"
          proof (cases "i = k")
            case True
            then show ?thesis using lastsmall \<open>\<bar>prev_loss st - loss\<bar> < mc\<close> by simp
          next
            case False
            with i have "i < k" "k - cn \<le> i" by simp_all
            then show ?thesis using smalls old by simp
          qed
        qed
        have b: "Suc (Suc cn) < Suc k \<longrightarrow> \<not> small_change mc (ls @ [loss]) (Suc k - 1 - Suc cn)"
        proof
          assume "Suc (Suc cn) < Suc k"
          then have "Suc cn < k" by simp
          with maxi have "\<not> small_change mc ls (k - 1 - cn)" by simp
          moreover have "k - 1 - cn < k" using \<open>Suc cn < k\<close> by simp
          ultimately have "\<not> small_change mc (ls @ [loss]) (k - 1 - cn)" using old by simp
          then show "\<not> small_change mc (ls @ [loss]) (Suc k - 1 - Suc cn)" by simp
        qed
        have np: "\<not> plateau mc (ls @ [loss]) k"
        proof
          assume pl: "plateau mc (ls @ [loss]) k"
          then have k3: "3 \<le> k" by (rule plateau_ge3)
          with cn1 have "Suc cn < k" by simp
          with maxi have ns: "\<not> small_change mc ls (k - 1 - cn)" by simp
          from pl have "small_change mc (ls @ [loss]) (k - 1)" "small_change mc (ls @ [loss]) (k - 2)"
            by (simp_all add: plateau_def)
          with k3 old [of "k - 1"] old [of "k - 2"]
          have "small_change mc ls (k - 1)" "small_change mc ls (k - 2)" by simp_all
          moreover from cn1 have "cn = 0 \<or> cn = 1" by auto
          ultimately show False using ns by (auto simp: numeral_2_eq_2)
        qed
        have c: "\<forall>e<Suc k. \<not> plateau mc (ls @ [loss]) e"
          using noplat np by (auto simp: less_Suc_eq)
        have "watch_inv mc st'"
          unfolding watch_inv_def Let_def ls' using pl c1 cn1 cn a b c nk
          by (auto simp: k_def [symmetric] intro!: exI [of _ "Suc cn"])
        with nobrk show ?thesis by simp
      qed
    next
      case False
      with c have c0: "min_change_count st' = 0"
        by (simp add: watch_min_change_def)
      with p have pl: "prev_loss st' = loss" by simp
      have ns: "\<not> small_change mc (ls @ [loss]) k" using lastsmall False by simp
      then have np: "\<not> plateau mc (ls @ [loss]) k" by (simp add: plateau_def)
      have c: "\<forall>e<Suc k. \<not> plateau mc (ls @ [loss]) e"
        using noplat np by (auto simp: less_Suc_eq)
      have "watch_inv mc st'"
        unfolding watch_inv_def Let_def ls' using pl c0 ns c nk
        by (auto simp: k_def [symmetric] intro!: exI [of _ "0::nat"])
      with c0 show ?thesis by simp
    qed
  qed
qed


lemma train_epoch_effect:
  assumes "train_epoch ops base perm X D X_dev D_dev loss_sum a0 anneal back_steps batch_size
             mc epoch st = Inr (b, st')"
  shows "\<exists>loss. history st' = history st @ [(epoch, epoch_learning_rate a0 anneal epoch, loss)] \<and>
           min_change_count st' = watch_min_change (prev_loss st) loss mc (min_change_count st) \<and>
           b = (2 < min_change_count st') \<and> (\<not> b \<longrightarrow> prev_loss st' = loss)"
  using assms
  by (auto simp: train_epoch_def Let_def and_then_eq_Inr split: if_splits)

lemma train_np_epoch_effect:
  assumes "train_np_epoch ops base perm X D X_dev D_dev loss_sum a0 anneal back_steps batch_size
             mc epoch st = Inr (b, st')"
  shows "\<exists>loss. history st' = history st @ [(epoch, epoch_learning_rate a0 anneal epoch, loss)] \<and>
           min_change_count st' = watch_min_change (prev_loss st) loss mc (min_change_count st) \<and>
           b = (2 < min_change_count st') \<and> (\<not> b \<longrightarrow> prev_loss st' = loss)"
  using assms
  by (auto simp: train_np_epoch_def Let_def and_then_eq_Inr split: if_splits)


lemma epoch_loop_stops:
  assumes eff: "\<And>epoch st b st'. body epoch st = Inr (b, st') \<Longrightarrow>
      \<exists>loss lr. history st' = history st @ [(epoch, lr, loss)] \<and>
        min_change_count st' = watch_min_change (prev_loss st) loss mc (min_change_count st) \<and>
        b = (2 < min_change_count st') \<and> (\<not> b \<longrightarrow> prev_loss st' = loss)"
    and run: "for_loop_break (py_range epochs) body st0 = Inr st"
    and init: "history st0 = []" "min_change_count st0 = - 1"
  shows "stops_as_specified epochs mc (epoch_losses st)"
proof -
  let ?P = "\<lambda>js s. js = map int [length (history s) ..< nat epochs] \<and>
                   length (history s) \<le> nat epochs \<and> watch_inv mc s"
  let ?Q = "\<lambda>s. length (history s) \<le> nat epochs \<and> watch_post mc s"
  have start: "?P (py_range epochs) st0"
    using init by (simp add: py_range_def watch_inv_def epoch_losses_def)
  have "?P [] st \<or> ?Q st"
  proof (rule for_loop_break_rule [where P = ?P and Q = ?Q, OF run start])
    fix i js s b s'
    assume P: "?P (i # js) s" and body: "body i s = Inr (b, s')"
    from eff [OF body] obtain loss lr where
      h: "history s' = history s @ [(i, lr, loss)]" and
      c: "min_change_count s' = watch_min_change (prev_loss s) loss mc (min_change_count s)" and
      b: "b = (2 < min_change_count s')" and p: "\<not> b \<longrightarrow> prev_loss s' = loss"
      by blast
    from P have lt: "length (history s) < nat epochs"
      by (cases "length (history s) < nat epochs") simp_all
    with P have js: "js = map int [Suc (length (history s)) ..< nat epochs]"
      by (simp add: upt_conv_Cons)
    from P have inv: "watch_inv mc s" by simp
    from watch_step [OF inv h c] p b
    have "if 2 < min_change_count s' then watch_post mc s' else watch_inv mc s'" by simp
    with b js lt h show "if b then ?Q s' else ?P js s'" by simp
  qed
  then show ?thesis
  proof
    assume fin: "?P [] st"
    then have len: "length (history st) = nat epochs" by auto
    from fin have "\<forall>e<length (epoch_losses st). \<not> plateau mc (epoch_losses st) e"
      by (simp add: watch_inv_def Let_def)
    with len show ?thesis
      by (simp add: stops_as_specified_def epoch_losses_def)
  next
    assume q: "?Q st"
    define n where "n = length (epoch_losses st)"
    from q have n: "0 < n" "plateau mc (epoch_losses st) (n - 1)"
      "\<forall>e<n - 1. \<not> plateau mc (epoch_losses st) e" "n \<le> nat epochs"
      by (simp_all add: watch_post_def Let_def n_def epoch_losses_def)
    have "\<forall>e<n. plateau mc (epoch_losses st) e \<longrightarrow> Suc e = n"
    proof (intro allI impI)
      fix e assume e: "e < n" "plateau mc (epoch_losses st) e"
      with n(3) have "\<not> e < n - 1" by blast
      with e(1) show "Suc e = n" by simp
    qed
    moreover from n(4) have "int n \<le> max 0 epochs" by simp
    ultimately show ?thesis
      unfolding stops_as_specified_def n_def [symmetric] using n(1,2) by blast
  qed
qed

lemma epoch_loop_rates:
  assumes eff: "\<And>epoch st b st'. body epoch st = Inr (b, st') \<Longrightarrow>
      \<exists>loss. history st' = history st @ [(epoch, epoch_learning_rate a0 anneal epoch, loss)]"
    and run: "for_loop_break (py_range epochs) body st0 = Inr st"
    and init: "history st0 = []"
  shows "\<forall>i<length (history st).
           \<exists>loss. history st ! i = (int i, epoch_learning_rate a0 anneal (int i), loss)"
proof -
  let ?R = "\<lambda>s. \<forall>i<length (history s).
           \<exists>loss. history s ! i = (int i, epoch_learning_rate a0 anneal (int i), loss)"
  let ?P = "\<lambda>js s. js = map int [length (history s) ..< nat epochs] \<and> ?R s"
  have start: "?P (py_range epochs) st0"
    using init by (simp add: py_range_def)
  have "?P [] st \<or> ?R st"
  proof (rule for_loop_break_rule [where P = ?P and Q = ?R, OF run start])
    fix i js s b s'
    assume P: "?P (i # js) s" and body: "body i s = Inr (b, s')"
    from eff [OF body] obtain loss where
      h: "history s' = history s @ [(i, epoch_learning_rate a0 anneal i, loss)]"
      by blast
    from P have lt: "length (history s) < nat epochs"
      by (cases "length (history s) < nat epochs") simp_all
    with P have js: "js = map int [Suc (length (history s)) ..< nat epochs]"
      and i: "i = int (length (history s))"
      by (simp_all add: upt_conv_Cons)
    from P have "?R s" by simp
    with h i have "?R s'"
      by (auto simp: nth_append less_Suc_eq)
    with js h show "if b then ?R s' else ?P js s'" by simp
  qed
  then show ?thesis by blast
qed

lemma train_loop_of_result:
  assumes "train ops base perm m X D X_dev D_dev epochs a0 anneal back_steps batch_size mc = Inr r"
  shows "\<exists>loss_sum st0 st1.
           for_loop_break (py_range epochs)
             (train_epoch ops base perm X D X_dev D_dev loss_sum a0 anneal back_steps
                batch_size mc) st0 = Inr st1 \<and>
           history st0 = [] \<and> min_change_count st0 = - 1 \<and> history (snd r) = history st1"
  using assms
  by (clarsimp simp: train_def Let_def and_then_eq_Inr) (intro exI conjI, assumption, simp_all)

lemma train_np_loop_of_result:
  assumes "train_np ops base perm m X D X_dev D_dev epochs a0 anneal back_steps batch_size mc = Inr r"
  shows "\<exists>loss_sum st0 st1.
           for_loop_break (py_range epochs)
             (train_np_epoch ops base perm X D X_dev D_dev loss_sum a0 anneal back_steps
                batch_size mc) st0 = Inr st1 \<and>
           history st0 = [] \<and> min_change_count st0 = - 1 \<and> history (snd r) = history st1"
  using assms
  by (clarsimp simp: train_np_def Let_def and_then_eq_Inr split: if_splits)
     (intro exI conjI, assumption, simp_all)

subsection \<open>A run of the stub model\<close>

lemma stub_loss0: "compute_loss stub_ops 0 [0] [0] = Inr (- ln (1/2))"
  by (simp add: compute_loss_def compute_loss_body_def stub_ops_def rnn_eval)

lemma stub_loss1: "compute_loss stub_ops (Suc n) [0] [0] = Inr 0"
  by (simp add: compute_loss_def compute_loss_body_def stub_ops_def rnn_eval)

lemma stub_pass: "train_pass (train_instance stub_ops) stub_base [0] [[0]] [[0]] lr 0 1 n = Inr (Suc n)"
  by (simp add: train_pass_def train_instance_def stub_ops_def stub_base_def rnn_eval)

lemma stub_base_simps:
  "b_save_params stub_base m = Inr m" "b_set_best_params stub_base m = Inr m"
  by (simp_all add: stub_base_def)

lemma stub_acc0: "compute_acc_np stub_ops m [0] [0] = Inr 1"
  by (simp add: compute_acc_np_def argmax_def stub_ops_def rnn_eval)

lemma stub_loss_np0: "compute_loss_np stub_ops 0 [0] [0] = Inr (- ln (1/2))"
  by (simp add: compute_loss_np_def stub_ops_def rnn_eval)

lemma stub_loss_np1: "compute_loss_np stub_ops (Suc n) [0] [0] = Inr 0"
  by (simp add: compute_loss_np_def stub_ops_def rnn_eval)

lemma stub_pass_np: "train_pass (train_np_instance stub_ops) stub_base [0] [[0]] [[0]] lr 0 1 n = Inr (Suc n)"
  by (simp add: train_pass_def train_np_instance_def stub_ops_def stub_base_def rnn_eval)

lemma stub_train:
  "train stub_ops stub_base (\<lambda>e. [0]) 0 [[0]] [[0]] [[0]] [[0]] 10 (1/2) 5 0 1 (1/10)
   = Inr (0, \<lparr>model = 4, prev_loss = 0, min_change_count = 3, best_loss = 0, best_epoch = 0,
              best_acc = None,
              history = [(0, 1/2, 0), (1, 5/12, 0), (2, 5/14, 0), (3, 5/16, 0)]\<rparr>)"
  by (simp add: train_def train_epoch_def stub_pass sum_over_dev_def stub_loss1 stub_loss0 py_div_def py_get_def py_range_def
     epoch_learning_rate_def watch_min_change_def eval_nat_numeral stub_base_simps)

lemma stub_train_np:
  "train_np stub_ops stub_base (\<lambda>e. [0]) 0 [[0]] [[0]] [[0]] [[0]] 10 (1/2) 5 0 1 (1/10)
   = Inr (0, \<lparr>model = 4, prev_loss = 0, min_change_count = 3, best_loss = 0, best_epoch = 0,
              best_acc = Some 1,
              history = [(0, 1/2, 0), (1, 5/12, 0), (2, 5/14, 0), (3, 5/16, 0)]\<rparr>)"
  by (simp add: train_np_def train_np_epoch_def stub_pass_np sum_over_dev_def stub_loss_np1 stub_loss_np0 stub_acc0 py_div_def py_get_def py_range_def
     epoch_learning_rate_def watch_min_change_def eval_nat_numeral stub_base_simps)


subsection \<open>Early stopping\<close>

text \<open>
  Claim C7. Whenever \<open>train\<close> or \<open>train_np\<close> returns, the epochs that ran are as the
  stopping rule says: at most \<open>epochs\<close> of them; the loop ran no epoch after one at which
  the change in dev-set loss between consecutive epochs had been below \<open>min_change\<close> for
  more than 2 consecutive epochs; and it left before \<open>epochs\<close> epochs only at such an
  epoch. The comparison of epoch 0 with the loss before training is not a change between
  two epochs and does not count: \<open>min_change_count\<close> starts at \<open>-1\<close> and is 0 after
  epoch 0 in either branch.
\<close>

theorem train_stops:
  assumes "train ops base perm m X D X_dev D_dev epochs a0 anneal back_steps batch_size mc = Inr r \<or>
           train_np ops base perm m X D X_dev D_dev epochs a0 anneal back_steps batch_size mc = Inr r"
  shows "stops_as_specified epochs mc (epoch_losses (snd r))"
  using assms
proof
  assume "train ops base perm m X D X_dev D_dev epochs a0 anneal back_steps batch_size mc = Inr r"
  from train_loop_of_result [OF this] obtain loss_sum st0 st1 where
    run: "for_loop_break (py_range epochs)
             (train_epoch ops base perm X D X_dev D_dev loss_sum a0 anneal back_steps
                batch_size mc) st0 = Inr st1"
    and init: "history st0 = []" "min_change_count st0 = - 1"
    and h: "history (snd r) = history st1"
    by blast
  have "stops_as_specified epochs mc (epoch_losses st1)"
    by (rule epoch_loop_stops [OF _ run init]) (drule train_epoch_effect, blast)
  with h show ?thesis by (simp add: epoch_losses_def)
next
  assume "train_np ops base perm m X D X_dev D_dev epochs a0 anneal back_steps batch_size mc = Inr r"
  from train_np_loop_of_result [OF this] obtain loss_sum st0 st1 where
    run: "for_loop_break (py_range epochs)
             (train_np_epoch ops base perm X D X_dev D_dev loss_sum a0 anneal back_steps
                batch_size mc) st0 = Inr st1"
    and init: "history st0 = []" "min_change_count st0 = - 1"
    and h: "history (snd r) = history st1"
    by blast
  have "stops_as_specified epochs mc (epoch_losses st1)"
    by (rule epoch_loop_stops [OF _ run init]) (drule train_np_epoch_effect, blast)
  with h show ?thesis by (simp add: epoch_losses_def)
qed

theorem train_stops_witness:
  "train stub_ops stub_base (\<lambda>e. [0]) 0 [[0]] [[0]] [[0]] [[0]] 10 (1/2) 5 0 1 (1/10)
   = Inr (0, \<lparr>model = 4, prev_loss = 0, min_change_count = 3, best_loss = 0, best_epoch = 0,
              best_acc = None,
              history = [(0, 1/2, 0), (1, 5/12, 0), (2, 5/14, 0), (3, 5/16, 0)]\<rparr>) \<and>
   train_np stub_ops stub_base (\<lambda>e. [0]) 0 [[0]] [[0]] [[0]] [[0]] 10 (1/2) 5 0 1 (1/10)
   = Inr (0, \<lparr>model = 4, prev_loss = 0, min_change_count = 3, best_loss = 0, best_epoch = 0,
              best_acc = Some 1,
              history = [(0, 1/2, 0), (1, 5/12, 0), (2, 5/14, 0), (3, 5/16, 0)]\<rparr>) \<and>
   stops_as_specified 10 (1/10) [0, 0, 0, 0] \<and> plateau (1/10) [0, 0, 0, 0] 3"
proof -
  have "stops_as_specified 10 (1/10)
          (epoch_losses (snd (0::real, \<lparr>model = 4::nat, prev_loss = 0, min_change_count = 3,
              best_loss = 0, best_epoch = 0, best_acc = None,
              history = [(0, 1/2, 0), (1, 5/12, 0), (2, 5/14, 0), (3, 5/16, 0)]\<rparr>)))"
    by (rule train_stops) (rule disjI1, rule stub_train)
  moreover have "stops_as_specified 10 (1/10)
          (epoch_losses (snd (0::real, \<lparr>model = 4::nat, prev_loss = 0, min_change_count = 3,
              best_loss = 0, best_epoch = 0, best_acc = Some 1,
              history = [(0, 1/2, 0), (1, 5/12, 0), (2, 5/14, 0), (3, 5/16, 0)]\<rparr>)))"
    by (rule train_stops) (rule disjI2, rule stub_train_np)
  moreover have "plateau (1/10) [0, 0, 0, 0] 3"
    by (simp add: plateau_def small_change_def eval_nat_numeral)
  ultimately show ?thesis
    using stub_train stub_train_np by (simp add: epoch_losses_def)
qed

subsection \<open>The learning rate of an epoch\<close>

lemma recording_ops_simps:
  "m_vocab_size (recording_ops ops) ml = m_vocab_size ops (fst ml)"
  "m_predict (recording_ops ops) ml = m_predict ops (fst ml)"
  "m_acc_deltas (recording_ops ops) ml x d y s
     = and_then (m_acc_deltas ops (fst ml) x d y s) (\<lambda>m'. Inr (m', snd ml))"
  "m_acc_deltas_np (recording_ops ops) ml x d y s
     = and_then (m_acc_deltas_np ops (fst ml) x d y s) (\<lambda>m'. Inr (m', snd ml))"
  "m_acc_deltas_bptt (recording_ops ops) ml x d y s steps
     = and_then (m_acc_deltas_bptt ops (fst ml) x d y s steps) (\<lambda>m'. Inr (m', snd ml))"
  "m_acc_deltas_bptt_np (recording_ops ops) ml x d y s steps
     = and_then (m_acc_deltas_bptt_np ops (fst ml) x d y s steps) (\<lambda>m'. Inr (m', snd ml))"
  by (simp_all add: recording_ops_def)

lemma recording_base_simps:
  "b_scale_gradients_for_batch (recording_base base) ml n
     = and_then (b_scale_gradients_for_batch base (fst ml) n) (\<lambda>m'. Inr (m', snd ml))"
  "b_apply_deltas (recording_base base) ml lr
     = and_then (b_apply_deltas base (fst ml) lr) (\<lambda>m'. Inr (m', snd ml @ [lr]))"
  "b_save_params (recording_base base) ml
     = and_then (b_save_params base (fst ml)) (\<lambda>m'. Inr (m', snd ml))"
  "b_set_best_params (recording_base base) ml
     = and_then (b_set_best_params base (fst ml)) (\<lambda>m'. Inr (m', snd ml))"
  by (simp_all add: recording_base_def)

lemma compute_loss_body_recording:
  "compute_loss_body (recording_ops ops) ml = compute_loss_body ops (fst ml)"
  by (simp add: fun_eq_iff compute_loss_body_def recording_ops_simps)

lemma compute_loss_recording:
  "compute_loss (recording_ops ops) ml = compute_loss ops (fst ml)"
  by (simp add: fun_eq_iff compute_loss_def compute_loss_body_recording recording_ops_simps)

lemma compute_loss_np_recording:
  "compute_loss_np (recording_ops ops) ml = compute_loss_np ops (fst ml)"
  by (simp add: fun_eq_iff compute_loss_np_def recording_ops_simps)

lemma compute_acc_np_recording:
  "compute_acc_np (recording_ops ops) ml = compute_acc_np ops (fst ml)"
  by (simp add: fun_eq_iff compute_acc_np_def recording_ops_simps)

lemma train_instance_recording:
  "train_instance (recording_ops ops) (m, l) x d back_steps
     = and_then (train_instance ops m x d back_steps) (\<lambda>m'. Inr (m', l))"
  by (cases "m_predict ops m x") (simp_all add: train_instance_def recording_ops_simps)

lemma train_np_instance_recording:
  "train_np_instance (recording_ops ops) (m, l) x d back_steps
     = and_then (train_np_instance ops m x d back_steps) (\<lambda>m'. Inr (m', l))"
  by (cases "m_predict ops m x") (simp_all add: train_np_instance_def recording_ops_simps)

lemma for_loop_log:
  assumes "\<And>i m l. i \<in> set js \<Longrightarrow>
             body' i (m, l) = and_then (body i m) (\<lambda>m'. Inr (m', l @ g i))"
  shows "for_loop js body' (m, l)
           = and_then (for_loop js body m) (\<lambda>m'. Inr (m', l @ concat (map g js)))"
  using assms
proof (induction js arbitrary: m l)
  case Nil
  then show ?case by simp
next
  case (Cons j js)
  show ?case
  proof (cases "body j m")
    case (Inl e)
    with Cons.prems [of j m l] show ?thesis by simp
  next
    case (Inr m1)
    with Cons.prems [of j m l] have "body' j (m, l) = Inr (m1, l @ g j)" by simp
    moreover have "for_loop js body' (m1, l @ g j)
           = and_then (for_loop js body m1) (\<lambda>m'. Inr (m', (l @ g j) @ concat (map g js)))"
      by (rule Cons.IH) (simp add: Cons.prems)
    ultimately show ?thesis using Inr by simp
  qed
qed

lemma concat_updates:
  "concat (map (\<lambda>i. if P i then [lr] else []) js) = replicate (length (filter P js)) lr"
  by (induction js) simp_all

lemma train_pass_recording:
  assumes inst: "\<And>m l x d bs. inst' (m, l) x d bs = and_then (inst m x d bs) (\<lambda>m'. Inr (m', l))"
  shows "train_pass inst' (recording_base base) p X D lr back_steps batch_size (m, l)
           = and_then (train_pass inst base p X D lr back_steps batch_size m)
               (\<lambda>m'. Inr (m', l @ replicate (pass_updates (length X) batch_size) lr))"
proof -
  let ?g = "\<lambda>i. if i mod batch_size = 0 then [lr] else []"
  let ?body = "\<lambda>i m.
             and_then (py_get p i) (\<lambda>q.
             and_then (py_get X q) (\<lambda>x_p.
             and_then (py_get D q) (\<lambda>d_p.
             and_then (inst m x_p d_p back_steps) (\<lambda>m1.
             if batch_size = 0 then Inl ZeroDivisionError
             else if i mod batch_size = 0 then
               and_then (b_scale_gradients_for_batch base m1 batch_size) (\<lambda>m2.
               b_apply_deltas base m2 lr)
             else Inr m1))))"
  let ?body' = "\<lambda>i ml.
             and_then (py_get p i) (\<lambda>q.
             and_then (py_get X q) (\<lambda>x_p.
             and_then (py_get D q) (\<lambda>d_p.
             and_then (inst' ml x_p d_p back_steps) (\<lambda>m1.
             if batch_size = 0 then Inl ZeroDivisionError
             else if i mod batch_size = 0 then
               and_then (b_scale_gradients_for_batch (recording_base base) m1 batch_size) (\<lambda>m2.
               b_apply_deltas (recording_base base) m2 lr)
             else Inr m1))))"
  have step: "?body' i (m, l) = and_then (?body i m) (\<lambda>m'. Inr (m', l @ ?g i))" for i m l
  proof (cases "py_get p i")
    case (Inl e)
    then show ?thesis by simp
  next
    case q: (Inr q)
    show ?thesis
    proof (cases "py_get X q")
      case (Inl e)
      with q show ?thesis by simp
    next
      case x: (Inr x_p)
      show ?thesis
      proof (cases "py_get D q")
        case (Inl e)
        with q x show ?thesis by simp
      next
        case d: (Inr d_p)
        show ?thesis
        proof (cases "inst m x_p d_p back_steps")
          case (Inl e)
          with q x d show ?thesis by (simp add: inst)
        next
          case m1: (Inr m1)
          show ?thesis
          proof (cases "b_scale_gradients_for_batch base m1 batch_size")
            case (Inl e)
            with q x d m1 show ?thesis by (simp add: inst recording_base_simps)
          next
            case m2: (Inr m2)
            show ?thesis
            proof (cases "b_apply_deltas base m2 lr")
              case (Inl e)
              with q x d m1 m2 show ?thesis by (simp add: inst recording_base_simps)
            next
              case (Inr m3)
              with q x d m1 m2 show ?thesis by (simp add: inst recording_base_simps)
            qed
          qed
        qed
      qed
    qed
  qed
  have loop: "for_loop (py_range (int (length X))) ?body' (m, l)
           = and_then (for_loop (py_range (int (length X))) ?body m)
               (\<lambda>m'. Inr (m', l @ replicate
                  (length (filter (\<lambda>i. i mod batch_size = 0) (py_range (int (length X))))) lr))"
    using for_loop_log [where body' = ?body' and body = ?body and g = ?g, OF step]
    by (simp add: concat_updates)
  show ?thesis
  proof (cases "for_loop (py_range (int (length X))) ?body m")
    case (Inl e)
    with loop show ?thesis by (simp add: train_pass_def)
  next
    case m1: (Inr m1)
    show ?thesis
    proof (cases "b_scale_gradients_for_batch base m1 (int (length X) mod batch_size)")
      case (Inl e)
      with loop m1 show ?thesis
        by (simp add: train_pass_def recording_base_simps pass_updates_def)
    next
      case m2: (Inr m2)
      show ?thesis
      proof (cases "b_apply_deltas base m2 lr")
        case (Inl e)
        with loop m1 m2 show ?thesis
          by (simp add: train_pass_def recording_base_simps pass_updates_def)
      next
        case (Inr m3)
        with loop m1 m2 show ?thesis
          by (simp add: train_pass_def recording_base_simps pass_updates_def
                replicate_append_same)
      qed
    qed
  qed
qed

lemma applied_rates_simps:
  "applied_rates u [] = []"
  "applied_rates u (h @ [(e, lr, loss)]) = applied_rates u h @ replicate u lr"
  by (simp_all add: applied_rates_def)

lemma with_log_simps:
  "model (with_log l st) = (model st, l)" "prev_loss (with_log l st) = prev_loss st"
  "min_change_count (with_log l st) = min_change_count st"
  "best_loss (with_log l st) = best_loss st" "best_epoch (with_log l st) = best_epoch st"
  "best_acc (with_log l st) = best_acc st" "history (with_log l st) = history st"
  by (simp_all add: with_log_def)

lemma for_loop_break_recording:
  assumes "\<And>i st. body' i (f st) = and_then (body i st) (\<lambda>r. Inr (fst r, f (snd r)))"
  shows "for_loop_break js body' (f st)
           = and_then (for_loop_break js body st) (\<lambda>st'. Inr (f st'))"
proof (induction js arbitrary: st)
  case Nil
  then show ?case by simp
next
  case (Cons j js)
  show ?case
  proof (cases "body j st")
    case (Inl e)
    with assms [of j st] show ?thesis by simp
  next
    case (Inr r)
    with assms [of j st] have "body' j (f st) = Inr (fst r, f (snd r))" by simp
    with Inr Cons.IH [of "snd r"] show ?thesis by (cases r) simp
  qed
qed

lemma train_epoch_recording:
  fixes st :: "'m train_state"
  assumes u_def: "u = pass_updates (length X) batch_size"
  shows "train_epoch (recording_ops ops) (recording_base base) perm X D X_dev D_dev loss_sum a0
           anneal back_steps batch_size mc epoch (with_log (l0 @ applied_rates u (history st)) st)
         = and_then (train_epoch ops base perm X D X_dev D_dev loss_sum a0 anneal back_steps
                       batch_size mc epoch st)
             (\<lambda>r. Inr (fst r, with_log (l0 @ applied_rates u (history (snd r))) (snd r)))"
proof -
  let ?lr = "epoch_learning_rate a0 anneal epoch"
  let ?l = "l0 @ applied_rates u (history st)"
  have pass: "train_pass (train_instance (recording_ops ops)) (recording_base base) (perm epoch)
                X D ?lr back_steps batch_size (model st, ?l)
              = and_then (train_pass (train_instance ops) base (perm epoch) X D ?lr back_steps
                            batch_size (model st))
                  (\<lambda>m'. Inr (m', ?l @ replicate u ?lr))"
    unfolding u_def by (rule train_pass_recording) (rule train_instance_recording)
  show ?thesis
  proof (cases "train_pass (train_instance ops) base (perm epoch) X D ?lr back_steps
                  batch_size (model st)")
    case (Inl e)
    with pass show ?thesis by (simp add: train_epoch_def Let_def with_log_simps)
  next
    case m1: (Inr m1)
    show ?thesis
    proof (cases "sum_over_dev (compute_loss ops m1) X_dev D_dev")
      case (Inl e)
      with pass m1 show ?thesis
        by (simp add: train_epoch_def Let_def with_log_simps compute_loss_recording)
    next
      case total: (Inr total)
      show ?thesis
      proof (cases "py_div total loss_sum")
        case (Inl e)
        with pass m1 total show ?thesis
          by (simp add: train_epoch_def Let_def with_log_simps compute_loss_recording)
      next
        case loss: (Inr loss)
        show ?thesis
        proof (cases "loss < best_loss st")
          case False
          with pass m1 total loss show ?thesis
            by (simp add: train_epoch_def Let_def with_log_simps compute_loss_recording
                  applied_rates_simps with_log_def)
        next
          case True
          show ?thesis
          proof (cases "b_save_params base m1")
            case (Inl e)
            with pass m1 total loss True show ?thesis
              by (simp add: train_epoch_def Let_def with_log_simps compute_loss_recording
                    recording_base_simps)
          next
            case (Inr m2)
            with pass m1 total loss True show ?thesis
              by (simp add: train_epoch_def Let_def with_log_simps compute_loss_recording
                    recording_base_simps applied_rates_simps with_log_def)
          qed
        qed
      qed
    qed
  qed
qed

lemma train_np_epoch_recording:
  fixes st :: "'m train_state"
  assumes u_def: "u = pass_updates (length X) batch_size"
  shows "train_np_epoch (recording_ops ops) (recording_base base) perm X D X_dev D_dev loss_sum a0
           anneal back_steps batch_size mc epoch (with_log (l0 @ applied_rates u (history st)) st)
         = and_then (train_np_epoch ops base perm X D X_dev D_dev loss_sum a0 anneal back_steps
                       batch_size mc epoch st)
             (\<lambda>r. Inr (fst r, with_log (l0 @ applied_rates u (history (snd r))) (snd r)))"
proof -
  let ?lr = "epoch_learning_rate a0 anneal epoch"
  let ?l = "l0 @ applied_rates u (history st)"
  have pass: "train_pass (train_np_instance (recording_ops ops)) (recording_base base) (perm epoch)
                X D ?lr back_steps batch_size (model st, ?l)
              = and_then (train_pass (train_np_instance ops) base (perm epoch) X D ?lr back_steps
                            batch_size (model st))
                  (\<lambda>m'. Inr (m', ?l @ replicate u ?lr))"
    unfolding u_def by (rule train_pass_recording) (rule train_np_instance_recording)
  note s = train_np_epoch_def Let_def with_log_simps compute_loss_np_recording
    compute_acc_np_recording
  show ?thesis
  proof (cases "train_pass (train_np_instance ops) base (perm epoch) X D ?lr back_steps
                  batch_size (model st)")
    case (Inl e)
    with pass show ?thesis by (simp add: s)
  next
    case m1: (Inr m1)
    show ?thesis
    proof (cases "sum_over_dev (compute_loss_np ops m1) X_dev D_dev")
      case (Inl e)
      with pass m1 show ?thesis by (simp add: s)
    next
      case total: (Inr total)
      show ?thesis
      proof (cases "py_div total loss_sum")
        case (Inl e)
        with pass m1 total show ?thesis by (simp add: s)
      next
        case loss: (Inr loss)
        show ?thesis
        proof (cases "sum_over_dev (\<lambda>x d. and_then (compute_acc_np ops m1 x d)
                                        (\<lambda>a. Inr (real_of_int a))) X_dev D_dev")
          case (Inl e)
          with pass m1 total loss show ?thesis by (simp add: s)
        next
          case hits: (Inr hits)
          show ?thesis
          proof (cases "py_div hits (real (length X_dev))")
            case (Inl e)
            with pass m1 total loss hits show ?thesis by (simp add: s)
          next
            case acc: (Inr acc)
            show ?thesis
            proof (cases "loss < best_loss st")
              case False
              with pass m1 total loss hits acc show ?thesis
                by (simp add: s applied_rates_simps with_log_def)
            next
              case True
              show ?thesis
              proof (cases "b_save_params base m1")
                case (Inl e)
                with pass m1 total loss hits acc True show ?thesis
                  by (simp add: s recording_base_simps)
              next
                case (Inr m2)
                with pass m1 total loss hits acc True show ?thesis
                  by (simp add: s recording_base_simps applied_rates_simps with_log_def)
              qed
            qed
          qed
        qed
      qed
    qed
  qed
qed

lemma train_recording:
  "train (recording_ops ops) (recording_base base) perm (m, l0) X D X_dev D_dev epochs a0 anneal
     back_steps batch_size mc
   = and_then (train ops base perm m X D X_dev D_dev epochs a0 anneal back_steps batch_size mc)
       (\<lambda>r. Inr (fst r, with_log (l0 @ applied_rates (pass_updates (length X) batch_size)
                                        (history (snd r))) (snd r)))"
proof -
  let ?u = "pass_updates (length X) batch_size"
  let ?ls = "real (sum_list (map length D_dev))"
  let ?f = "\<lambda>st :: 'a train_state. with_log (l0 @ applied_rates ?u (history st)) st"
  let ?body = "train_epoch ops base perm X D X_dev D_dev ?ls a0 anneal back_steps batch_size mc"
  let ?body' = "train_epoch (recording_ops ops) (recording_base base) perm X D X_dev D_dev ?ls a0
                  anneal back_steps batch_size mc"
  have loop: "for_loop_break (py_range epochs) ?body' (?f st)
                = and_then (for_loop_break (py_range epochs) ?body st) (\<lambda>st'. Inr (?f st'))" for st
    by (rule for_loop_break_recording) (rule train_epoch_recording [OF refl])
  show ?thesis
  proof (cases "sum_over_dev (compute_loss ops m) X_dev D_dev")
    case (Inl e)
    then show ?thesis by (simp add: train_def Let_def compute_loss_recording)
  next
    case total: (Inr total)
    show ?thesis
    proof (cases "py_div total ?ls")
      case (Inl e)
      with total show ?thesis by (simp add: train_def Let_def compute_loss_recording)
    next
      case il: (Inr initial_loss)
      show ?thesis
      proof (cases "b_save_params base m")
        case (Inl e)
        with total il show ?thesis
          by (simp add: train_def Let_def compute_loss_recording recording_base_simps)
      next
        case m0: (Inr m0)
        let ?st0 = "\<lparr>model = m0, prev_loss = initial_loss, min_change_count = - 1,
                   best_loss = initial_loss, best_epoch = 0, best_acc = None,
                   history = []\<rparr>"
        have init: "\<lparr>model = (m0, l0), prev_loss = initial_loss, min_change_count = - 1,
                   best_loss = initial_loss, best_epoch = 0, best_acc = None,
                   history = []\<rparr> = ?f ?st0"
          by (simp add: with_log_def applied_rates_simps)
        show ?thesis
        proof (cases "for_loop_break (py_range epochs) ?body ?st0")
          case (Inl e)
          with total il m0 loop [of ?st0] show ?thesis
            unfolding train_def Let_def
            by (simp add: compute_loss_recording recording_base_simps init)
        next
          case st: (Inr st)
          show ?thesis
          proof (cases "b_set_best_params base (model st)")
            case (Inl e)
            with total il m0 st loop [of ?st0] show ?thesis
              unfolding train_def Let_def
              by (simp add: compute_loss_recording recording_base_simps init with_log_simps)
          next
            case (Inr m')
            with total il m0 st loop [of ?st0] show ?thesis
              unfolding train_def Let_def
              by (simp add: compute_loss_recording recording_base_simps init with_log_simps)
          qed
        qed
      qed
    qed
  qed
qed

lemma train_np_recording:
  "train_np (recording_ops ops) (recording_base base) perm (m, l0) X D X_dev D_dev epochs a0 anneal
     back_steps batch_size mc
   = and_then (train_np ops base perm m X D X_dev D_dev epochs a0 anneal back_steps batch_size mc)
       (\<lambda>r. Inr (fst r, with_log (l0 @ applied_rates (pass_updates (length X) batch_size)
                                        (history (snd r))) (snd r)))"
proof -
  let ?u = "pass_updates (length X) batch_size"
  let ?ls = "real (length D_dev)"
  let ?f = "\<lambda>st :: 'a train_state. with_log (l0 @ applied_rates ?u (history st)) st"
  let ?body = "train_np_epoch ops base perm X D X_dev D_dev ?ls a0 anneal back_steps batch_size mc"
  let ?body' = "train_np_epoch (recording_ops ops) (recording_base base) perm X D X_dev D_dev ?ls
                  a0 anneal back_steps batch_size mc"
  have loop: "for_loop_break (py_range epochs) ?body' (?f st)
                = and_then (for_loop_break (py_range epochs) ?body st) (\<lambda>st'. Inr (?f st'))" for st
    by (rule for_loop_break_recording) (rule train_np_epoch_recording [OF refl])
  note s = train_np_def Let_def compute_loss_np_recording compute_acc_np_recording
    recording_base_simps
  show ?thesis
  proof (cases "sum_over_dev (compute_loss_np ops m) X_dev D_dev")
    case (Inl e)
    then show ?thesis by (simp add: s)
  next
    case total: (Inr total)
    show ?thesis
    proof (cases "py_div total ?ls")
      case (Inl e)
      with total show ?thesis by (simp add: s)
    next
      case il: (Inr initial_loss)
      show ?thesis
      proof (cases "sum_over_dev (\<lambda>x d. and_then (compute_acc_np ops m x d)
                                        (\<lambda>a. Inr (real_of_int a))) X_dev D_dev")
        case (Inl e)
        with total il show ?thesis by (simp add: s)
      next
        case hits: (Inr hits)
        show ?thesis
        proof (cases "py_div hits (real (length X_dev))")
          case (Inl e)
          with total il hits show ?thesis by (simp add: s)
        next
          case acc: (Inr initial_acc)
          show ?thesis
          proof (cases "b_save_params base m")
            case (Inl e)
            with total il hits acc show ?thesis by (simp add: s)
          next
            case m0: (Inr m0)
            let ?st0 = "\<lparr>model = m0, prev_loss = initial_loss, min_change_count = - 1,
                   best_loss = initial_loss, best_epoch = 0, best_acc = None,
                   history = []\<rparr>"
            have init: "\<lparr>model = (m0, l0), prev_loss = initial_loss, min_change_count = - 1,
                   best_loss = initial_loss, best_epoch = 0, best_acc = None,
                   history = []\<rparr> = ?f ?st0"
              by (simp add: with_log_def applied_rates_simps)
            show ?thesis
            proof (cases "for_loop_break (py_range epochs) ?body ?st0")
              case (Inl e)
              with total il hits acc m0 loop [of ?st0] show ?thesis
                unfolding train_np_def Let_def
                by (simp add: compute_loss_np_recording compute_acc_np_recording
                      recording_base_simps init)
            next
              case st: (Inr st)
              show ?thesis
              proof (cases "best_acc st = None")
                case True
                with total il hits acc m0 st loop [of ?st0] show ?thesis
                  unfolding train_np_def Let_def
                  by (simp add: compute_loss_np_recording compute_acc_np_recording
                        recording_base_simps init with_log_simps)
              next
                case False
                then obtain a where False: "best_acc st = Some a" by auto
                show ?thesis
                proof (cases "b_set_best_params base (model st)")
                  case (Inl e)
                  with False total il hits acc m0 st loop [of ?st0] show ?thesis
                    unfolding train_np_def Let_def
                    by (simp add: compute_loss_np_recording compute_acc_np_recording
                          recording_base_simps init with_log_simps)
                next
                  case (Inr m')
                  with False total il hits acc m0 st loop [of ?st0] show ?thesis
                    unfolding train_np_def Let_def
                    by (simp add: compute_loss_np_recording compute_acc_np_recording
                          recording_base_simps init with_log_simps)
                qed
              qed
            qed
          qed
        qed
      qed
    qed
  qed
qed

lemma applied_rates_of_epochs:
  assumes "\<forall>i<length h. \<exists>loss. h ! i = (int i, rate i, loss)"
  shows "applied_rates u h = concat (map (\<lambda>i. replicate u (rate i)) [0 ..< length h])"
  using assms
proof (induction h rule: rev_induct)
  case Nil
  then show ?case by (simp add: applied_rates_def)
next
  case (snoc e h)
  from snoc.prems have "\<forall>i<length h. \<exists>loss. h ! i = (int i, rate i, loss)"
    by (auto simp: nth_append less_Suc_eq)
  from snoc.IH [OF this] have ih:
    "applied_rates u h = concat (map (\<lambda>i. replicate u (rate i)) [0 ..< length h])" .
  from snoc.prems [rule_format, of "length h"] obtain loss where
    "e = (int (length h), rate (length h), loss)" by auto
  with ih show ?case by (simp add: applied_rates_simps)
qed

lemma train_history_rates:
  assumes "train ops base perm m X D X_dev D_dev epochs a0 anneal back_steps batch_size mc = Inr r \<or>
           train_np ops base perm m X D X_dev D_dev epochs a0 anneal back_steps batch_size mc = Inr r"
  shows "\<forall>i<length (history (snd r)).
           \<exists>loss. history (snd r) ! i = (int i, epoch_learning_rate a0 anneal (int i), loss)"
  using assms
proof
  assume "train ops base perm m X D X_dev D_dev epochs a0 anneal back_steps batch_size mc = Inr r"
  from train_loop_of_result [OF this] obtain loss_sum st0 st1 where
    run: "for_loop_break (py_range epochs)
             (train_epoch ops base perm X D X_dev D_dev loss_sum a0 anneal back_steps
                batch_size mc) st0 = Inr st1"
    and init: "history st0 = []" and h: "history (snd r) = history st1"
    by blast
  have "\<forall>i<length (history st1).
         \<exists>loss. history st1 ! i = (int i, epoch_learning_rate a0 anneal (int i), loss)"
    by (rule epoch_loop_rates [OF _ run init]) (drule train_epoch_effect, blast)
  with h show ?thesis by simp
next
  assume "train_np ops base perm m X D X_dev D_dev epochs a0 anneal back_steps batch_size mc = Inr r"
  from train_np_loop_of_result [OF this] obtain loss_sum st0 st1 where
    run: "for_loop_break (py_range epochs)
             (train_np_epoch ops base perm X D X_dev D_dev loss_sum a0 anneal back_steps
                batch_size mc) st0 = Inr st1"
    and init: "history st0 = []" and h: "history (snd r) = history st1"
    by blast
  have "\<forall>i<length (history st1).
         \<exists>loss. history st1 ! i = (int i, epoch_learning_rate a0 anneal (int i), loss)"
    by (rule epoch_loop_rates [OF _ run init]) (drule train_np_epoch_effect, blast)
  with h show ?thesis by simp
qed

lemma epoch_learning_rate_nat:
  "epoch_learning_rate a0 anneal (int i)
     = (if 0 < anneal then a0 / ((real i + anneal) / anneal) else a0)"
  by (simp add: epoch_learning_rate_def)

lemma stub_rates:
  "concat (map (\<lambda>i. replicate (pass_updates (length [[0 :: int]]) 1)
                       (if (0::real) < 5 then (1/2) / ((real i + 5) / 5) else 1/2))
             [0 ..< length [(0 :: int, 1/2 :: real, 0 :: real), (1, 5/12, 0), (2, 5/14, 0), (3, 5/16, 0)]])
   = [1/2, 5/12, 5/14, 5/16]"
  by (simp add: pass_updates_def py_range_def eval_nat_numeral upt_rec [of 0] upt_rec [of "Suc 0"]
        upt_rec [of "Suc (Suc 0)"] upt_rec [of "Suc (Suc (Suc 0))"])

text \<open>
  Claim C8. The learning rate that \<open>train\<close> and \<open>train_np\<close> use during the epoch numbered
  \<open>i\<close> from 0 is \<open>a0 / ((i + anneal) / anneal)\<close> when \<open>anneal > 0\<close>, where \<open>a0\<close> is the
  \<open>learning_rate\<close> argument, and is \<open>a0\<close> otherwise, in particular when \<open>anneal = 0\<close>.
  The rate is used in the calls of \<open>apply_deltas\<close>, and the statement is about the
  arguments of these calls: whenever \<open>train\<close> (or \<open>train_np\<close>) returns a result \<open>r\<close> on
  a model, it returns on the recording model started with an empty list the same best
  loss and the same locals, and the list of the learning rates that \<open>apply_deltas\<close> has
  received, in the order of the calls, holds for each epoch \<open>i\<close> that ran, in order,
  the rate of epoch \<open>i\<close> once for each of the \<open>pass_updates (len(X)) batch_size\<close> updates
  of its pass, and nothing else. The same rate is the one reported for epoch \<open>i\<close>, the
  \<open>i\<close>-th entry of the history.
\<close>

theorem train_learning_rate:
  "(train ops base perm m X D X_dev D_dev epochs a0 anneal back_steps batch_size mc = Inr r \<longrightarrow>
      train (recording_ops ops) (recording_base base) perm (m, []) X D X_dev D_dev epochs a0
        anneal back_steps batch_size mc
      = Inr (fst r, with_log
               (concat (map (\<lambda>i. replicate (pass_updates (length X) batch_size)
                                   (if 0 < anneal then a0 / ((real i + anneal) / anneal) else a0))
                          [0 ..< length (history (snd r))])) (snd r))) \<and>
   (train_np ops base perm m X D X_dev D_dev epochs a0 anneal back_steps batch_size mc = Inr r \<longrightarrow>
      train_np (recording_ops ops) (recording_base base) perm (m, []) X D X_dev D_dev epochs a0
        anneal back_steps batch_size mc
      = Inr (fst r, with_log
               (concat (map (\<lambda>i. replicate (pass_updates (length X) batch_size)
                                   (if 0 < anneal then a0 / ((real i + anneal) / anneal) else a0))
                          [0 ..< length (history (snd r))])) (snd r))) \<and>
   (train ops base perm m X D X_dev D_dev epochs a0 anneal back_steps batch_size mc = Inr r \<or>
    train_np ops base perm m X D X_dev D_dev epochs a0 anneal back_steps batch_size mc = Inr r \<longrightarrow>
      (\<forall>i<length (history (snd r)).
         fst (history (snd r) ! i) = int i \<and>
         fst (snd (history (snd r) ! i))
           = (if 0 < anneal then a0 / ((real i + anneal) / anneal) else a0)))"
proof (intro conjI impI)
  assume run: "train ops base perm m X D X_dev D_dev epochs a0 anneal back_steps batch_size mc = Inr r"
  then have h: "\<forall>i<length (history (snd r)).
           \<exists>loss. history (snd r) ! i
                    = (int i, if 0 < anneal then a0 / ((real i + anneal) / anneal) else a0, loss)"
    using train_history_rates [of ops base perm m X D X_dev D_dev epochs a0 anneal back_steps
        batch_size mc r]
    by (simp add: epoch_learning_rate_nat)
  show "train (recording_ops ops) (recording_base base) perm (m, []) X D X_dev D_dev epochs a0
        anneal back_steps batch_size mc
      = Inr (fst r, with_log
               (concat (map (\<lambda>i. replicate (pass_updates (length X) batch_size)
                                   (if 0 < anneal then a0 / ((real i + anneal) / anneal) else a0))
                          [0 ..< length (history (snd r))])) (snd r))"
    by (simp add: train_recording run applied_rates_of_epochs [OF h])
next
  assume run: "train_np ops base perm m X D X_dev D_dev epochs a0 anneal back_steps batch_size mc = Inr r"
  then have h: "\<forall>i<length (history (snd r)).
           \<exists>loss. history (snd r) ! i
                    = (int i, if 0 < anneal then a0 / ((real i + anneal) / anneal) else a0, loss)"
    using train_history_rates [of ops base perm m X D X_dev D_dev epochs a0 anneal back_steps
        batch_size mc r]
    by (simp add: epoch_learning_rate_nat)
  show "train_np (recording_ops ops) (recording_base base) perm (m, []) X D X_dev D_dev epochs a0
        anneal back_steps batch_size mc
      = Inr (fst r, with_log
               (concat (map (\<lambda>i. replicate (pass_updates (length X) batch_size)
                                   (if 0 < anneal then a0 / ((real i + anneal) / anneal) else a0))
                          [0 ..< length (history (snd r))])) (snd r))"
    by (simp add: train_np_recording run applied_rates_of_epochs [OF h])
next
  assume "train ops base perm m X D X_dev D_dev epochs a0 anneal back_steps batch_size mc = Inr r \<or>
    train_np ops base perm m X D X_dev D_dev epochs a0 anneal back_steps batch_size mc = Inr r"
  from train_history_rates [OF this]
  have h: "\<forall>i<length (history (snd r)).
           \<exists>loss. history (snd r) ! i
                    = (int i, if 0 < anneal then a0 / ((real i + anneal) / anneal) else a0, loss)"
    by (simp add: epoch_learning_rate_nat)
  show "\<forall>i<length (history (snd r)).
         fst (history (snd r) ! i) = int i \<and>
         fst (snd (history (snd r) ! i))
           = (if 0 < anneal then a0 / ((real i + anneal) / anneal) else a0)"
  proof (intro allI impI)
    fix i assume "i < length (history (snd r))"
    with h obtain loss where "history (snd r) ! i
        = (int i, if 0 < anneal then a0 / ((real i + anneal) / anneal) else a0, loss)" by blast
    then show "fst (history (snd r) ! i) = int i \<and>
         fst (snd (history (snd r) ! i))
           = (if 0 < anneal then a0 / ((real i + anneal) / anneal) else a0)" by simp
  qed
qed

theorem train_learning_rate_witness:
  "train stub_ops stub_base (\<lambda>e. [0]) 0 [[0]] [[0]] [[0]] [[0]] 10 (1/2) 5 0 1 (1/10)
   = Inr (0, \<lparr>model = 4, prev_loss = 0, min_change_count = 3, best_loss = 0, best_epoch = 0,
              best_acc = None,
              history = [(0, 1/2, 0), (1, 5/12, 0), (2, 5/14, 0), (3, 5/16, 0)]\<rparr>) \<and>
   train (recording_ops stub_ops) (recording_base stub_base) (\<lambda>e. [0]) (0, []) [[0]] [[0]] [[0]]
     [[0]] 10 (1/2) 5 0 1 (1/10)
   = Inr (0, \<lparr>model = (4, [1/2, 5/12, 5/14, 5/16]), prev_loss = 0, min_change_count = 3,
              best_loss = 0, best_epoch = 0, best_acc = None,
              history = [(0, 1/2, 0), (1, 5/12, 0), (2, 5/14, 0), (3, 5/16, 0)]\<rparr>) \<and>
   train_np stub_ops stub_base (\<lambda>e. [0]) 0 [[0]] [[0]] [[0]] [[0]] 10 (1/2) 5 0 1 (1/10)
   = Inr (0, \<lparr>model = 4, prev_loss = 0, min_change_count = 3, best_loss = 0, best_epoch = 0,
              best_acc = Some 1,
              history = [(0, 1/2, 0), (1, 5/12, 0), (2, 5/14, 0), (3, 5/16, 0)]\<rparr>) \<and>
   train_np (recording_ops stub_ops) (recording_base stub_base) (\<lambda>e. [0]) (0, []) [[0]] [[0]]
     [[0]] [[0]] 10 (1/2) 5 0 1 (1/10)
   = Inr (0, \<lparr>model = (4, [1/2, 5/12, 5/14, 5/16]), prev_loss = 0, min_change_count = 3,
              best_loss = 0, best_epoch = 0, best_acc = Some 1,
              history = [(0, 1/2, 0), (1, 5/12, 0), (2, 5/14, 0), (3, 5/16, 0)]\<rparr>) \<and>
   (0::real) < 5 \<and> (5/12::real) = (1/2) / ((real 1 + 5) / 5) \<and>
   (5/14::real) = (1/2) / ((real 2 + 5) / 5) \<and> (5/16::real) = (1/2) / ((real 3 + 5) / 5) \<and>
   1 < length [(0 :: int, 1/2 :: real, 0 :: real), (1, 5/12, 0), (2, 5/14, 0), (3, 5/16, 0)] \<and>
   fst (snd ([(0 :: int, 1/2 :: real, 0 :: real), (1, 5/12, 0), (2, 5/14, 0), (3, 5/16, 0)] ! 1))
     = (1/2) / ((real 1 + 5) / 5)"
proof -
  let ?h = "[(0 :: int, 1/2 :: real, 0 :: real), (1, 5/12, 0), (2, 5/14, 0), (3, 5/16, 0)]"
  let ?r = "(0::real, \<lparr>model = 4::nat, prev_loss = 0, min_change_count = 3,
              best_loss = 0, best_epoch = 0, best_acc = None, history = ?h\<rparr>)"
  let ?r' = "(0::real, \<lparr>model = 4::nat, prev_loss = 0, min_change_count = 3,
              best_loss = 0, best_epoch = 0, best_acc = Some 1, history = ?h\<rparr>)"
  have a: "train stub_ops stub_base (\<lambda>e. [0]) 0 [[0]] [[0]] [[0]] [[0]] 10 (1/2) 5 0 1 (1/10)
             = Inr ?r"
    by (rule stub_train)
  have b: "train_np stub_ops stub_base (\<lambda>e. [0]) 0 [[0]] [[0]] [[0]] [[0]] 10 (1/2) 5 0 1 (1/10)
             = Inr ?r'"
    by (rule stub_train_np)
  from train_learning_rate [of stub_ops stub_base "\<lambda>e. [0]" 0 "[[0]]" "[[0]]" "[[0]]" "[[0]]"
      10 "1/2" 5 0 1 "1/10" ?r] a
  have "train (recording_ops stub_ops) (recording_base stub_base) (\<lambda>e. [0]) (0, []) [[0]] [[0]]
          [[0]] [[0]] 10 (1/2) 5 0 1 (1/10)
        = Inr (fst ?r, with_log
               (concat (map (\<lambda>i. replicate (pass_updates (length [[0 :: int]]) 1)
                                   (if (0::real) < 5 then (1/2) / ((real i + 5) / 5) else 1/2))
                          [0 ..< length (history (snd ?r))])) (snd ?r))"
    by (simp only: simp_thms)
  then have c: "train (recording_ops stub_ops) (recording_base stub_base) (\<lambda>e. [0]) (0, []) [[0]]
          [[0]] [[0]] [[0]] 10 (1/2) 5 0 1 (1/10)
        = Inr (0, \<lparr>model = (4, [1/2, 5/12, 5/14, 5/16]), prev_loss = 0, min_change_count = 3,
              best_loss = 0, best_epoch = 0, best_acc = None, history = ?h\<rparr>)"
    using stub_rates by (simp add: with_log_def)
  from train_learning_rate [of stub_ops stub_base "\<lambda>e. [0]" 0 "[[0]]" "[[0]]" "[[0]]" "[[0]]"
      10 "1/2" 5 0 1 "1/10" ?r'] b
  have "train_np (recording_ops stub_ops) (recording_base stub_base) (\<lambda>e. [0]) (0, []) [[0]] [[0]]
          [[0]] [[0]] 10 (1/2) 5 0 1 (1/10)
        = Inr (fst ?r', with_log
               (concat (map (\<lambda>i. replicate (pass_updates (length [[0 :: int]]) 1)
                                   (if (0::real) < 5 then (1/2) / ((real i + 5) / 5) else 1/2))
                          [0 ..< length (history (snd ?r'))])) (snd ?r'))"
    by (simp only: simp_thms)
  then have d: "train_np (recording_ops stub_ops) (recording_base stub_base) (\<lambda>e. [0]) (0, [])
          [[0]] [[0]] [[0]] [[0]] 10 (1/2) 5 0 1 (1/10)
        = Inr (0, \<lparr>model = (4, [1/2, 5/12, 5/14, 5/16]), prev_loss = 0, min_change_count = 3,
              best_loss = 0, best_epoch = 0, best_acc = Some 1, history = ?h\<rparr>)"
    using stub_rates by (simp add: with_log_def)
  have e: "(0::real) < 5" "(5/12::real) = (1/2) / ((real 1 + 5) / 5)"
    "(5/14::real) = (1/2) / ((real 2 + 5) / 5)" "(5/16::real) = (1/2) / ((real 3 + 5) / 5)"
    by simp_all
  have len: "1 < length ?h" by simp
  note h = conjunct2 [OF conjunct2 [OF train_learning_rate [of stub_ops stub_base "\<lambda>e. [0]" 0
      "[[0]]" "[[0]]" "[[0]]" "[[0]]" 10 "1/2" 5 0 1 "1/10" ?r]]]
  from h [rule_format, OF disjI1 [OF a], of 1] len
  have f: "fst (snd (?h ! 1)) = (1/2) / ((real 1 + 5) / 5)" by simp
  show ?thesis by (intro conjI) (rule a b c d e len f)+
qed

section \<open>The traces that predict returns\<close>

lemma for_loop_from_rule:
  assumes step: "\<And>k st. k < n \<Longrightarrow> P k st \<Longrightarrow> \<exists>st'. body (int k) st = Inr st' \<and> P (Suc k) st'"
  shows "j \<le> n \<Longrightarrow> P j st \<Longrightarrow> \<exists>st'. for_loop (map int [j ..< n]) body st = Inr st' \<and> P n st'"
proof (induction "n - j" arbitrary: j st)
  case 0
  then show ?case by simp
next
  case (Suc d)
  then have lt: "j < n" by simp
  from step [OF lt Suc.prems(2)] obtain st1 where
    b: "body (int j) st = Inr st1" and p: "P (Suc j) st1" by blast
  from Suc.hyps(2) have "d = n - Suc j" by simp
  from Suc.hyps(1) [OF this _ p] lt obtain st' where
    "for_loop (map int [Suc j ..< n]) body st1 = Inr st'" "P n st'" by auto
  with b lt show ?case by (simp add: upt_conv_Cons)
qed

lemma py_get_nat: "k < length xs \<Longrightarrow> py_get xs (int k) = Inr (xs ! k)"
  by (simp add: py_get_def)

lemma py_get_last: "xs \<noteq> [] \<Longrightarrow> py_get xs (- 1) = Inr (xs ! (length xs - 1))"
  by (cases xs) (simp_all add: py_get_def nat_add_distrib)

lemma is_mat_nth: "is_mat r c A \<Longrightarrow> i < r \<Longrightarrow> length (A ! i) = c"
  by (simp add: is_mat_def list_all_length)

lemma is_mat_update: "is_mat r c A \<Longrightarrow> length v = c \<Longrightarrow> is_mat r c (A[i := v])"
proof -
  assume A: "is_mat r c A" and v: "length v = c"
  have "length (A[i := v] ! n) = c" if "n < length A" for n
    using that A v by (cases "n = i") (simp_all add: is_mat_def list_all_length)
  with A show ?thesis by (simp add: is_mat_def list_all_length)
qed

lemma matvec_ok:
  "is_mat r c M \<Longrightarrow> length v = c \<Longrightarrow>
   matvec M v = Inr (map (\<lambda>row. sum_list (map2 (*) row v)) M)"
  by (simp add: matvec_def is_mat_def)

lemma make_onehot_ok:
  "0 \<le> i \<Longrightarrow> i < int n \<Longrightarrow> make_onehot i n = Inr ((zeros n)[nat i := 1])"
  by (simp add: make_onehot_def)

lemma sum_list_divide: "sum_list (map (\<lambda>a. f a / c) v) = sum_list (map f v) / (c::real)"
  by (induction v) (simp_all add: add_divide_distrib)

lemma sum_list_exp_pos: "v \<noteq> [] \<Longrightarrow> 0 < sum_list (map exp (v :: real list))"
proof (induction v)
  case Nil
  then show ?case by simp
next
  case (Cons a v)
  show ?case
  proof (cases "v = []")
    case True
    then show ?thesis by simp
  next
    case False
    with Cons.IH have "0 < sum_list (map exp v)" by simp
    moreover have "0 < exp a" by simp
    ultimately have "0 < exp a + sum_list (map exp v)" by (rule add_pos_pos [rotated])
    then show ?thesis by simp
  qed
qed

lemma softmax_distribution: "v \<noteq> [] \<Longrightarrow> is_distribution (softmax v)"
proof -
  assume ne: "v \<noteq> []"
  from sum_list_exp_pos [OF ne] have pos: "0 < sum_list (map exp v)" .
  have "sum_list (softmax v) = sum_list (map exp v) / sum_list (map exp v)"
    unfolding softmax_def by (rule sum_list_divide)
  with pos have "sum_list (softmax v) = 1" by simp
  moreover from pos have "list_all (\<lambda>p. 0 \<le> p) (softmax v)"
    by (simp add: softmax_def list_all_iff less_imp_le)
  ultimately show ?thesis by (simp add: is_distribution_def)
qed

lemma predict_body_step:
  assumes wf: "well_formed m" and tok: "\<forall>xi\<in>set x. 0 \<le> xi \<and> xi < int (vocab_size m)"
    and k: "k < length x" and inv: "predict_inv m (length x) k ys"
  shows "\<exists>ys'. predict_body m x (int k) ys = Inr ys' \<and> predict_inv m (length x) (Suc k) ys'"
proof -
  obtain y s where ys: "ys = (y, s)" by (cases ys)
  let ?n = "length x" and ?h = "hidden_dims m" and ?o = "out_vocab_size m"
  from inv ys have y: "is_mat ?n ?o y" and s: "is_mat (?n + 1) ?h s"
    and z: "s ! ?n = zeros ?h" and d: "\<forall>t<k. is_distribution (y ! t)"
    by (simp_all add: predict_inv_def)
  from wf have Um: "is_mat ?h ?h (U m)" and Vm: "is_mat ?h (vocab_size m) (V m)"
    and Wm: "is_mat ?o ?h (W m)" and opos: "0 < ?o"
    by (simp_all add: well_formed_def)
  from tok k have xk: "0 \<le> x ! k" "x ! k < int (vocab_size m)" by simp_all
  define one_hot_x where "one_hot_x = (zeros (vocab_size m))[nat (x ! k) := 1]"
  have oh: "make_onehot (x ! k) (vocab_size m) = Inr one_hot_x"
    using xk by (simp add: make_onehot_ok one_hot_x_def)
  have ohl: "length one_hot_x = vocab_size m" by (simp add: one_hot_x_def zeros_def)
  define vx where "vx = map (\<lambda>row. sum_list (map2 (*) row one_hot_x)) (V m)"
  have vx: "matvec (V m) one_hot_x = Inr vx" "length vx = ?h"
    using matvec_ok [OF Vm ohl] Vm by (simp_all add: vx_def is_mat_def)
  define s_prev where "s_prev = (if k = 0 then s ! ?n else s ! (k - 1))"
  have sl: "length s = ?n + 1" using s by (simp add: is_mat_def)
  have sp: "py_get s (int k - 1) = Inr s_prev"
  proof (cases "k = 0")
    case True
    from sl have "s \<noteq> []" by auto
    from py_get_last [OF this] sl True show ?thesis by (simp add: s_prev_def)
  next
    case False
    then have "int k - 1 = int (k - 1)" by simp
    moreover have "k - 1 < length s" using k sl by simp
    ultimately show ?thesis using False py_get_nat [of "k - 1" s] by (simp add: s_prev_def)
  qed
  have spl: "length s_prev = ?h"
    using is_mat_nth [OF s] k by (simp add: s_prev_def)
  define us where "us = map (\<lambda>row. sum_list (map2 (*) row s_prev)) (U m)"
  have us: "matvec (U m) s_prev = Inr us" "length us = ?h"
    using matvec_ok [OF Um spl] Um by (simp_all add: us_def is_mat_def)
  define net_in where "net_in = map2 (+) vx us"
  have ni: "vec_add vx us = Inr net_in" "length net_in = ?h"
    using vx us by (simp_all add: vec_add_def net_in_def)
  define s' where "s' = s[k := sigmoid net_in]"
  have sgl: "length (sigmoid net_in) = ?h" using ni by (simp add: sigmoid_def)
  have sr: "set_row s (int k) (sigmoid net_in) = Inr s'"
    using k sl sgl is_mat_nth [OF s, of k] by (simp add: set_row_def s'_def)
  have s'm: "is_mat (?n + 1) ?h s'" unfolding s'_def by (rule is_mat_update [OF s sgl])
  have st: "py_get s' (int k) = Inr (sigmoid net_in)"
    using k sl by (simp add: py_get_nat s'_def)
  define net_out where "net_out = map (\<lambda>row. sum_list (map2 (*) row (sigmoid net_in))) (W m)"
  have no: "matvec (W m) (sigmoid net_in) = Inr net_out" "length net_out = ?o"
    using matvec_ok [OF Wm sgl] Wm by (simp_all add: net_out_def is_mat_def)
  define y' where "y' = y[k := softmax net_out]"
  have sml: "length (softmax net_out) = ?o" using no by (simp add: softmax_def)
  have yl: "length y = ?n" using y by (simp add: is_mat_def)
  have yr: "set_row y (int k) (softmax net_out) = Inr y'"
    using k yl sml is_mat_nth [OF y, of k] by (simp add: set_row_def y'_def)
  have y'm: "is_mat ?n ?o y'" unfolding y'_def by (rule is_mat_update [OF y sml])
  have "net_out \<noteq> []" using no opos by auto
  then have dk: "is_distribution (softmax net_out)" by (rule softmax_distribution)
  have d': "\<forall>t<Suc k. is_distribution (y' ! t)"
    using d dk k yl by (auto simp: y'_def nth_list_update less_Suc_eq)
  have z': "s' ! ?n = zeros ?h" using z k by (simp add: s'_def)
  have "predict_body m x (int k) ys = Inr (y', s')"
    using k by (simp add: predict_body_def ys py_get_nat oh vx sp us ni sr st no yr)
  moreover have "predict_inv m ?n (Suc k) (y', s')"
    using y'm s'm z' d' by (simp add: predict_inv_def)
  ultimately show ?thesis by blast
qed

lemma predict_returns:
  assumes "well_formed m" and "x \<noteq> []" and "\<forall>xi\<in>set x. 0 \<le> xi \<and> xi < int (vocab_size m)"
  shows "\<exists>y s. predict m x = Inr (y, s) \<and>
           length y = length x \<and>
           (\<forall>t<length x. length (y ! t) = out_vocab_size m \<and> is_distribution (y ! t)) \<and>
           length s = length x + 1 \<and>
           py_get s (- 1) = Inr (zeros (hidden_dims m))"
proof -
  let ?n = "length x"
  have init: "predict_inv m ?n 0 (zeros2 ?n (out_vocab_size m), zeros2 (?n + 1) (hidden_dims m))"
    by (simp add: predict_inv_def is_mat_def zeros2_def zeros_def list_all_length nth_append
        del: replicate_Suc)
  from for_loop_from_rule [where P = "predict_inv m ?n" and body = "predict_body m x"
      and n = ?n and j = 0, OF predict_body_step [OF assms(1,3)] _ init]
  obtain ys where run: "predict m x = Inr ys" and inv: "predict_inv m ?n ?n ys"
    by (auto simp: predict_def py_range_def)
  obtain y s where ys: "ys = (y, s)" by (cases ys)
  from inv ys have y: "is_mat ?n (out_vocab_size m) y" and s: "is_mat (?n + 1) (hidden_dims m) s"
    and z: "s ! ?n = zeros (hidden_dims m)" and d: "\<forall>t<?n. is_distribution (y ! t)"
    by (simp_all add: predict_inv_def)
  from s have sl: "length s = ?n + 1" by (simp add: is_mat_def)
  then have "s \<noteq> []" by auto
  from py_get_last [OF this] sl z have "py_get s (- 1) = Inr (zeros (hidden_dims m))" by simp
  with run ys y sl d is_mat_nth [OF y] show ?thesis
    by (auto simp: is_mat_def)
qed

text \<open>
  Claim C5. For a well-formed network and a non-empty sequence \<open>x\<close> of tokens in
  \<open>[0, vocab_size)\<close>, \<open>predict\<close> returns an output trace \<open>y\<close> with \<open>len(x)\<close> rows, each
  of length \<open>out_vocab_size\<close>, with entries at least 0 and with sum 1 (over the reals,
  exactly), and a hidden trace \<open>s\<close> with \<open>len(x) + 1\<close> rows whose row \<open>s[-1]\<close>, the one read
  as \<open>s[t-1]\<close> at \<open>t = 0\<close>, is the zero vector. \<open>predict\<close> assigns to no attribute of
  \<open>self\<close>: its model takes the network and returns the two traces only.
\<close>

theorem predict_traces:
  assumes "well_formed m" and "x \<noteq> []" and "\<forall>xi\<in>set x. 0 \<le> xi \<and> xi < int (vocab_size m)"
  shows "\<exists>y s. predict m x = Inr (y, s) \<and>
           length y = length x \<and>
           (\<forall>t<length x. length (y ! t) = out_vocab_size m \<and> is_distribution (y ! t)) \<and>
           length s = length x + 1 \<and>
           py_get s (- 1) = Inr (zeros (hidden_dims m))"
  using assms by (rule predict_returns)

lemma well_formed_ex_rnn: "well_formed ex_rnn"
  by (simp add: well_formed_def is_mat_def ex_rnn_def)

theorem predict_traces_witness:
  "well_formed ex_rnn \<and> [0, 1] \<noteq> ([] :: int list) \<and>
   (0::int) \<le> 0 \<and> 0 < int (vocab_size ex_rnn) \<and> (0::int) \<le> 1 \<and> 1 < int (vocab_size ex_rnn) \<and>
   predict ex_rnn [0, 1] = Inr ([[1/2, 1/2], [1/2, 1/2]], [[1/2, 1/2], [1/2, 1/2], [0, 0]]) \<and>
   is_distribution [1/2, 1/2] \<and>
   py_get [[1/2, 1/2], [1/2, 1/2], [0, 0 :: real]] (- 1) = Inr [0, 0]"
proof -
  have ne: "[0, 1] \<noteq> ([] :: int list)" by simp
  have tok: "\<forall>xi\<in>set [0, 1]. 0 \<le> xi \<and> xi < int (vocab_size ex_rnn)"
    by (simp add: ex_rnn_def)
  from predict_traces [OF well_formed_ex_rnn ne tok] predict_ex_rnn_2
  have "is_distribution ([[1/2, 1/2], [1/2, 1/2]] ! 0) \<and>
        py_get [[1/2, 1/2], [1/2, 1/2], [0, 0 :: real]] (- 1) = Inr (zeros (hidden_dims ex_rnn))"
    by auto
  then have "is_distribution [1/2, 1/2] \<and>
        py_get [[1/2, 1/2], [1/2, 1/2], [0, 0 :: real]] (- 1) = Inr [0, 0]"
    by (simp add: ex_rnn_def zeros_def eval_nat_numeral)
  with well_formed_ex_rnn ne predict_ex_rnn_2 show ?thesis
    by (simp add: ex_rnn_def)
qed

section \<open>The loss of a sequence\<close>

lemma zero_dot: "sum_list (map2 (*) (replicate n (0::real)) v) = 0"
proof (induction v arbitrary: n)
  case Nil
  then show ?case by simp
next
  case (Cons a v)
  then show ?case by (cases n) simp_all
qed

lemma onehot_dot:
  "i < length v \<Longrightarrow> sum_list (map2 (*) ((replicate (length v) (0::real))[i := 1]) v) = v ! i"
proof (induction v arbitrary: i)
  case Nil
  then show ?case by simp
next
  case (Cons a v)
  then show ?case by (cases i) (simp_all add: zero_dot)
qed

lemma compute_loss_body_cases:
  assumes y: "is_mat n (out_vocab_size m) y" and j: "j < n" and d: "n \<le> length d"
  shows "compute_loss_body rnn_ops m d y (int j) loss =
           (if 0 \<le> d ! j \<and> d ! j < int (vocab_size m)
            then (if vocab_size m = out_vocab_size m
                  then Inr (loss - ln (y ! j ! nat (d ! j))) else Inl ValueError)
            else Inl DomainError)"
proof -
  from j d have dj: "py_get d (int j) = Inr (d ! j)" by (simp add: py_get_nat)
  from y j have yj: "py_get y (int j) = Inr (y ! j)" by (simp add: py_get_nat is_mat_def)
  from is_mat_nth [OF y j] have yl: "length (y ! j) = out_vocab_size m" .
  show ?thesis
  proof (cases "0 \<le> d ! j \<and> d ! j < int (vocab_size m)")
    case False
    then have "compute_loss_body rnn_ops m d y (int j) loss = Inl DomainError"
      by (auto simp: compute_loss_body_def rnn_ops_def dj make_onehot_def)
    then show ?thesis by (simp only: if_not_P [OF False])
  next
    case True
    then have oh: "make_onehot (d ! j) (vocab_size m) = Inr ((zeros (vocab_size m))[nat (d ! j) := 1])"
      by (simp add: make_onehot_def)
    show ?thesis
    proof (cases "vocab_size m = out_vocab_size m")
      case False
      with True yl show ?thesis
        by (simp add: compute_loss_body_def rnn_ops_def dj oh yj dot_def zeros_def)
    next
      case eq: True
      from True eq yl have i: "nat (d ! j) < length (map ln (y ! j))" by auto
      from onehot_dot [OF i] eq yl
      have "sum_list (map2 (*) ((zeros (vocab_size m))[nat (d ! j) := 1]) (map ln (y ! j)))
              = ln (y ! j ! nat (d ! j))"
        using i by (simp add: zeros_def)
      with True eq yl show ?thesis
        by (simp add: compute_loss_body_def rnn_ops_def dj make_onehot_def yj dot_def zeros_def)
    qed
  qed
qed

lemma for_loop_fails:
  assumes "i \<in> set js"
    and "\<And>st. \<exists>e\<in>E. body i st = Inl e"
    and "\<And>j st. j \<in> set js \<Longrightarrow> (\<exists>e\<in>E. body j st = Inl e) \<or> (\<exists>st'. body j st = Inr st')"
  shows "\<exists>e\<in>E. for_loop js body st = Inl e"
  using assms(1,3)
proof (induction js arbitrary: st)
  case Nil
  then show ?case by simp
next
  case (Cons j js)
  from Cons.prems(2) [of j st] have "(\<exists>e\<in>E. body j st = Inl e) \<or> (\<exists>st'. body j st = Inr st')"
    by simp
  then show ?case
  proof
    assume "\<exists>e\<in>E. body j st = Inl e"
    then show ?thesis by auto
  next
    assume "\<exists>st'. body j st = Inr st'"
    then obtain st' where b: "body j st = Inr st'" by blast
    with assms(2) [of st] have "i \<noteq> j" by auto
    with Cons.prems(1) have "i \<in> set js" by simp
    from Cons.IH [OF this] Cons.prems(2) have "\<exists>e\<in>E. for_loop js body st' = Inl e" by simp
    with b show ?thesis by simp
  qed
qed

lemma compute_loss_cases:
  assumes wf: "well_formed m" and tok: "\<forall>xi\<in>set x. 0 \<le> xi \<and> xi < int (vocab_size m)"
    and ne: "x \<noteq> []" and len: "length x \<le> length d"
  shows "(vocab_size m = out_vocab_size m \<and>
            (\<forall>t<length x. 0 \<le> d ! t \<and> d ! t < int (vocab_size m)) \<longrightarrow>
          (\<exists>y s. predict m x = Inr (y, s) \<and>
             compute_loss rnn_ops m x d = Inr (\<Sum>t<length x. - ln (y ! t ! nat (d ! t))))) \<and>
         (vocab_size m \<noteq> out_vocab_size m \<longrightarrow>
            compute_loss rnn_ops m x d \<in> {Inl ValueError, Inl DomainError}) \<and>
         ((\<exists>t<length x. int (vocab_size m) \<le> d ! t) \<longrightarrow>
            compute_loss rnn_ops m x d \<in> {Inl ValueError, Inl DomainError} \<and>
            (vocab_size m = out_vocab_size m \<longrightarrow> compute_loss rnn_ops m x d = Inl DomainError))"
proof -
  let ?n = "length x"
  from predict_returns [OF wf ne tok] obtain y s where
    p: "predict m x = Inr (y, s)" and yl: "length y = ?n"
    and rows: "\<forall>t<?n. length (y ! t) = out_vocab_size m \<and> is_distribution (y ! t)"
    by blast
  from yl rows have ym: "is_mat ?n (out_vocab_size m) y"
    by (simp add: is_mat_def list_all_length)
  have cl: "compute_loss rnn_ops m x d =
              for_loop (map int [0 ..< ?n]) (compute_loss_body rnn_ops m d y) 0"
    by (simp add: compute_loss_def rnn_ops_def p py_range_def)
  from ne have n0: "0 < ?n" by simp
  have part1: "\<exists>y s. predict m x = Inr (y, s) \<and>
             compute_loss rnn_ops m x d = Inr (\<Sum>t<?n. - ln (y ! t ! nat (d ! t)))"
    if eq: "vocab_size m = out_vocab_size m"
      and ok: "\<forall>t<?n. 0 \<le> d ! t \<and> d ! t < int (vocab_size m)"
  proof -
    have step: "\<exists>st'. compute_loss_body rnn_ops m d y (int k) st = Inr st' \<and>
                  st' = (\<Sum>t<Suc k. - ln (y ! t ! nat (d ! t)))"
      if "k < ?n" "st = (\<Sum>t<k. - ln (y ! t ! nat (d ! t)))" for k st
      using that ok eq by (simp add: compute_loss_body_cases [OF ym _ len])
    from for_loop_from_rule [where P = "\<lambda>k st. st = (\<Sum>t<k. - ln (y ! t ! nat (d ! t)))"
        and body = "compute_loss_body rnn_ops m d y" and n = ?n and j = 0 and st = 0, OF step]
    have a: "compute_loss rnn_ops m x d = Inr (\<Sum>t<?n. - ln (y ! t ! nat (d ! t)))"
      by (auto simp: cl)
    from p a show ?thesis by blast
  qed
  have every: "(\<exists>e\<in>{Inl ValueError, Inl DomainError :: error + real}.
                   compute_loss_body rnn_ops m d y j st = e) \<or>
               (\<exists>st'. compute_loss_body rnn_ops m d y j st = Inr st')"
    if "j \<in> set (map int [0 ..< ?n])" for j st
  proof -
    from that obtain k where "j = int k" "k < ?n" by auto
    then show ?thesis by (simp add: compute_loss_body_cases [OF ym _ len])
  qed
  have part2a: "compute_loss rnn_ops m x d \<in> {Inl ValueError, Inl DomainError}"
    if neq: "vocab_size m \<noteq> out_vocab_size m"
  proof -
    have "\<exists>e\<in>{ValueError, DomainError}.
            for_loop (map int [0 ..< ?n]) (compute_loss_body rnn_ops m d y) 0 = Inl e"
    proof (rule for_loop_fails [where i = 0])
      show "0 \<in> set (map int [0 ..< ?n])" using n0 by force
      show "\<exists>e\<in>{ValueError, DomainError}. compute_loss_body rnn_ops m d y 0 st = Inl e" for st
        using compute_loss_body_cases [OF ym n0 len, of st] neq by auto
      show "(\<exists>e\<in>{ValueError, DomainError}. compute_loss_body rnn_ops m d y j st = Inl e) \<or>
            (\<exists>st'. compute_loss_body rnn_ops m d y j st = Inr st')"
        if "j \<in> set (map int [0 ..< ?n])" for j st
        using every [OF that, of st] by auto
    qed
    then show ?thesis by (auto simp: cl)
  qed
  have part3a: "compute_loss rnn_ops m x d \<in> {Inl ValueError, Inl DomainError}"
    if bad: "\<exists>t<?n. int (vocab_size m) \<le> d ! t"
  proof -
    from bad obtain t where t: "t < ?n" "int (vocab_size m) \<le> d ! t" by blast
    have "\<exists>e\<in>{ValueError, DomainError}.
            for_loop (map int [0 ..< ?n]) (compute_loss_body rnn_ops m d y) 0 = Inl e"
    proof (rule for_loop_fails [where i = "int t"])
      show "int t \<in> set (map int [0 ..< ?n])" using t by simp
      show "\<exists>e\<in>{ValueError, DomainError}. compute_loss_body rnn_ops m d y (int t) st = Inl e" for st
        using compute_loss_body_cases [OF ym t(1) len, of st] t(2) by auto
      show "(\<exists>e\<in>{ValueError, DomainError}. compute_loss_body rnn_ops m d y j st = Inl e) \<or>
            (\<exists>st'. compute_loss_body rnn_ops m d y j st = Inr st')"
        if "j \<in> set (map int [0 ..< ?n])" for j st
        using every [OF that, of st] by auto
    qed
    then show ?thesis by (auto simp: cl)
  qed
  have part3b: "compute_loss rnn_ops m x d = Inl DomainError"
    if bad: "\<exists>t<?n. int (vocab_size m) \<le> d ! t" and eq: "vocab_size m = out_vocab_size m"
  proof -
    from bad obtain t where t: "t < ?n" "int (vocab_size m) \<le> d ! t" by blast
    have "\<exists>e\<in>{DomainError}.
            for_loop (map int [0 ..< ?n]) (compute_loss_body rnn_ops m d y) 0 = Inl e"
    proof (rule for_loop_fails [where i = "int t"])
      show "int t \<in> set (map int [0 ..< ?n])" using t by simp
      show "\<exists>e\<in>{DomainError}. compute_loss_body rnn_ops m d y (int t) st = Inl e" for st
        using compute_loss_body_cases [OF ym t(1) len, of st] t(2) by auto
      show "(\<exists>e\<in>{DomainError}. compute_loss_body rnn_ops m d y j st = Inl e) \<or>
            (\<exists>st'. compute_loss_body rnn_ops m d y j st = Inr st')"
        if "j \<in> set (map int [0 ..< ?n])" for j st
      proof -
        from that obtain k where "j = int k" "k < ?n" by auto
        then show ?thesis using eq by (simp add: compute_loss_body_cases [OF ym _ len])
      qed
    qed
    then show ?thesis by (auto simp: cl)
  qed
  from part1 part2a part3a part3b show ?thesis by blast
qed

lemma compute_loss_short_d:
  assumes "length d < length x"
  shows "\<exists>e. compute_loss ops m x d = Inl e"
proof (cases "m_predict ops m x")
  case (Inl e)
  then show ?thesis by (simp add: compute_loss_def)
next
  case (Inr ys)
  have "\<exists>e\<in>UNIV. for_loop (py_range (int (length x))) (compute_loss_body ops m d (fst ys)) 0 = Inl e"
  proof (rule for_loop_fails [where i = "int (length d)"])
    show "int (length d) \<in> set (py_range (int (length x)))"
      using assms by (simp add: py_range_def)
    show "\<exists>e\<in>UNIV. compute_loss_body ops m d (fst ys) (int (length d)) st = Inl e" for st
      by (simp add: compute_loss_body_def py_get_def)
    show "(\<exists>e\<in>UNIV. compute_loss_body ops m d (fst ys) j st = Inl e) \<or>
          (\<exists>st'. compute_loss_body ops m d (fst ys) j st = Inr st')" for j st
      by (cases "compute_loss_body ops m d (fst ys) j st") simp_all
  qed
  with Inr show ?thesis by (simp add: compute_loss_def)
qed

lemma compute_loss_np_cases:
  assumes wf: "well_formed m" and tok: "\<forall>xi\<in>set x. 0 \<le> xi \<and> xi < int (vocab_size m)"
    and ne: "x \<noteq> []"
  shows "(vocab_size m = out_vocab_size m \<and> d \<noteq> [] \<and> 0 \<le> d ! 0 \<and> d ! 0 < int (vocab_size m) \<longrightarrow>
          (\<exists>y s. predict m x = Inr (y, s) \<and>
             compute_loss_np rnn_ops m x d = Inr (- ln (y ! (length x - 1) ! nat (d ! 0))))) \<and>
         (vocab_size m \<noteq> out_vocab_size m \<and> d \<noteq> [] \<longrightarrow>
            compute_loss_np rnn_ops m x d \<in> {Inl ValueError, Inl DomainError}) \<and>
         (d \<noteq> [] \<and> int (vocab_size m) \<le> d ! 0 \<longrightarrow>
            compute_loss_np rnn_ops m x d = Inl DomainError) \<and>
         (d = [] \<longrightarrow> compute_loss_np rnn_ops m x d = Inl IndexError)"
proof -
  let ?n = "length x"
  from predict_returns [OF wf ne tok] obtain y s where
    p: "predict m x = Inr (y, s)" and yl: "length y = ?n"
    and rows: "\<forall>t<?n. length (y ! t) = out_vocab_size m \<and> is_distribution (y ! t)"
    by blast
  from ne have n0: "0 < ?n" by simp
  from n0 have "int ?n - 1 = int (?n - 1)" by (cases x) simp_all
  moreover from n0 yl have "?n - 1 < length y" by (cases x) simp_all
  ultimately have yt: "py_get y (int ?n - 1) = Inr (y ! (?n - 1))"
    using py_get_nat [of "?n - 1" y] by (simp only:)
  have ytl: "length (y ! (?n - 1)) = out_vocab_size m" using rows n0 by simp
  have empty: "compute_loss_np rnn_ops m x d = Inl IndexError" if "d = []"
    using that by (simp add: compute_loss_np_def rnn_ops_def p yt py_get_def)
  have np: "compute_loss_np rnn_ops m x d =
              and_then (make_onehot (d ! 0) (vocab_size m)) (\<lambda>one_hot_dt.
              and_then (dot one_hot_dt (map ln (y ! (?n - 1)))) (\<lambda>p. Inr (0 - p)))"
    if "d \<noteq> []"
  proof -
    from that have "0 < length d" by (cases d) auto
    from py_get_nat [OF this] have d0: "py_get d 0 = Inr (d ! 0)" by simp
    show ?thesis by (simp add: compute_loss_np_def rnn_ops_def p yt d0)
  qed
  have part1: "\<exists>y s. predict m x = Inr (y, s) \<and>
             compute_loss_np rnn_ops m x d = Inr (- ln (y ! (?n - 1) ! nat (d ! 0)))"
    if eq: "vocab_size m = out_vocab_size m" and dne: "d \<noteq> []"
      and d0ok: "0 \<le> d ! 0" "d ! 0 < int (vocab_size m)"
  proof -
    from d0ok have i: "nat (d ! 0) < length (map ln (y ! (?n - 1)))" using ytl eq by auto
    from onehot_dot [OF i] have
      "sum_list (map2 (*) ((zeros (vocab_size m))[nat (d ! 0) := 1]) (map ln (y ! (?n - 1))))
         = ln (y ! (?n - 1) ! nat (d ! 0))"
      using i ytl eq by (simp add: zeros_def)
    with d0ok ytl eq have "compute_loss_np rnn_ops m x d = Inr (- ln (y ! (?n - 1) ! nat (d ! 0)))"
      by (simp add: np [OF dne] make_onehot_def dot_def zeros_def)
    with p show ?thesis by blast
  qed
  have part2: "compute_loss_np rnn_ops m x d \<in> {Inl ValueError, Inl DomainError}"
    if neq: "vocab_size m \<noteq> out_vocab_size m" and dne: "d \<noteq> []"
    using neq ytl by (simp add: np [OF dne] make_onehot_def dot_def zeros_def)
  have part3: "compute_loss_np rnn_ops m x d = Inl DomainError"
    if "d \<noteq> []" "int (vocab_size m) \<le> d ! 0"
    using that by (simp add: np make_onehot_def)
  from part1 part2 part3 empty show ?thesis by blast
qed

lemma well_formed_ex_rnn3: "well_formed ex_rnn3"
  by (simp add: well_formed_def is_mat_def ex_rnn3_def ex_rnn_def)

text \<open>
  Claim C10. \<open>compute_loss\<close> and \<open>compute_loss_np\<close> build the one-hot vector of a desired
  index with the length \<open>vocab_size\<close> of the model, not with \<open>out_vocab_size\<close>. For a
  well-formed network, a non-empty sequence \<open>x\<close> of valid tokens and any list \<open>d\<close> of
  desired indices:
  \<^item> \<open>compute_loss\<close>, which reads \<open>d[t]\<close> at every position \<open>t\<close> of \<open>x\<close>: with a \<open>d\<close> at
    least as long as \<open>x\<close>, it returns the sum over \<open>t\<close> of \<open>-log y[t][d[t]]\<close> when the two
    sizes are equal and every \<open>d[t]\<close> is in \<open>[0, vocab_size)\<close>; it raises when the two
    sizes differ (the dot product of the one-hot vector with \<open>log y[t]\<close>, or the one-hot
    construction); it raises when some \<open>d[t]\<close> is at or above \<open>vocab_size\<close>, in the
    one-hot construction when the two sizes are equal. With a \<open>d\<close> shorter than \<open>x\<close> it
    raises.
  \<^item> \<open>compute_loss_np\<close>, which reads \<open>d[0]\<close> only, whatever the length of \<open>x\<close>: it returns
    \<open>-log y[len(x)-1][d[0]]\<close> when the two sizes are equal and \<open>d[0]\<close> is in
    \<open>[0, vocab_size)\<close>; it raises when the two sizes differ; a \<open>d[0]\<close> at or above
    \<open>vocab_size\<close> makes the one-hot construction fail, whatever the sizes; an empty \<open>d\<close>
    raises \<open>IndexError\<close>.
\<close>

theorem compute_loss_uses_vocab_size:
  assumes wf: "well_formed m" and tok: "\<forall>xi\<in>set x. 0 \<le> xi \<and> xi < int (vocab_size m)"
    and ne: "x \<noteq> []"
  shows "(length x \<le> length d \<longrightarrow>
           (vocab_size m = out_vocab_size m \<and>
              (\<forall>t<length x. 0 \<le> d ! t \<and> d ! t < int (vocab_size m)) \<longrightarrow>
            (\<exists>y s. predict m x = Inr (y, s) \<and>
               compute_loss rnn_ops m x d = Inr (\<Sum>t<length x. - ln (y ! t ! nat (d ! t))))) \<and>
           (vocab_size m \<noteq> out_vocab_size m \<longrightarrow>
              compute_loss rnn_ops m x d \<in> {Inl ValueError, Inl DomainError}) \<and>
           ((\<exists>t<length x. int (vocab_size m) \<le> d ! t) \<longrightarrow>
              compute_loss rnn_ops m x d \<in> {Inl ValueError, Inl DomainError} \<and>
              (vocab_size m = out_vocab_size m \<longrightarrow>
                 compute_loss rnn_ops m x d = Inl DomainError))) \<and>
         (length d < length x \<longrightarrow> (\<exists>e. compute_loss rnn_ops m x d = Inl e)) \<and>
         (vocab_size m = out_vocab_size m \<and> d \<noteq> [] \<and> 0 \<le> d ! 0 \<and> d ! 0 < int (vocab_size m) \<longrightarrow>
          (\<exists>y s. predict m x = Inr (y, s) \<and>
             compute_loss_np rnn_ops m x d = Inr (- ln (y ! (length x - 1) ! nat (d ! 0))))) \<and>
         (vocab_size m \<noteq> out_vocab_size m \<and> d \<noteq> [] \<longrightarrow>
            compute_loss_np rnn_ops m x d \<in> {Inl ValueError, Inl DomainError}) \<and>
         (d \<noteq> [] \<and> int (vocab_size m) \<le> d ! 0 \<longrightarrow>
            compute_loss_np rnn_ops m x d = Inl DomainError) \<and>
         (d = [] \<longrightarrow> compute_loss_np rnn_ops m x d = Inl IndexError)"
proof -
  note a = compute_loss_cases [OF wf tok ne]
  note b = compute_loss_short_d [of d x rnn_ops m]
  note c = compute_loss_np_cases [OF wf tok ne, of d]
  from a have a': "length x \<le> length d \<longrightarrow>
           (vocab_size m = out_vocab_size m \<and>
              (\<forall>t<length x. 0 \<le> d ! t \<and> d ! t < int (vocab_size m)) \<longrightarrow>
            (\<exists>y s. predict m x = Inr (y, s) \<and>
               compute_loss rnn_ops m x d = Inr (\<Sum>t<length x. - ln (y ! t ! nat (d ! t))))) \<and>
           (vocab_size m \<noteq> out_vocab_size m \<longrightarrow>
              compute_loss rnn_ops m x d \<in> {Inl ValueError, Inl DomainError}) \<and>
           ((\<exists>t<length x. int (vocab_size m) \<le> d ! t) \<longrightarrow>
              compute_loss rnn_ops m x d \<in> {Inl ValueError, Inl DomainError} \<and>
              (vocab_size m = out_vocab_size m \<longrightarrow>
                 compute_loss rnn_ops m x d = Inl DomainError))"
    by (rule impI)
  from b have b': "length d < length x \<longrightarrow> (\<exists>e. compute_loss rnn_ops m x d = Inl e)"
    by (rule impI)
  show ?thesis by (rule conjI [OF a' conjI [OF b' c]])
qed

theorem compute_loss_uses_vocab_size_witness:
  "well_formed ex_rnn \<and> well_formed ex_rnn3 \<and> [0, 1] \<noteq> ([] :: int list) \<and>
   vocab_size ex_rnn = out_vocab_size ex_rnn \<and>
   vocab_size ex_rnn3 \<noteq> out_vocab_size ex_rnn3 \<and>
   length [0, 1 :: int] \<le> length [0, 0 :: int] \<and>
   compute_loss rnn_ops ex_rnn [0, 1] [0, 0] = Inr (- ln (1/2) - ln (1/2)) \<and>
   int (vocab_size ex_rnn) \<le> [2, 0] ! 0 \<and>
   compute_loss rnn_ops ex_rnn [0, 1] [2, 0] = Inl DomainError \<and>
   (compute_loss rnn_ops ex_rnn3 [0, 1] [0, 0] = Inl ValueError \<or>
    compute_loss rnn_ops ex_rnn3 [0, 1] [0, 0] = Inl DomainError) \<and>
   length [0 :: int] < length [0, 1 :: int] \<and>
   isl (compute_loss rnn_ops ex_rnn [0, 1] [0]) \<and>
   [0] \<noteq> ([] :: int list) \<and> 0 \<le> [0 :: int] ! 0 \<and> [0] ! 0 < int (vocab_size ex_rnn) \<and>
   compute_loss_np rnn_ops ex_rnn [0, 1] [0] = Inr (- ln (1/2)) \<and>
   [2] \<noteq> ([] :: int list) \<and> int (vocab_size ex_rnn) \<le> [2] ! 0 \<and>
   compute_loss_np rnn_ops ex_rnn [0, 1] [2] = Inl DomainError \<and>
   (compute_loss_np rnn_ops ex_rnn3 [0, 1] [0] = Inl ValueError \<or>
    compute_loss_np rnn_ops ex_rnn3 [0, 1] [0] = Inl DomainError) \<and>
   compute_loss_np rnn_ops ex_rnn [0, 1] [] = Inl IndexError"
proof -
  have ne: "[0, 1] \<noteq> ([] :: int list)" by simp
  have tok: "\<forall>xi\<in>set [0, 1]. 0 \<le> xi \<and> xi < int (vocab_size ex_rnn)"
    by (simp add: ex_rnn_def)
  have tok3: "\<forall>xi\<in>set [0, 1]. 0 \<le> xi \<and> xi < int (vocab_size ex_rnn3)"
    by (simp add: ex_rnn3_def ex_rnn_def)
  have len: "length [0, 1 :: int] \<le> length [0, 0 :: int]" by simp
  have len2: "length [0, 1 :: int] \<le> length [2, 0 :: int]" by simp
  have short: "length [0 :: int] < length [0, 1 :: int]" by simp
  have eq: "vocab_size ex_rnn = out_vocab_size ex_rnn" by (simp add: ex_rnn_def)
  have neq: "vocab_size ex_rnn3 \<noteq> out_vocab_size ex_rnn3" by (simp add: ex_rnn3_def ex_rnn_def)
  have ok: "\<forall>t<length [0, 1 :: int]. 0 \<le> [0, 0 :: int] ! t \<and> [0, 0] ! t < int (vocab_size ex_rnn)"
    by (simp add: ex_rnn_def less_Suc_eq)
  have bad: "int (vocab_size ex_rnn) \<le> [2, 0] ! 0" by (simp add: ex_rnn_def)
  then have bad': "\<exists>t<length [0, 1 :: int]. int (vocab_size ex_rnn) \<le> [2, 0] ! t" by auto
  have one: "[0] \<noteq> ([] :: int list)" "0 \<le> [0 :: int] ! 0" "[0] ! 0 < int (vocab_size ex_rnn)"
    by (simp_all add: ex_rnn_def)
  have two: "[2] \<noteq> ([] :: int list)" "int (vocab_size ex_rnn) \<le> [2] ! 0"
    by (simp_all add: ex_rnn_def)
  from compute_loss_uses_vocab_size [OF well_formed_ex_rnn tok ne, of "[0, 0]"] len eq ok
  obtain y s where "predict ex_rnn [0, 1] = Inr (y, s)"
    "compute_loss rnn_ops ex_rnn [0, 1] [0, 0]
       = Inr (\<Sum>t<length [0, 1 :: int]. - ln (y ! t ! nat ([0, 0] ! t)))"
    by blast
  with predict_ex_rnn_2 have a:
    "compute_loss rnn_ops ex_rnn [0, 1] [0, 0] = Inr (- ln (1/2) - ln (1/2))"
    by (simp add: eval_nat_numeral)
  from compute_loss_uses_vocab_size [OF well_formed_ex_rnn tok ne, of "[2, 0]"] len2 eq bad'
  have c: "compute_loss rnn_ops ex_rnn [0, 1] [2, 0] = Inl DomainError"
    by blast
  from compute_loss_uses_vocab_size [OF well_formed_ex_rnn3 tok3 ne, of "[0, 0]"] len neq
  have b: "compute_loss rnn_ops ex_rnn3 [0, 1] [0, 0] = Inl ValueError \<or>
           compute_loss rnn_ops ex_rnn3 [0, 1] [0, 0] = Inl DomainError"
    by blast
  from compute_loss_uses_vocab_size [OF well_formed_ex_rnn tok ne, of "[0]"] short
  have "\<exists>e. compute_loss rnn_ops ex_rnn [0, 1] [0] = Inl e" by blast
  then have e: "isl (compute_loss rnn_ops ex_rnn [0, 1] [0])" by auto
  from compute_loss_uses_vocab_size [OF well_formed_ex_rnn tok ne, of "[0]"] eq one
  obtain y s where "predict ex_rnn [0, 1] = Inr (y, s)"
    "compute_loss_np rnn_ops ex_rnn [0, 1] [0]
       = Inr (- ln (y ! (length [0, 1 :: int] - 1) ! nat ([0] ! 0)))"
    by blast
  with predict_ex_rnn_2 have f:
    "compute_loss_np rnn_ops ex_rnn [0, 1] [0] = Inr (- ln (1/2))"
    by (simp add: eval_nat_numeral)
  from compute_loss_uses_vocab_size [OF well_formed_ex_rnn tok ne, of "[2]"] two
  have g: "compute_loss_np rnn_ops ex_rnn [0, 1] [2] = Inl DomainError"
    by blast
  from compute_loss_uses_vocab_size [OF well_formed_ex_rnn3 tok3 ne, of "[0]"] neq one(1)
  have h: "compute_loss_np rnn_ops ex_rnn3 [0, 1] [0] = Inl ValueError \<or>
           compute_loss_np rnn_ops ex_rnn3 [0, 1] [0] = Inl DomainError"
    by blast
  from compute_loss_uses_vocab_size [OF well_formed_ex_rnn tok ne, of "[]"]
  have i: "compute_loss_np rnn_ops ex_rnn [0, 1] [] = Inl IndexError"
    by blast
  from well_formed_ex_rnn well_formed_ex_rnn3 ne eq neq len a bad c b short e one f two g h i
  show ?thesis by blast
qed

section \<open>What acc\_deltas adds to the accumulators\<close>

lemma py_get_int_Inr: "py_get xs (int t) = Inr v \<Longrightarrow> t < length xs \<and> v = xs ! t"
  by (auto simp: py_get_def split: if_splits)

lemma py_get_prev_Inr: "py_get s (int t - 1) = Inr v \<Longrightarrow> v = hidden_before s t"
proof (cases t)
  case 0
  assume "py_get s (int t - 1) = Inr v"
  with 0 show ?thesis
    by (auto simp: py_get_def hidden_before_def nat_diff_distrib split: if_splits)
next
  case (Suc k)
  assume "py_get s (int t - 1) = Inr v"
  with Suc have "py_get s (int k) = Inr v" by simp
  from py_get_int_Inr [OF this] Suc show ?thesis by (simp add: hidden_before_def)
qed

lemma acc_deltas_body_effect:
  assumes "acc_deltas_body x d y s (int t) m = Inr m1"
  shows "m1 = m\<lparr>deltaW := mat_plus (deltaW m) (gainW m d y s t),
                deltaV := mat_plus (deltaV m) (gainV m x d y s t),
                deltaU := mat_plus (deltaU m) (gainU m d y s t)\<rparr> \<and>
         same_shape (deltaW m) (gainW m d y s t) \<and>
         same_shape (deltaV m) (gainV m x d y s t) \<and>
         same_shape (deltaU m) (gainU m d y s t)"
proof -
  from assms obtain dt one_hot_dt yt delta_out st dW wd delta_in xt one_hot_xt dV s_prev dU where
    a: "py_get d (int t) = Inr dt" "make_onehot dt (out_vocab_size m) = Inr one_hot_dt"
       "py_get y (int t) = Inr yt" "vec_sub one_hot_dt yt = Inr delta_out"
       "py_get s (int t) = Inr st" "mat_add (deltaW m) (outer delta_out st) = Inr dW"
       "dot_transpose (hidden_dims m) (W m) delta_out = Inr wd"
       "vec_mul wd (grad st) = Inr delta_in" "py_get x (int t) = Inr xt"
       "make_onehot xt (vocab_size m) = Inr one_hot_xt"
       "mat_add (deltaV m) (outer delta_in one_hot_xt) = Inr dV"
       "py_get s (int t - 1) = Inr s_prev"
       "mat_add (deltaU m) (outer delta_in s_prev) = Inr dU"
       "m1 = m\<lparr>deltaW := dW, deltaV := dV, deltaU := dU\<rparr>"
    unfolding acc_deltas_body_def and_then_eq_Inr by blast
  from a(1,3,5,9) have dt: "dt = d ! t" and yt: "yt = y ! t" and st: "st = s ! t" and xt: "xt = x ! t"
    by (auto dest: py_get_int_Inr)
  from a(12) have sp: "s_prev = hidden_before s t" by (rule py_get_prev_Inr)
  from a(2) dt have oh: "one_hot_dt = one_hot (d ! t) (out_vocab_size m)"
    by (auto simp: make_onehot_def one_hot_def split: if_splits)
  from a(10) xt have ohx: "one_hot_xt = one_hot (x ! t) (vocab_size m)"
    by (auto simp: make_onehot_def one_hot_def split: if_splits)
  from a(4) oh yt have de: "delta_out = output_error m d y t"
    by (auto simp: vec_sub_def output_error_def split: if_splits)
  from a(7) de have wd: "wd = transpose_times (hidden_dims m) (W m) (output_error m d y t)"
    by (auto simp: dot_transpose_def transpose_times_def split: if_splits)
  from a(8) wd st have di: "delta_in = hidden_error m d y s t"
    by (auto simp: vec_mul_def hidden_error_def split: if_splits)
  from a(6) de st have w: "dW = mat_plus (deltaW m) (gainW m d y s t)"
    "same_shape (deltaW m) (gainW m d y s t)"
    by (auto simp: mat_add_def mat_plus_def gainW_def split: if_splits)
  from a(11) di ohx have v: "dV = mat_plus (deltaV m) (gainV m x d y s t)"
    "same_shape (deltaV m) (gainV m x d y s t)"
    by (auto simp: mat_add_def mat_plus_def gainV_def split: if_splits)
  from a(13) di sp have u: "dU = mat_plus (deltaU m) (gainU m d y s t)"
    "same_shape (deltaU m) (gainU m d y s t)"
    by (auto simp: mat_add_def mat_plus_def gainU_def split: if_splits)
  from a(14) w v u show ?thesis by simp
qed


lemma same_shape_nth:
  "same_shape A B \<longleftrightarrow> length A = length B \<and> (\<forall>i<length A. length (A ! i) = length (B ! i))"
  by (auto simp: same_shape_def list_all2_conv_all_nth)

lemma mat_plus_nth:
  "same_shape A B \<Longrightarrow> i < length A \<Longrightarrow> j < length (A ! i) \<Longrightarrow>
   mat_plus A B ! i ! j = A ! i ! j + B ! i ! j"
  by (simp add: same_shape_nth mat_plus_def)

lemma mat_plus_shape:
  "same_shape A B \<Longrightarrow> length (mat_plus A B) = length A \<and>
     (\<forall>i<length A. length (mat_plus A B ! i) = length (A ! i))"
  by (simp add: same_shape_nth mat_plus_def)

lemma same_shape_mat_plus:
  "same_shape A B \<Longrightarrow> same_shape (mat_plus A B) C \<Longrightarrow> same_shape A C"
  using mat_plus_shape [of A B] by (simp add: same_shape_nth)

lemma gains_frame:
  "gainW (m\<lparr>deltaW := a, deltaV := b, deltaU := c\<rparr>) d y s = gainW m d y s"
  "gainV (m\<lparr>deltaW := a, deltaV := b, deltaU := c\<rparr>) x d y s = gainV m x d y s"
  "gainU (m\<lparr>deltaW := a, deltaV := b, deltaU := c\<rparr>) d y s = gainU m d y s"
  by (simp_all add: gainW_def gainV_def gainU_def output_error_def hidden_error_def fun_eq_iff)

lemma acc_deltas_loop:
  assumes "for_loop (map int ts) (acc_deltas_body x d y s) m = Inr m'"
  shows "m' = m\<lparr>deltaW := foldl mat_plus (deltaW m) (map (gainW m d y s) ts),
                deltaV := foldl mat_plus (deltaV m) (map (gainV m x d y s) ts),
                deltaU := foldl mat_plus (deltaU m) (map (gainU m d y s) ts)\<rparr> \<and>
         list_all (same_shape (deltaW m)) (map (gainW m d y s) ts) \<and>
         list_all (same_shape (deltaV m)) (map (gainV m x d y s) ts) \<and>
         list_all (same_shape (deltaU m)) (map (gainU m d y s) ts)"
  using assms
proof (induction ts arbitrary: m)
  case Nil
  then show ?case by simp
next
  case (Cons t ts)
  from Cons.prems obtain m1 where
    b: "acc_deltas_body x d y s (int t) m = Inr m1" and
    r: "for_loop (map int ts) (acc_deltas_body x d y s) m1 = Inr m'"
    by (auto split: sum.splits)
  note e = acc_deltas_body_effect [OF b]
  from e have m1: "m1 = m\<lparr>deltaW := mat_plus (deltaW m) (gainW m d y s t),
                deltaV := mat_plus (deltaV m) (gainV m x d y s t),
                deltaU := mat_plus (deltaU m) (gainU m d y s t)\<rparr>" by simp
  have g: "gainW m1 d y s = gainW m d y s" "gainV m1 x d y s = gainV m x d y s"
    "gainU m1 d y s = gainU m d y s"
    unfolding m1 by (rule gains_frame)+
  note ih = Cons.IH [OF r, unfolded g]
  have dW: "deltaW m1 = mat_plus (deltaW m) (gainW m d y s t)"
    and dV: "deltaV m1 = mat_plus (deltaV m) (gainV m x d y s t)"
    and dU: "deltaU m1 = mat_plus (deltaU m) (gainU m d y s t)"
    by (simp_all add: m1)
  from ih have "m' = m1\<lparr>deltaW := foldl mat_plus (deltaW m1) (map (gainW m d y s) ts),
                deltaV := foldl mat_plus (deltaV m1) (map (gainV m x d y s) ts),
                deltaU := foldl mat_plus (deltaU m1) (map (gainU m d y s) ts)\<rparr>" by simp
  then have eq: "m' = m\<lparr>deltaW := foldl mat_plus (deltaW m) (map (gainW m d y s) (t # ts)),
                deltaV := foldl mat_plus (deltaV m) (map (gainV m x d y s) (t # ts)),
                deltaU := foldl mat_plus (deltaU m) (map (gainU m d y s) (t # ts))\<rparr>"
    unfolding dW dV dU by (simp add: m1)
  from ih e have "list_all (same_shape (deltaW m)) (map (gainW m d y s) ts)"
    unfolding dW by (auto simp: list_all_iff intro: same_shape_mat_plus)
  moreover from ih e have "list_all (same_shape (deltaV m)) (map (gainV m x d y s) ts)"
    unfolding dV by (auto simp: list_all_iff intro: same_shape_mat_plus)
  moreover from ih e have "list_all (same_shape (deltaU m)) (map (gainU m d y s) ts)"
    unfolding dU by (auto simp: list_all_iff intro: same_shape_mat_plus)
  ultimately show ?case using eq e by simp
qed

lemma foldl_mat_plus_nth:
  "list_all (same_shape A) Bs \<Longrightarrow> i < length A \<Longrightarrow> j < length (A ! i) \<Longrightarrow>
   foldl mat_plus A Bs ! i ! j = A ! i ! j + sum_list (map (\<lambda>B. B ! i ! j) Bs)"
proof (induction Bs arbitrary: A)
  case Nil
  then show ?case by simp
next
  case (Cons B Bs)
  from Cons.prems(1) have AB: "same_shape A B" and rest: "list_all (same_shape A) Bs" by simp_all
  from mat_plus_shape [OF AB] have sh: "length (mat_plus A B) = length A"
    "\<forall>i<length A. length (mat_plus A B ! i) = length (A ! i)" by simp_all
  have "list_all (same_shape (mat_plus A B)) Bs"
    using rest sh by (auto simp: list_all_iff same_shape_nth)
  from Cons.IH [OF this] Cons.prems(2,3) sh
  have "foldl mat_plus (mat_plus A B) Bs ! i ! j
          = mat_plus A B ! i ! j + sum_list (map (\<lambda>B. B ! i ! j) Bs)" by simp
  with mat_plus_nth [OF AB Cons.prems(2,3)] show ?case by simp
qed

lemma outer_nth: "i < length a \<Longrightarrow> j < length b \<Longrightarrow> outer a b ! i ! j = a ! i * b ! j"
  by (simp add: outer_def)

lemma same_shape_outer:
  "same_shape A (outer a b) \<Longrightarrow> i < length A \<Longrightarrow> j < length (A ! i) \<Longrightarrow>
   i < length a \<and> j < length b"
  by (auto simp: same_shape_nth outer_def)

lemma sum_list_rev_upt: "sum_list (map f (rev [0 ..< n])) = (\<Sum>t<n. (f t :: real))"
  by (induction n) simp_all

lemma foldl_gain_nth:
  assumes sh: "list_all (same_shape A) (map (\<lambda>t. outer (a t) (b t)) (rev [0 ..< n]))"
    and i: "i < length A" and j: "j < length (A ! i)"
  shows "foldl mat_plus A (map (\<lambda>t. outer (a t) (b t)) (rev [0 ..< n])) ! i ! j
           = A ! i ! j + (\<Sum>t<n. a t ! i * b t ! j)"
proof -
  have "map (\<lambda>B. B ! i ! j) (map (\<lambda>t. outer (a t) (b t)) (rev [0 ..< n]))
          = map (\<lambda>t. a t ! i * b t ! j) (rev [0 ..< n])"
    unfolding map_map
  proof (rule map_cong [OF refl])
    fix t assume "t \<in> set (rev [0 ..< n])"
    with sh have "same_shape A (outer (a t) (b t))" by (auto simp: list_all_iff)
    from same_shape_outer [OF this i j]
    show "((\<lambda>B. B ! i ! j) \<circ> (\<lambda>t. outer (a t) (b t))) t = a t ! i * b t ! j"
      by (simp add: outer_nth)
  qed
  with foldl_mat_plus_nth [OF sh i j] show ?thesis by (simp add: sum_list_rev_upt)
qed

lemma acc_deltas_body_U:
  "acc_deltas_body x d y s t (m\<lparr>U := U'\<rparr>)
     = and_then (acc_deltas_body x d y s t m) (\<lambda>r. Inr (r\<lparr>U := U'\<rparr>))"
  by (auto simp: acc_deltas_body_def and_then_def split: sum.splits)

lemma acc_deltas_loop_U:
  "for_loop ts (acc_deltas_body x d y s) (m\<lparr>U := U'\<rparr>)
     = and_then (for_loop ts (acc_deltas_body x d y s) m) (\<lambda>r. Inr (r\<lparr>U := U'\<rparr>))"
proof (induction ts arbitrary: m)
  case Nil
  then show ?case by simp
next
  case (Cons t ts)
  show ?case
  proof (cases "acc_deltas_body x d y s t m")
    case (Inl e)
    then show ?thesis by (simp add: acc_deltas_body_U)
  next
    case (Inr m1)
    then show ?thesis by (simp add: acc_deltas_body_U Cons.IH)
  qed
qed

text \<open>
  Claim C4. A call of \<open>acc_deltas\<close> that returns has gone through the timesteps
  \<open>t = len(x)-1\<close> down to \<open>0\<close> and has added, never assigned: the result is the network
  of \<open>acc_deltas_spec\<close>. Entry by entry, \<open>deltaW\<close> has gained the sum over \<open>t\<close> of the
  outer product of \<open>one_hot(d[t]) - y[t]\<close> with \<open>s[t]\<close>; \<open>deltaV\<close> the sum of the outer
  products of the hidden error (the transpose of \<open>W\<close> applied to the output error, times
  the sigmoid gradient at \<open>s[t]\<close>) with \<open>one_hot(x[t])\<close>; \<open>deltaU\<close> the sum of the outer
  products of the hidden error with \<open>s[t-1]\<close>. The hidden-to-hidden matrix \<open>U\<close> plays no
  part: the same call on the network with any other \<open>U\<close> returns the same accumulators.
\<close>

theorem acc_deltas_adds:
  assumes "acc_deltas m x d y s = Inr m'"
  shows "m' = acc_deltas_spec m x d y s \<and>
         (\<forall>i j. i < length (deltaW m) \<and> j < length (deltaW m ! i) \<longrightarrow>
            deltaW m' ! i ! j = deltaW m ! i ! j +
              (\<Sum>t<length x. output_error m d y t ! i * s ! t ! j)) \<and>
         (\<forall>i j. i < length (deltaV m) \<and> j < length (deltaV m ! i) \<longrightarrow>
            deltaV m' ! i ! j = deltaV m ! i ! j +
              (\<Sum>t<length x. hidden_error m d y s t ! i * one_hot (x ! t) (vocab_size m) ! j)) \<and>
         (\<forall>i j. i < length (deltaU m) \<and> j < length (deltaU m ! i) \<longrightarrow>
            deltaU m' ! i ! j = deltaU m ! i ! j +
              (\<Sum>t<length x. hidden_error m d y s t ! i * hidden_before s t ! j)) \<and>
         (\<forall>U'. acc_deltas (m\<lparr>U := U'\<rparr>) x d y s = Inr (m'\<lparr>U := U'\<rparr>))"
proof -
  let ?ts = "rev [0 ..< length x]"
  from assms have run: "for_loop (map int ?ts) (acc_deltas_body x d y s) m = Inr m'"
    by (simp add: acc_deltas_def py_range_def rev_map)
  note l = acc_deltas_loop [OF run]
  from l have spec: "m' = acc_deltas_spec m x d y s" by (simp add: acc_deltas_spec_def)
  from l have shW: "list_all (same_shape (deltaW m))
      (map (\<lambda>t. outer (output_error m d y t) (s ! t)) ?ts)"
    and shV: "list_all (same_shape (deltaV m))
      (map (\<lambda>t. outer (hidden_error m d y s t) (one_hot (x ! t) (vocab_size m))) ?ts)"
    and shU: "list_all (same_shape (deltaU m))
      (map (\<lambda>t. outer (hidden_error m d y s t) (hidden_before s t)) ?ts)"
    by (simp_all add: gainW_def [abs_def] gainV_def [abs_def] gainU_def [abs_def])
  have w: "deltaW m' ! i ! j = deltaW m ! i ! j +
              (\<Sum>t<length x. output_error m d y t ! i * s ! t ! j)"
    if "i < length (deltaW m)" "j < length (deltaW m ! i)" for i j
    using foldl_gain_nth [OF shW that] spec
    by (simp add: acc_deltas_spec_def gainW_def [abs_def])
  have v: "deltaV m' ! i ! j = deltaV m ! i ! j +
              (\<Sum>t<length x. hidden_error m d y s t ! i * one_hot (x ! t) (vocab_size m) ! j)"
    if "i < length (deltaV m)" "j < length (deltaV m ! i)" for i j
    using foldl_gain_nth [OF shV that] spec
    by (simp add: acc_deltas_spec_def gainV_def [abs_def])
  have u: "deltaU m' ! i ! j = deltaU m ! i ! j +
              (\<Sum>t<length x. hidden_error m d y s t ! i * hidden_before s t ! j)"
    if "i < length (deltaU m)" "j < length (deltaU m ! i)" for i j
    using foldl_gain_nth [OF shU that] spec
    by (simp add: acc_deltas_spec_def gainU_def [abs_def])
  have indep: "acc_deltas (m\<lparr>U := U'\<rparr>) x d y s = Inr (m'\<lparr>U := U'\<rparr>)" for U'
    using assms by (simp add: acc_deltas_def acc_deltas_loop_U)
  from spec w v u indep show ?thesis by blast
qed


theorem acc_deltas_adds_witness:
  "acc_deltas ex_rnn [0, 1] [0, 0] [[1/2, 1/2], [1/2, 1/2]] [[1/2, 1/2], [1/2, 1/2], [0, 0]]
     = Inr (ex_rnn\<lparr>deltaU := [[81/16, 81/16], [79/16, 79/16]],
                    deltaV := [[57/8, 57/8], [55/8, 55/8]],
                    deltaW := [[19/2, 19/2], [17/2, 17/2]]\<rparr>) \<and>
   ex_rnn\<lparr>deltaU := [[81/16, 81/16], [79/16, 79/16]],
           deltaV := [[57/8, 57/8], [55/8, 55/8]],
           deltaW := [[19/2, 19/2], [17/2, 17/2]]\<rparr>
     = acc_deltas_spec ex_rnn [0, 1] [0, 0] [[1/2, 1/2], [1/2, 1/2]]
         [[1/2, 1/2], [1/2, 1/2], [0, 0]] \<and>
   (19/2 :: real) = 9 + (\<Sum>t<length [0, 1 :: int].
       output_error ex_rnn [0, 0] [[1/2, 1/2], [1/2, 1/2]] t ! 0 *
       [[1/2, 1/2], [1/2, 1/2], [0, 0]] ! t ! 0) \<and>
   acc_deltas (ex_rnn\<lparr>U := [[0, 0], [0, 0]]\<rparr>) [0, 1] [0, 0] [[1/2, 1/2], [1/2, 1/2]]
       [[1/2, 1/2], [1/2, 1/2], [0, 0]]
     = Inr (ex_rnn\<lparr>deltaU := [[81/16, 81/16], [79/16, 79/16]],
                    deltaV := [[57/8, 57/8], [55/8, 55/8]],
                    deltaW := [[19/2, 19/2], [17/2, 17/2]], U := [[0, 0], [0, 0]]\<rparr>)"
proof -
  let ?m' = "ex_rnn\<lparr>deltaU := [[81/16, 81/16], [79/16, 79/16]],
                    deltaV := [[57/8, 57/8], [55/8, 55/8]],
                    deltaW := [[19/2, 19/2], [17/2, 17/2]]\<rparr>"
  note t = acc_deltas_adds [OF acc_deltas_ex]
  from t have a: "?m' = acc_deltas_spec ex_rnn [0, 1] [0, 0] [[1/2, 1/2], [1/2, 1/2]]
         [[1/2, 1/2], [1/2, 1/2], [0, 0]]" by blast
  have i: "0 < length (deltaW ex_rnn) \<and> 0 < length (deltaW ex_rnn ! 0)"
    by (simp add: ex_rnn_def)
  with t have "deltaW ?m' ! 0 ! 0 = deltaW ex_rnn ! 0 ! 0 + (\<Sum>t<length [0, 1 :: int].
       output_error ex_rnn [0, 0] [[1/2, 1/2], [1/2, 1/2]] t ! 0 *
       [[1/2, 1/2], [1/2, 1/2], [0, 0]] ! t ! 0)" by blast
  then have b: "(19/2 :: real) = 9 + (\<Sum>t<length [0, 1 :: int].
       output_error ex_rnn [0, 0] [[1/2, 1/2], [1/2, 1/2]] t ! 0 *
       [[1/2, 1/2], [1/2, 1/2], [0, 0]] ! t ! 0)"
    by (simp add: ex_rnn_def)
  from t have c: "acc_deltas (ex_rnn\<lparr>U := [[0, 0], [0, 0]]\<rparr>) [0, 1] [0, 0]
       [[1/2, 1/2], [1/2, 1/2]] [[1/2, 1/2], [1/2, 1/2], [0, 0]]
     = Inr (?m'\<lparr>U := [[0, 0], [0, 0]]\<rparr>)" by blast
  show ?thesis by (intro conjI) (rule acc_deltas_ex a b c)+
qed

section \<open>The unrolling depth of acc\_deltas\_bptt\_np\<close>

lemma for_loop_trace:
  "for_loop js body st = Inr st' \<Longrightarrow>
   \<exists>sts. length sts = Suc (length js) \<and> sts ! 0 = st \<and> sts ! length js = st' \<and>
         (\<forall>i<length js. body (js ! i) (sts ! i) = Inr (sts ! Suc i))"
proof (induction js arbitrary: st)
  case Nil
  then have "length [st] = Suc (length ([] :: 'a list)) \<and> [st] ! 0 = st \<and> [st] ! length ([] :: 'a list) = st'"
    by simp
  then show ?case by (intro exI [of _ "[st]"]) simp
next
  case (Cons j js)
  from Cons.prems obtain st1 where
    b: "body j st = Inr st1" and r: "for_loop js body st1 = Inr st'"
    by (auto split: sum.splits)
  from Cons.IH [OF r] obtain sts where
    s: "length sts = Suc (length js)" "sts ! 0 = st1" "sts ! length js = st'"
       "\<forall>i<length js. body (js ! i) (sts ! i) = Inr (sts ! Suc i)"
    by blast
  have "\<forall>i<length (j # js). body ((j # js) ! i) ((st # sts) ! i) = Inr ((st # sts) ! Suc i)"
  proof (intro allI impI)
    fix i assume "i < length (j # js)"
    then show "body ((j # js) ! i) ((st # sts) ! i) = Inr ((st # sts) ! Suc i)"
      using b s by (cases i) simp_all
  qed
  with s show ?case by (intro exI [of _ "st # sts"]) simp
qed

lemma bptt_np_range_upt: "bptt_np_range x steps = map int [0 ..< bptt_np_depth x steps]"
  by (simp add: bptt_np_range_def py_range_def bptt_np_depth_def)

lemma bptt_np_depth_bound: "k < bptt_np_depth x steps \<Longrightarrow> Suc (Suc k) \<le> length x"
  by (simp add: bptt_np_depth_def)

lemma bptt_np_frame:
  "bptt_np_error (m\<lparr>deltaW := a\<rparr>) x d y s k = bptt_np_error m x d y s k"
  "bptt_np_error (m\<lparr>deltaV := b, deltaU := c\<rparr>) x d y s k = bptt_np_error m x d y s k"
  by (induction k) simp_all

lemma bptt_body_effect:
  assumes run: "bptt_body x s (int T) (int k) (m, e) = Inr (m1, e1)" and k: "k < T"
  defines "g \<equiv> (if k = 0 then e
                 else map2 (*) (transpose_times (hidden_dims m) (U m) e) (grad (s ! (T - k))))"
  shows "e1 = g \<and>
         m1 = m\<lparr>deltaV := mat_plus (deltaV m) (outer g (one_hot (x ! (T - k)) (vocab_size m))),
                deltaU := mat_plus (deltaU m) (outer g (s ! (T - k - 1)))\<rparr>"
proof -
  from k have i1: "int T - int k = int (T - k)" and i2: "int (T - k) - 1 = int (T - k - 1)"
    and i3: "int T - 1 = int (T - 1)" by simp_all
  from run obtain xt one_hot_xt ud s_cur delta_in_T where
    a: "py_get x (int (T - k)) = Inr xt" "make_onehot xt (vocab_size m) = Inr one_hot_xt"
       "dot_transpose (hidden_dims m) (U m) e = Inr ud" "py_get s (int (T - k)) = Inr s_cur"
       "vec_mul ud (grad s_cur) = Inr delta_in_T"
    and rest: "(if int k = 0 then
        and_then (mat_add (deltaV m) (outer e one_hot_xt)) (\<lambda>dV.
        and_then (py_get s (int (T - 1))) (\<lambda>s_prev.
        and_then (mat_add (deltaU m) (outer e s_prev)) (\<lambda>dU.
        Inr (m\<lparr>deltaV := dV, deltaU := dU\<rparr>, e))))
      else
        and_then (mat_add (deltaV m) (outer delta_in_T one_hot_xt)) (\<lambda>dV.
        and_then (py_get s (int (T - k - 1))) (\<lambda>s_prev.
        and_then (mat_add (deltaU m) (outer delta_in_T s_prev)) (\<lambda>dU.
        Inr (m\<lparr>deltaV := dV, deltaU := dU\<rparr>, delta_in_T))))) = Inr (m1, e1)"
    unfolding bptt_body_def prod.case and_then_eq_Inr i1 i2 i3 by blast
  from a(1,4) have xt: "xt = x ! (T - k)" and sc: "s_cur = s ! (T - k)"
    by (auto dest: py_get_int_Inr)
  from a(2) xt have ohx: "one_hot_xt = one_hot (x ! (T - k)) (vocab_size m)"
    by (auto simp: make_onehot_def one_hot_def split: if_splits)
  from a(3) have ud: "ud = transpose_times (hidden_dims m) (U m) e"
    by (auto simp: dot_transpose_def transpose_times_def split: if_splits)
  from a(5) ud sc have dT: "delta_in_T = map2 (*) (transpose_times (hidden_dims m) (U m) e) (grad (s ! (T - k)))"
    by (auto simp: vec_mul_def split: if_splits)
  show ?thesis
  proof (cases "k = 0")
    case True
    with rest obtain dV s_prev dU where
      b: "mat_add (deltaV m) (outer e one_hot_xt) = Inr dV" "py_get s (int (T - 1)) = Inr s_prev"
         "mat_add (deltaU m) (outer e s_prev) = Inr dU"
         "m1 = m\<lparr>deltaV := dV, deltaU := dU\<rparr>" "e1 = e"
      by (auto simp: and_then_eq_Inr)
    from b(2) have sp: "s_prev = s ! (T - 1)" by (auto dest: py_get_int_Inr)
    from b(1) have "dV = mat_plus (deltaV m) (outer e one_hot_xt)"
      by (auto simp: mat_add_def mat_plus_def split: if_splits)
    moreover from b(3) have "dU = mat_plus (deltaU m) (outer e s_prev)"
      by (auto simp: mat_add_def mat_plus_def split: if_splits)
    ultimately show ?thesis using True b(4,5) ohx sp by (simp add: g_def)
  next
    case False
    with rest obtain dV s_prev dU where
      b: "mat_add (deltaV m) (outer delta_in_T one_hot_xt) = Inr dV"
         "py_get s (int (T - k - 1)) = Inr s_prev"
         "mat_add (deltaU m) (outer delta_in_T s_prev) = Inr dU"
         "m1 = m\<lparr>deltaV := dV, deltaU := dU\<rparr>" "e1 = delta_in_T"
      by (auto simp: and_then_eq_Inr)
    from b(2) have sp: "s_prev = s ! (T - k - 1)" by (auto dest: py_get_int_Inr)
    from b(1) have "dV = mat_plus (deltaV m) (outer delta_in_T one_hot_xt)"
      by (auto simp: mat_add_def mat_plus_def split: if_splits)
    moreover from b(3) have "dU = mat_plus (deltaU m) (outer delta_in_T s_prev)"
      by (auto simp: mat_add_def mat_plus_def split: if_splits)
    ultimately show ?thesis using False b(4,5) ohx sp dT by (simp add: g_def)
  qed
qed

lemma bptt_np_loop:
  assumes "for_loop (map int [k ..< n]) (bptt_body x s (int (length x - 1))) (m0, e0) = Inr r"
    and "n \<le> length x - 1"
    and "e0 = bptt_np_error m0 x d y s (k - 1)"
  shows "fst r = m0\<lparr>deltaV := foldl mat_plus (deltaV m0) (map (bptt_np_gainV m0 x d y s) [k ..< n]),
                    deltaU := foldl mat_plus (deltaU m0) (map (bptt_np_gainU m0 x d y s) [k ..< n])\<rparr>"
  using assms
proof (induction "n - k" arbitrary: k m0 e0)
  case 0
  then have "n \<le> k" by simp
  with "0.prems"(1) show ?case by auto
next
  case (Suc j)
  then have kn: "k < n" by simp
  then have l: "[k ..< n] = k # [Suc k ..< n]" by (simp add: upt_conv_Cons)
  from Suc.prems(1) obtain m1 e1 where
    b: "bptt_body x s (int (length x - 1)) (int k) (m0, e0) = Inr (m1, e1)" and
    rr: "for_loop (map int [Suc k ..< n]) (bptt_body x s (int (length x - 1))) (m1, e1) = Inr r"
    unfolding l by (auto split: sum.splits)
  from kn Suc.prems(2) have kT: "k < length x - 1" by simp
  note ef = bptt_body_effect [OF b kT]
  have g: "(if k = 0 then e0
            else map2 (*) (transpose_times (hidden_dims m0) (U m0) e0) (grad (s ! (length x - 1 - k))))
           = bptt_np_error m0 x d y s k"
  proof (cases k)
    case 0
    with Suc.prems(3) show ?thesis by simp
  next
    case (Suc k')
    with Suc.prems(3) show ?thesis by simp
  qed
  from ef have e1: "e1 = bptt_np_error m0 x d y s k"
    and m1: "m1 = m0\<lparr>deltaV := mat_plus (deltaV m0) (bptt_np_gainV m0 x d y s k),
                      deltaU := mat_plus (deltaU m0) (bptt_np_gainU m0 x d y s k)\<rparr>"
    unfolding g by (simp_all add: bptt_np_gainV_def bptt_np_gainU_def)
  have fr: "bptt_np_error m1 x d y s = bptt_np_error m0 x d y s"
    unfolding m1 by (simp add: fun_eq_iff bptt_np_frame)
  have gv: "bptt_np_gainV m1 x d y s = bptt_np_gainV m0 x d y s"
    and gu: "bptt_np_gainU m1 x d y s = bptt_np_gainU m0 x d y s"
    unfolding fun_eq_iff bptt_np_gainV_def bptt_np_gainU_def fr by (simp_all add: m1)
  from Suc.hyps(2) kn have j: "j = n - Suc k" by simp
  have e1': "e1 = bptt_np_error m1 x d y s (Suc k - 1)" by (simp add: e1 fr)
  from Suc.hyps(1) [OF j rr Suc.prems(2) e1']
  have "fst r = m1\<lparr>deltaV := foldl mat_plus (deltaV m1) (map (bptt_np_gainV m0 x d y s) [Suc k ..< n]),
                  deltaU := foldl mat_plus (deltaU m1) (map (bptt_np_gainU m0 x d y s) [Suc k ..< n])\<rparr>"
    unfolding gv gu .
  then show ?case unfolding l by (simp add: m1)
qed

lemma bptt_np_gain_frame:
  "bptt_np_gainV (m\<lparr>deltaW := a\<rparr>) x d y s = bptt_np_gainV m x d y s"
  "bptt_np_gainU (m\<lparr>deltaW := a\<rparr>) x d y s = bptt_np_gainU m x d y s"
  by (simp_all add: fun_eq_iff bptt_np_gainV_def bptt_np_gainU_def bptt_np_frame)

lemma acc_deltas_bptt_np_loop:
  assumes "acc_deltas_bptt_np m x d y s steps = Inr m'"
  shows "\<exists>delta_out st delta_in r.
           py_get d 0 = Inr (d ! 0) \<and>
           make_onehot (d ! 0) (out_vocab_size m) = Inr (one_hot (d ! 0) (out_vocab_size m)) \<and>
           (\<exists>yt. py_get y (int (length x) - 1) = Inr yt \<and>
              vec_sub (one_hot (d ! 0) (out_vocab_size m)) yt = Inr delta_out \<and>
              delta_out = map2 (-) (one_hot (d ! 0) (out_vocab_size m)) yt) \<and>
           py_get s (int (length x) - 1) = Inr st \<and>
           delta_in = map2 (*) (transpose_times (hidden_dims m) (W m) delta_out) (grad st) \<and>
           for_loop (bptt_np_range x steps) (bptt_body x s (int (length x) - 1))
             (m\<lparr>deltaW := outer delta_out st\<rparr>, delta_in) = Inr r \<and>
           m' = fst r"
proof -
  from assms obtain d0 one_hot_dt yt delta_out st wd delta_in r where
    a: "py_get d 0 = Inr d0" "make_onehot d0 (out_vocab_size m) = Inr one_hot_dt"
       "py_get y (int (length x) - 1) = Inr yt" "vec_sub one_hot_dt yt = Inr delta_out"
       "py_get s (int (length x) - 1) = Inr st"
       "dot_transpose (hidden_dims m) (W m) delta_out = Inr wd"
       "vec_mul wd (grad st) = Inr delta_in"
       "for_loop (bptt_np_range x steps) (bptt_body x s (int (length x) - 1))
             (m\<lparr>deltaW := outer delta_out st\<rparr>, delta_in) = Inr r"
       "m' = fst r"
    unfolding acc_deltas_bptt_np_def Let_def and_then_eq_Inr by auto
  from a(1) have "py_get d (int 0) = Inr d0" by simp
  from py_get_int_Inr [OF this] have d0: "d0 = d ! 0" by simp
  from a(2) d0 have oh: "one_hot_dt = one_hot (d ! 0) (out_vocab_size m)"
    by (auto simp: make_onehot_def one_hot_def split: if_splits)
  from a(4) oh have de: "delta_out = map2 (-) (one_hot (d ! 0) (out_vocab_size m)) yt"
    by (auto simp: vec_sub_def split: if_splits)
  from a(6) have wd: "wd = transpose_times (hidden_dims m) (W m) delta_out"
    by (auto simp: dot_transpose_def transpose_times_def split: if_splits)
  from a(7) wd have di: "delta_in = map2 (*) (transpose_times (hidden_dims m) (W m) delta_out) (grad st)"
    by (auto simp: vec_mul_def split: if_splits)
  from a d0 oh de di show ?thesis by blast
qed

lemma acc_deltas_bptt_np_ex3:
  "acc_deltas_bptt_np ex_rnn [0, 1, 0] [0] [[1/2, 1/2], [1/2, 1/2], [1/2, 1/2]]
     ([[1/2, 1/2], [1/2, 1/2], [1/2, 1/2]] @ [[0, 0]]) 5
   = Inr (ex_rnn\<lparr>deltaU := [[163/32, 163/32], [157/32, 157/32]],
                  deltaV := [[57/8, 113/16], [55/8, 111/16]],
                  deltaW := [[1/4, 1/4], [-1/4, -1/4]]\<rparr>)"
  by (simp add: acc_deltas_bptt_np_def bptt_np_range_def bptt_body_def ex_rnn_def rnn_eval)

lemma rnn_deltas_of_eq:
  "m' = m\<lparr>deltaW := a, deltaV := b, deltaU := c\<rparr> \<Longrightarrow> deltaV m' = b \<and> deltaU m' = c"
  by simp

text \<open>
  A depth below \<open>-1\<close>. With \<open>steps = -3\<close> on a sequence of length two, \<open>t = 1\<close> and
  \<open>min(steps+1, t) = -2\<close>; the loop header \<open>range(-2)\<close> yields no value of \<open>t_\<close>, the
  call returns, and \<open>deltaV\<close> and \<open>deltaU\<close> are as before the call. The number of
  iterations is 0, which is not \<open>min(steps+1, t)\<close>.
\<close>

theorem bptt_np_negative_steps:
  "acc_deltas_bptt_np ex_rnn [0, 1] [0] [[1/2, 1/2], [1/2, 1/2]]
     [[1/2, 1/2], [1/2, 1/2], [0, 0]] (- 3)
   = Inr (ex_rnn\<lparr>deltaW := [[1/4, 1/4], [-1/4, -1/4]]\<rparr>) \<and>
   bptt_np_range [0, 1] (- 3) = [] \<and>
   min (- 3 + 1) (int (length [0, 1 :: int]) - 1) = (- 2 :: int) \<and>
   int (length (bptt_np_range [0, 1] (- 3))) \<noteq> min (- 3 + 1) (int (length [0, 1 :: int]) - 1)"
  by (simp add: acc_deltas_bptt_np_def bptt_np_range_def bptt_body_def ex_rnn_def rnn_eval)

text \<open>
  Claim C6, for every \<open>x\<close> and every \<open>steps\<close>. Whenever \<open>acc_deltas_bptt_np\<close> returns,
  its inner loop has executed exactly \<open>n = max(0, min(steps+1, t))\<close> iterations, where
  \<open>t = len(x) - 1\<close>; \<open>n\<close> is \<open>min(steps+1, t)\<close> whenever \<open>steps \<ge> -1\<close> and \<open>x\<close> is not
  empty.
  \<^item> There are \<open>n + 1\<close> loop states: the first holds the model with the freshly assigned
    \<open>deltaW\<close>, each next one is what the loop body returns at \<open>t_ = k\<close> on the state
    before it, for \<open>k = 0, ..., n-1\<close> in this order, and the last holds the model that
    the call returns. In each of these iterations the subscripts \<open>t - t_\<close> and
    \<open>t - t_ - 1\<close> are at least 1 and at least 0.
  \<^item> The returned model is the given one with \<open>deltaW\<close> assigned and with exactly \<open>n\<close>
    outer products added to \<open>deltaV\<close> and to \<open>deltaU\<close>, those of the unrolled steps
    \<open>0, ..., n-1\<close> of the specification; the last hidden state used is
    \<open>hiddenTrace[t-n]\<close>, at index 0 or later.
  \<^item> The unrolling never reaches the row one step before position 0: for a non-empty
    \<open>x\<close> and a hidden trace of \<open>len(x) + 1\<close> rows, the call returns the same model
    whatever the last row, the one that \<open>s[-1]\<close> reads, holds.
\<close>

theorem bptt_np_inner_loop_bound:
  assumes run: "acc_deltas_bptt_np m x d y s steps = Inr m'"
  shows "(\<exists>sts. length sts = Suc (bptt_np_depth x steps) \<and>
            fst (sts ! 0) = m\<lparr>deltaW := deltaW m'\<rparr> \<and>
            fst (sts ! bptt_np_depth x steps) = m' \<and>
            (\<forall>k<bptt_np_depth x steps.
               bptt_body x s (int (length x) - 1) (int k) (sts ! k) = Inr (sts ! Suc k) \<and>
               1 \<le> int (length x) - 1 - int k \<and> 0 \<le> int (length x) - 1 - int k - 1)) \<and>
         m' = m\<lparr>deltaW := deltaW m',
                deltaV := foldl mat_plus (deltaV m)
                            (map (bptt_np_gainV m x d y s) [0 ..< bptt_np_depth x steps]),
                deltaU := foldl mat_plus (deltaU m)
                            (map (bptt_np_gainU m x d y s) [0 ..< bptt_np_depth x steps])\<rparr> \<and>
         (- 1 \<le> steps \<and> x \<noteq> [] \<longrightarrow>
            int (bptt_np_depth x steps) = min (steps + 1) (int (length x) - 1)) \<and>
         (x \<noteq> [] \<longrightarrow>
            (\<forall>rows z z'. s = rows @ [z] \<and> length rows = length x \<longrightarrow>
               acc_deltas_bptt_np m x d y (rows @ [z']) steps = Inr m'))"
proof -
  let ?t = "int (length x) - 1" and ?n = "bptt_np_depth x steps"
  from acc_deltas_bptt_np_loop [OF run] obtain delta_out st delta_in r yt where
    d0: "py_get d 0 = Inr (d ! 0)"
    and yt: "py_get y ?t = Inr yt"
    and de: "delta_out = map2 (-) (one_hot (d ! 0) (out_vocab_size m)) yt"
    and st: "py_get s ?t = Inr st"
    and di: "delta_in = map2 (*) (transpose_times (hidden_dims m) (W m) delta_out) (grad st)"
    and loop: "for_loop (bptt_np_range x steps) (bptt_body x s ?t)
                 (m\<lparr>deltaW := outer delta_out st\<rparr>, delta_in) = Inr r"
    and m': "m' = fst r"
    by blast
  let ?m0 = "m\<lparr>deltaW := outer delta_out st\<rparr>"
  have closed: "fst r = ?m0\<lparr>deltaV := foldl mat_plus (deltaV m)
                            (map (bptt_np_gainV m x d y s) [0 ..< ?n]),
                deltaU := foldl mat_plus (deltaU m)
                            (map (bptt_np_gainU m x d y s) [0 ..< ?n])\<rparr>"
  proof (cases "?n = 0")
    case True
    with loop show ?thesis by (auto simp: bptt_np_range_upt)
  next
    case False
    then have n: "0 < ?n" by simp
    from bptt_np_depth_bound [OF n] have lx: "2 \<le> length x" by simp
    then have t: "?t = int (length x - 1)" by simp
    from yt st have "yt = y ! (length x - 1)" "st = s ! (length x - 1)"
      unfolding t by (auto dest: py_get_int_Inr)
    with de di have e0: "delta_in = bptt_np_error ?m0 x d y s (0 - 1)"
      by simp
    have le: "?n \<le> length x - 1" by (simp add: bptt_np_depth_def)
    from loop have "for_loop (map int [0 ..< ?n]) (bptt_body x s (int (length x - 1)))
                      (?m0, delta_in) = Inr r"
      unfolding t bptt_np_range_upt .
    from bptt_np_loop [OF this le e0] show ?thesis
      by (simp add: bptt_np_gain_frame)
  qed
  then have dW: "deltaW m' = outer delta_out st" and
    cl: "m' = m\<lparr>deltaW := deltaW m',
                deltaV := foldl mat_plus (deltaV m)
                            (map (bptt_np_gainV m x d y s) [0 ..< ?n]),
                deltaU := foldl mat_plus (deltaU m)
                            (map (bptt_np_gainU m x d y s) [0 ..< ?n])\<rparr>"
    unfolding m' by simp_all
  from for_loop_trace [OF loop] obtain sts where
    s: "length sts = Suc (length (bptt_np_range x steps))"
       "sts ! 0 = (?m0, delta_in)" "sts ! length (bptt_np_range x steps) = r"
       "\<forall>i<length (bptt_np_range x steps).
          bptt_body x s ?t (bptt_np_range x steps ! i) (sts ! i) = Inr (sts ! Suc i)"
    by blast
  have ln: "length (bptt_np_range x steps) = ?n" by (simp add: bptt_np_range_upt)
  have tr: "\<exists>sts. length sts = Suc ?n \<and>
            fst (sts ! 0) = m\<lparr>deltaW := deltaW m'\<rparr> \<and>
            fst (sts ! ?n) = m' \<and>
            (\<forall>k<?n. bptt_body x s ?t (int k) (sts ! k) = Inr (sts ! Suc k) \<and>
               1 \<le> ?t - int k \<and> 0 \<le> ?t - int k - 1)"
  proof (intro exI [of _ sts] conjI allI impI)
    show "length sts = Suc ?n" using s(1) ln by simp
    show "fst (sts ! 0) = m\<lparr>deltaW := deltaW m'\<rparr>" using s(2) dW by simp
    show "fst (sts ! ?n) = m'" using s(3) ln m' by simp
  next
    fix k assume k: "k < ?n"
    with s(4) ln show "bptt_body x s ?t (int k) (sts ! k) = Inr (sts ! Suc k)"
      by (simp add: bptt_np_range_upt)
    from bptt_np_depth_bound [OF k] show "1 \<le> ?t - int k" "0 \<le> ?t - int k - 1"
      by simp_all
  qed
  have depth: "- 1 \<le> steps \<and> x \<noteq> [] \<longrightarrow> int ?n = min (steps + 1) ?t"
    by (cases x) (auto simp: bptt_np_depth_def)
  have indep: "acc_deltas_bptt_np m x d y (rows @ [z']) steps = Inr m'"
    if ne: "x \<noteq> []" and sr: "s = rows @ [z]" and len: "length rows = length x" for rows z z'
  proof -
    from ne len have t: "0 \<le> ?t" "?t < int (length rows)" by (cases x, simp_all)+
    then have st: "py_get (rows @ [z']) ?t = py_get (rows @ [z]) ?t"
      by (simp add: py_get_append_front)
    have lp: "for_loop (bptt_np_range x steps) (bptt_body x (rows @ [z']) ?t) st0
                  = for_loop (bptt_np_range x steps) (bptt_body x (rows @ [z]) ?t) st0" for st0
    proof (rule for_loop_cong)
      fix i st assume "i \<in> set (bptt_np_range x steps)"
      from bptt_np_range_set [OF this] t
      show "bptt_body x (rows @ [z']) ?t i st = bptt_body x (rows @ [z]) ?t i st"
        by (intro bptt_body_front) simp_all
    qed
    have "acc_deltas_bptt_np m x d y (rows @ [z']) steps = acc_deltas_bptt_np m x d y (rows @ [z]) steps"
      unfolding acc_deltas_bptt_np_def Let_def st lp ..
    with run sr show ?thesis by simp
  qed
  from tr cl depth indep show ?thesis by blast
qed

theorem bptt_np_inner_loop_bound_witness:
  "acc_deltas_bptt_np ex_rnn [0, 1, 0] [0] [[1/2, 1/2], [1/2, 1/2], [1/2, 1/2]]
     ([[1/2, 1/2], [1/2, 1/2], [1/2, 1/2]] @ [[0, 0]]) 5
   = Inr (ex_rnn\<lparr>deltaU := [[163/32, 163/32], [157/32, 157/32]],
                  deltaV := [[57/8, 113/16], [55/8, 111/16]],
                  deltaW := [[1/4, 1/4], [-1/4, -1/4]]\<rparr>) \<and>
   (- 1 :: int) \<le> 5 \<and> [0, 1, 0] \<noteq> ([] :: int list) \<and>
   int (bptt_np_depth [0, 1, 0] 5) = min (5 + 1) (int (length [0, 1, 0 :: int]) - 1) \<and>
   bptt_np_depth [0, 1, 0] 5 = 2 \<and>
   [[57/8, 113/16], [55/8, 111/16]]
     = foldl mat_plus (deltaV ex_rnn)
         (map (bptt_np_gainV ex_rnn [0, 1, 0] [0] [[1/2, 1/2], [1/2, 1/2], [1/2, 1/2]]
                 ([[1/2, 1/2], [1/2, 1/2], [1/2, 1/2]] @ [[0, 0]]))
              [0 ..< bptt_np_depth [0, 1, 0] 5]) \<and>
   [[163/32, 163/32], [157/32, 157/32]]
     = foldl mat_plus (deltaU ex_rnn)
         (map (bptt_np_gainU ex_rnn [0, 1, 0] [0] [[1/2, 1/2], [1/2, 1/2], [1/2, 1/2]]
                 ([[1/2, 1/2], [1/2, 1/2], [1/2, 1/2]] @ [[0, 0]]))
              [0 ..< bptt_np_depth [0, 1, 0] 5]) \<and>
   length [[1/2, 1/2], [1/2, 1/2], [1/2, 1/2 :: real]] = length [0, 1, 0 :: int] \<and>
   acc_deltas_bptt_np ex_rnn [0, 1, 0] [0] [[1/2, 1/2], [1/2, 1/2], [1/2, 1/2]]
     ([[1/2, 1/2], [1/2, 1/2], [1/2, 1/2]] @ [[3, 3]]) 5
   = Inr (ex_rnn\<lparr>deltaU := [[163/32, 163/32], [157/32, 157/32]],
                  deltaV := [[57/8, 113/16], [55/8, 111/16]],
                  deltaW := [[1/4, 1/4], [-1/4, -1/4]]\<rparr>)"
proof -
  let ?y = "[[1/2, 1/2], [1/2, 1/2], [1/2, 1/2 :: real]]"
  let ?s = "?y @ [[0, 0]]"
  let ?M = "ex_rnn\<lparr>deltaU := [[163/32, 163/32], [157/32, 157/32]],
                  deltaV := [[57/8, 113/16], [55/8, 111/16]],
                  deltaW := [[1/4, 1/4], [-1/4, -1/4]]\<rparr>"
  have run: "acc_deltas_bptt_np ex_rnn [0, 1, 0] [0] ?y ?s 5 = Inr ?M"
    by (rule acc_deltas_bptt_np_ex3)
  have st: "(- 1 :: int) \<le> 5" by simp
  have ne: "[0, 1, 0] \<noteq> ([] :: int list)" by simp
  have len: "length ?y = length [0, 1, 0 :: int]" by simp
  have dep: "bptt_np_depth [0, 1, 0] 5 = 2" by (simp add: bptt_np_depth_def)
  note t = bptt_np_inner_loop_bound [OF run]
  from t have "- 1 \<le> (5 :: int) \<and> [0, 1, 0] \<noteq> ([] :: int list) \<longrightarrow>
      int (bptt_np_depth [0, 1, 0] 5) = min (5 + 1) (int (length [0, 1, 0 :: int]) - 1)"
    by (rule conjunct1 [OF conjunct2 [OF conjunct2]])
  with st ne have a: "int (bptt_np_depth [0, 1, 0] 5) = min (5 + 1) (int (length [0, 1, 0 :: int]) - 1)"
    by (simp only: simp_thms)
  from t have eqM: "?M = ex_rnn\<lparr>deltaW := deltaW ?M,
                deltaV := foldl mat_plus (deltaV ex_rnn)
                            (map (bptt_np_gainV ex_rnn [0, 1, 0] [0] ?y ?s) [0 ..< bptt_np_depth [0, 1, 0] 5]),
                deltaU := foldl mat_plus (deltaU ex_rnn)
                            (map (bptt_np_gainU ex_rnn [0, 1, 0] [0] ?y ?s) [0 ..< bptt_np_depth [0, 1, 0] 5])\<rparr>"
    by (rule conjunct1 [OF conjunct2])
  have dV: "deltaV ?M = [[57/8, 113/16], [55/8, 111/16]]"
    and dU: "deltaU ?M = [[163/32, 163/32], [157/32, 157/32]]" by simp_all
  note f = rnn_deltas_of_eq [OF eqM]
  have b: "[[57/8, 113/16], [55/8, 111/16]] = foldl mat_plus (deltaV ex_rnn)
                            (map (bptt_np_gainV ex_rnn [0, 1, 0] [0] ?y ?s) [0 ..< bptt_np_depth [0, 1, 0] 5])"
    using conjunct1 [OF f] unfolding dV .
  have c: "[[163/32, 163/32], [157/32, 157/32]] = foldl mat_plus (deltaU ex_rnn)
                            (map (bptt_np_gainU ex_rnn [0, 1, 0] [0] ?y ?s) [0 ..< bptt_np_depth [0, 1, 0] 5])"
    using conjunct2 [OF f] unfolding dU .
  from t have "[0, 1, 0] \<noteq> ([] :: int list) \<longrightarrow>
            (\<forall>rows z z'. ?s = rows @ [z] \<and> length rows = length [0, 1, 0 :: int] \<longrightarrow>
               acc_deltas_bptt_np ex_rnn [0, 1, 0] [0] ?y (rows @ [z']) 5 = Inr ?M)"
    by (rule conjunct2 [OF conjunct2 [OF conjunct2]])
  from this [rule_format, OF ne, of ?y "[0, 0]" "[3, 3]"] len
  have e: "acc_deltas_bptt_np ex_rnn [0, 1, 0] [0] ?y (?y @ [[3, 3]]) 5 = Inr ?M" by (simp only: simp_thms)
  show ?thesis by (intro conjI) (rule run st ne a dep b c len e)+
qed

end
